theory Spec2Isabelle
  imports Main "HOL-Library.AList"
begin

section \<open>JavaScript values\<close>

text \<open>
  The queue service handles values parsed from JSON (the OCR responses) and the records it
  keeps in its status map. A value is a primitive or an object; arrays and Node buffers are
  objects too and may carry named properties besides their elements. Numbers are modelled
  as integers: the code only tests them for truthiness and never computes with a payload
  number. An object is an association list read through \<open>map_of\<close>; what \<open>JSON.parse\<close>
  returns has distinct keys.
\<close>

datatype jsval =
    JUndefined
  | JNull
  | JBool bool
  | JNum int
  | JStr string
  | JObj "(string \<times> jsval) list"
  | JArr "jsval list" "(string \<times> jsval) list"
  | JBuf "nat list" "(string \<times> jsval) list"

datatype js_error =
    TypeError string
  | ReferenceError string
  | Error string

fun message :: "js_error \<Rightarrow> string" where
  "message (TypeError m) = m"
| "message (ReferenceError m) = m"
| "message (Error m) = m"

definition bindE :: "js_error + 'a \<Rightarrow> ('a \<Rightarrow> js_error + 'b) \<Rightarrow> js_error + 'b" where
  "bindE m f = (case m of Inl e \<Rightarrow> Inl e | Inr v \<Rightarrow> f v)"

fun truthy :: "jsval \<Rightarrow> bool" where
  "truthy JUndefined = False"
| "truthy JNull = False"
| "truthy (JBool b) = b"
| "truthy (JNum n) = (n \<noteq> 0)"
| "truthy (JStr s) = (s \<noteq> [])"
| "truthy (JObj ps) = True"
| "truthy (JArr xs ps) = True"
| "truthy (JBuf bs ps) = True"

fun isArray :: "jsval \<Rightarrow> bool" where
  "isArray (JArr xs ps) = True"
| "isArray _ = False"

fun typeof_is_object :: "jsval \<Rightarrow> bool" where
  "typeof_is_object JNull = True"
| "typeof_is_object (JObj ps) = True"
| "typeof_is_object (JArr xs ps) = True"
| "typeof_is_object (JBuf bs ps) = True"
| "typeof_is_object _ = False"

fun nullish :: "jsval \<Rightarrow> bool" where
  "nullish JUndefined = True"
| "nullish JNull = True"
| "nullish _ = False"

text \<open>The named own properties of a value; a primitive has none.\<close>

fun props :: "jsval \<Rightarrow> (string \<times> jsval) list" where
  "props (JObj ps) = ps"
| "props (JArr xs ps) = ps"
| "props (JBuf bs ps) = ps"
| "props _ = []"

fun with_props :: "jsval \<Rightarrow> (string \<times> jsval) list \<Rightarrow> jsval" where
  "with_props (JObj _) ps = JObj ps"
| "with_props (JArr xs _) ps = JArr xs ps"
| "with_props (JBuf bs _) ps = JBuf bs ps"
| "with_props v ps = v"

definition own :: "(string \<times> jsval) list \<Rightarrow> string \<Rightarrow> jsval" where
  "own ps k = (case map_of ps k of None \<Rightarrow> JUndefined | Some v \<Rightarrow> v)"

definition quote :: "string \<Rightarrow> string" where
  "quote s = [CHR 0x27] @ s @ [CHR 0x27]"

definition show_nullish :: "jsval \<Rightarrow> string" where
  "show_nullish v = (if v = JNull then ''null'' else ''undefined'')"

text \<open>
  Reading \<open>v.k\<close> or \<open>v[k]\<close> for one of the property names the service uses (none of them is
  an index, \<open>length\<close> or a member of a built-in prototype): on \<open>null\<close> and \<open>undefined\<close> it
  throws, on any other primitive it is \<open>undefined\<close>, on an object it is the own property.
\<close>

definition get_prop :: "jsval \<Rightarrow> string \<Rightarrow> js_error + jsval" where
  "get_prop v k =
     (if nullish v
      then Inl (TypeError (''Cannot read properties of '' @ show_nullish v @
                           '' (reading '' @ quote k @ '')''))
      else Inr (own (props v) k))"

text \<open>
  The assignment \<open>v.k = x\<close>. The module is not in strict mode, so on a primitive other than
  \<open>null\<close> and \<open>undefined\<close> the assignment is silently dropped. On an object an existing
  property keeps its place and a new one goes last.
\<close>

definition assign :: "jsval \<Rightarrow> string \<Rightarrow> jsval \<Rightarrow> js_error + jsval" where
  "assign v k x =
     (if nullish v
      then Inl (TypeError (''Cannot set properties of '' @ show_nullish v @
                           '' (setting '' @ quote k @ '')''))
      else Inr (with_props v (AList.update k x (props v))))"

fun dec_of_nat :: "nat \<Rightarrow> string" where
  "dec_of_nat n =
     (if n < 10 then [char_of (48 + n)]
      else dec_of_nat (n div 10) @ [char_of (48 + n mod 10)])"

declare dec_of_nat.simps [simp del]

definition indexed :: "jsval list \<Rightarrow> (string \<times> jsval) list" where
  "indexed xs = zip (map dec_of_nat [0..<length xs]) xs"

text \<open>The own enumerable properties an object spread \<open>{...v}\<close> copies, in order.\<close>

fun spread :: "jsval \<Rightarrow> (string \<times> jsval) list" where
  "spread (JObj ps) = ps"
| "spread (JArr xs ps) = indexed xs @ ps"
| "spread (JBuf bs ps) = indexed (map (\<lambda>b. JNum (int b)) bs) @ ps"
| "spread _ = []"

definition elem :: "jsval list \<Rightarrow> nat \<Rightarrow> jsval" where
  "elem xs i = (if i < length xs then xs ! i else JUndefined)"

definition orElse :: "jsval \<Rightarrow> jsval \<Rightarrow> jsval" where
  "orElse a b = (if truthy a then a else b)"

text \<open>
  A parsed JSON document: no \<open>undefined\<close>, no buffer, and arrays without named properties.
\<close>

fun json :: "jsval \<Rightarrow> bool" where
  "json JUndefined = False"
| "json JNull = True"
| "json (JBool b) = True"
| "json (JNum n) = True"
| "json (JStr s) = True"
| "json (JObj ps) = (\<forall>p \<in> set ps. json (snd p))"
| "json (JArr xs ps) = (ps = [] \<and> (\<forall>x \<in> set xs. json x))"
| "json (JBuf bs ps) = False"

section \<open>The response normalizer\<close>

text \<open>
  The normalizing code stands twice in the source, once in the worker of \<open>processingQueue\<close>
  and once in \<open>processQueuedFile\<close>, word for word. The helper \<open>findPropertyInArray\<close> is
  declared inside the worker only; in \<open>processQueuedFile\<close> the name is not bound, and
  evaluating it throws a \<open>ReferenceError\<close>. The \<open>site\<close> says which copy runs.
\<close>

datatype site = InWorker | InTrigger

text \<open>
  One reading of the system clock: \<open>Date.now()\<close> and \<open>new Date().toISOString()\<close>.
\<close>

record clock_reading =
  epoch_ms :: nat
  iso :: string

definition inv_placeholder :: "clock_reading \<Rightarrow> string" where
  "inv_placeholder clk = ''INV-'' @ dec_of_nat (epoch_ms clk)"

definition today :: "clock_reading \<Rightarrow> string" where
  "today clk = takeWhile (\<lambda>c. c \<noteq> CHR ''T'') (iso clk)"

definition field :: "jsval \<Rightarrow> bool \<Rightarrow> jsval" where
  "field v c = JObj [(''value'', v), (''is_confident'', JBool c)]"

text \<open>\<open>ocrData.find(item => item.output)\<close>: the first element whose \<open>output\<close> is truthy.\<close>

fun find_output :: "jsval list \<Rightarrow> js_error + jsval" where
  "find_output [] = Inr JUndefined"
| "find_output (item # rest) =
     bindE (get_prop item ''output'')
       (\<lambda>out. if truthy out then Inr item else find_output rest)"

fun findPropertyInArray :: "jsval list \<Rightarrow> string \<Rightarrow> js_error + jsval" where
  "findPropertyInArray [] propertyName = Inr JNull"
| "findPropertyInArray (item # rest) propertyName =
     bindE (get_prop item propertyName)
       (\<lambda>v. if truthy v then Inr v
            else bindE (get_prop item ''output'')
              (\<lambda>out. if truthy out
                     then bindE (get_prop out propertyName)
                            (\<lambda>w. if truthy w then Inr w
                                 else findPropertyInArray rest propertyName)
                     else findPropertyInArray rest propertyName))"

definition lookup_helper :: "site \<Rightarrow> jsval list \<Rightarrow> string \<Rightarrow> js_error + jsval" where
  "lookup_helper st xs propertyName =
     (case st of
        InWorker \<Rightarrow> findPropertyInArray xs propertyName
      | InTrigger \<Rightarrow> Inl (ReferenceError ''findPropertyInArray is not defined''))"

text \<open>
  \<open>ocrData[2] && ocrData[2].output && Array.isArray(ocrData[2].output.items)\<close>, and the items
  it guards.
\<close>

definition third_items :: "jsval list \<Rightarrow> js_error + jsval option" where
  "third_items xs =
     (if truthy (elem xs 2)
      then bindE (get_prop (elem xs 2) ''output'')
             (\<lambda>out. if truthy out
                    then bindE (get_prop out ''items'')
                           (\<lambda>its. Inr (if isArray its then Some its else None))
                    else Inr None)
      else Inr None)"

text \<open>The object built from the elements of an array none of which has an \<open>output\<close>.\<close>

definition merge_array :: "site \<Rightarrow> clock_reading \<Rightarrow> jsval list \<Rightarrow> js_error + jsval" where
  "merge_array st clk xs =
     bindE (lookup_helper st xs ''nomor_referensi'') (\<lambda>a.
     bindE (lookup_helper st xs ''nama_supplier'') (\<lambda>b.
     bindE (lookup_helper st xs ''tanggal_faktur'') (\<lambda>c.
     bindE (lookup_helper st xs ''tgl_jatuh_tempo'') (\<lambda>d.
     bindE (third_items xs) (\<lambda>its.
       Inr (JObj [(''output'', JObj
         [(''nomor_referensi'', orElse a (field (JStr (inv_placeholder clk)) False)),
          (''nama_supplier'', orElse b (field (JStr ''Unknown Supplier'') False)),
          (''tanggal_faktur'', orElse c (field (JStr (today clk)) False)),
          (''tgl_jatuh_tempo'', orElse d (field (JStr []) False)),
          (''items'', (case its of None \<Rightarrow> JArr [] [] | Some v \<Rightarrow> v))])]))))))"

definition adopt :: "site \<Rightarrow> clock_reading \<Rightarrow> jsval \<Rightarrow> js_error + jsval" where
  "adopt st clk ocrData =
     (case ocrData of
        JArr xs ps \<Rightarrow>
          bindE (find_output xs)
            (\<lambda>outputItem. if truthy outputItem then Inr outputItem
                          else merge_array st clk xs)
      | _ \<Rightarrow> Inr ocrData)"

text \<open>\<open>if (!processedOcrData.output) processedOcrData = { output: {...} }\<close>\<close>

definition ensure_output :: "jsval \<Rightarrow> js_error + jsval" where
  "ensure_output pd =
     bindE (get_prop pd ''output'')
       (\<lambda>out. if truthy out then Inr pd
              else Inr (JObj [(''output'',
                     JObj (AList.update ''items'' (JArr [] [])
                            (if typeof_is_object pd then spread pd else [])))]))"

text \<open>
  \<open>processedOcrData.output.k = x\<close>: the object held in \<open>output\<close> is changed in place, which
  the value model writes back into \<open>processedOcrData\<close>.
\<close>

definition set_output_field :: "jsval \<Rightarrow> string \<Rightarrow> jsval \<Rightarrow> js_error + jsval" where
  "set_output_field pd k x =
     bindE (get_prop pd ''output'')
       (\<lambda>out. bindE (assign out k x)
          (\<lambda>out'. Inr (with_props pd (AList.update ''output'' out' (props pd)))))"

definition ensure_field :: "jsval \<Rightarrow> string \<Rightarrow> jsval \<Rightarrow> js_error + jsval" where
  "ensure_field pd k placeholder =
     bindE (get_prop pd ''output'')
       (\<lambda>out. bindE (get_prop out k)
          (\<lambda>v. if truthy v then Inr pd else set_output_field pd k placeholder))"

text \<open>The three \<open>if\<close>s under "Ensure essential properties exist in output".\<close>

definition ensure_essentials :: "clock_reading \<Rightarrow> jsval \<Rightarrow> js_error + jsval" where
  "ensure_essentials clk pd =
     bindE (ensure_field pd ''nomor_referensi'' (field (JStr (inv_placeholder clk)) True))
       (\<lambda>pd1. bindE (ensure_field pd1 ''nama_supplier'' (field (JStr ''Unknown Supplier'') False))
          (\<lambda>pd2. ensure_field pd2 ''tanggal_faktur'' (field (JStr (today clk)) False)))"

definition ensure_items :: "jsval \<Rightarrow> js_error + jsval" where
  "ensure_items pd =
     bindE (get_prop pd ''output'')
       (\<lambda>out. bindE (get_prop out ''items'')
          (\<lambda>its. if isArray its then Inr pd
                 else set_output_field pd ''items'' (JArr [] [])))"

definition normalizeOcr :: "site \<Rightarrow> clock_reading \<Rightarrow> jsval \<Rightarrow> js_error + jsval" where
  "normalizeOcr st clk ocrData =
     bindE (adopt st clk ocrData)
       (\<lambda>pd. bindE (ensure_output pd)
          (\<lambda>pd1. bindE (ensure_essentials clk pd1) ensure_items))"

text \<open>
  The object the code holds when the backfill starts: the payload, or the element or the
  merged object taken from an array payload, wrapped into an \<open>output\<close> if it had none.
\<close>

definition base_object :: "site \<Rightarrow> clock_reading \<Rightarrow> jsval \<Rightarrow> js_error + jsval" where
  "base_object st clk ocrData = bindE (adopt st clk ocrData) ensure_output"

text \<open>Reading a result: \<open>r.output\<close>, and \<open>v.k\<close> on a value that is not \<open>null\<close> or \<open>undefined\<close>.\<close>

definition fld :: "jsval \<Rightarrow> string \<Rightarrow> jsval" where
  "fld v k = own (props v) k"

definition out_of :: "jsval \<Rightarrow> jsval" where
  "out_of r = fld r ''output''"

fun is_object :: "jsval \<Rightarrow> bool" where
  "is_object (JObj ps) = True"
| "is_object (JArr xs ps) = True"
| "is_object (JBuf bs ps) = True"
| "is_object _ = False"

section \<open>The queue service\<close>

subsection \<open>Configuration and surroundings\<close>

definition MAX_RETRIES :: nat where
  "MAX_RETRIES = 2"

text \<open>
  What the module reads from \<open>process.env\<close> when it is loaded. \<open>TEMP_DIR\<close> stands for
  \<open>path.join(__dirname, '../../uploads/temp')\<close>.
\<close>

record config =
  OCR_API_ENDPOINT :: string
  FALLBACK_OCR_API_ENDPOINT :: string
  NODE_ENV_is_development :: bool
  USE_MOCK_DATA_is_true :: bool
  TEMP_DIR :: string

definition IS_DEV_MODE :: "config \<Rightarrow> bool" where
  "IS_DEV_MODE cfg = NODE_ENV_is_development cfg"

definition USE_MOCK_DATA :: "config \<Rightarrow> bool" where
  "USE_MOCK_DATA cfg = (IS_DEV_MODE cfg \<and> USE_MOCK_DATA_is_true cfg)"

text \<open>
  What lies outside the module during one run: \<open>post ep k\<close> is the outcome of the run's
  \<open>k\<close>-th \<open>axios.post\<close> when it is sent to \<open>ep\<close> (the response data, or the error it rejects
  with); \<open>ticks k\<close> is how often the progress interval fires while that request is awaited;
  \<open>clock n\<close> is the \<open>n\<close>-th reading of the system clock; \<open>mkdir_error\<close> and
  \<open>write_error\<close> are the failures, if any, of creating the temporary directory and of
  writing the temporary file; \<open>join_path\<close> is \<open>path.join\<close> of Node, which joins and
  normalizes.

  \<open>form_delete_error\<close> is what \<open>formData.delete('file')\<close> throws. The module takes
  \<open>FormData\<close> from the package \<open>form-data\<close>, whose objects have \<open>append\<close> and
  \<open>getHeaders\<close> but no method \<open>delete\<close>: there the call throws the \<open>TypeError\<close>
  \<open>formData.delete is not a function\<close>. \<open>None\<close> stands for a form object that has the
  method.
\<close>

record env =
  post :: "string \<Rightarrow> nat \<Rightarrow> js_error + jsval"
  ticks :: "nat \<Rightarrow> nat"
  clock :: "nat \<Rightarrow> clock_reading"
  form_delete_error :: "js_error option"
  mkdir_error :: "js_error option"
  write_error :: "js_error option"
  join_path :: "string \<Rightarrow> string \<Rightarrow> string"

text \<open>
  The effects on the outside, in the order they happen. A read stream is named by the number
  it was opened under; a request carries the streams that are attached to its form as
  \<open>file\<close>. \<open>FormData\<close> and \<open>axios\<close> are libraries, modelled by what their calls are named
  for: \<open>append\<close> attaches a part, \<open>delete\<close> removes the parts of that name where the
  form object has such a method, \<open>post\<close> sends the form.
\<close>

datatype event =
    CreateReadStream string nat
  | Post string "nat list"
  | Notify string jsval "js_error option" nat
  | WriteFile string jsval
  | Unlink string

text \<open>The interval set up by a run: the job it reports for, its counter, the \<open>fileInfo\<close> it passes.\<close>

record timer =
  t_id :: string
  t_progress :: nat
  t_info :: jsval

text \<open>
  \<open>store\<close> is the \<open>processingStatus\<close> map. \<open>history\<close> lists the calls of \<open>updateStatus\<close>,
  newest first, as (job, status, progress). \<open>interval\<close> is the interval that is armed, if any;
  one interval is followed at a time, that of the latest run that armed one (every job is
  run once, and an interval reports for its own job only). \<open>posts\<close>, \<open>streams\<close> and
  \<open>form\<close> belong to the run in progress: the requests sent so far, the streams opened
  so far, the streams attached to the form.
\<close>

record state =
  store :: "string \<Rightarrow> jsval option"
  history :: "(string \<times> string \<times> nat) list"
  trace :: "event list"
  reads :: nat
  interval :: "timer option"
  posts :: nat
  streams :: nat
  form :: "nat list"

datatype outcome = Resolved jsval | Rejected js_error

record task =
  fileId :: string
  filePath :: string
  originalname :: string

definition now :: "env \<Rightarrow> state \<Rightarrow> clock_reading" where
  "now ev s = clock ev (reads s)"

definition emit :: "event \<Rightarrow> state \<Rightarrow> state" where
  "emit e s = s\<lparr>trace := trace s @ [e]\<rparr>"

subsection \<open>The status store\<close>

text \<open>The record \<open>updateStatus\<close> writes.\<close>

definition status_record ::
  "string \<Rightarrow> string \<Rightarrow> jsval \<Rightarrow> nat \<Rightarrow> jsval \<Rightarrow> string \<Rightarrow> jsval" where
  "status_record fid status result progress fileInfo updatedAt = JObj
     [(''id'', JStr fid),
      (''status'', JStr status),
      (''result'', result),
      (''progress'', JNum (int progress)),
      (''fileInfo'', fileInfo),
      (''updatedAt'', JStr updatedAt)]"

definition updateStatus ::
  "env \<Rightarrow> string \<Rightarrow> string \<Rightarrow> jsval \<Rightarrow> nat \<Rightarrow> jsval \<Rightarrow> state \<Rightarrow> state" where
  "updateStatus ev fid status result progress fileInfo s =
     s\<lparr>store := (store s)(fid \<mapsto>
                status_record fid status result progress fileInfo (iso (now ev s))),
       history := (fid, status, progress) # history s,
       reads := Suc (reads s)\<rparr>"

text \<open>\<open>processingStatus.get(fileId)\<close>\<close>

definition lookup :: "state \<Rightarrow> string \<Rightarrow> jsval" where
  "lookup s fid = (case store s fid of None \<Rightarrow> JUndefined | Some r \<Rightarrow> r)"

definition getFileStatus :: "state \<Rightarrow> string \<Rightarrow> jsval" where
  "getFileStatus s fid =
     orElse (lookup s fid)
       (JObj [(''id'', JStr fid), (''status'', JStr ''not_found''), (''progress'', JNum 0)])"

text \<open>\<open>queueFile\<close>, with the identifier \<open>uuidv4()\<close> returned; the task is what it pushes.\<close>

definition queueFile :: "env \<Rightarrow> string \<Rightarrow> string \<Rightarrow> string \<Rightarrow> state \<Rightarrow> state \<times> task" where
  "queueFile ev uuid fp name s =
     (updateStatus ev uuid ''queued'' JNull 0
        (JObj [(''id'', JStr uuid), (''name'', JStr name), (''path'', JStr fp)]) s,
      \<lparr>fileId = uuid, filePath = fp, originalname = name\<rparr>)"

definition queueBuffer :: "env \<Rightarrow> string \<Rightarrow> nat list \<Rightarrow> string \<Rightarrow> string \<Rightarrow> state \<Rightarrow> state" where
  "queueBuffer ev uuid buffer originalFilename mimetype s =
     s\<lparr>store := (store s)(uuid \<mapsto> JObj
            [(''id'', JStr uuid),
             (''originalFilename'', JStr originalFilename),
             (''status'', JStr ''queued''),
             (''mimetype'', JStr mimetype),
             (''queuedAt'', JStr (iso (now ev s))),
             (''buffer'', JBuf buffer []),
             (''dataSize'', JNum (int (length buffer))),
             (''results'', JNull),
             (''error'', JNull)]),
       reads := Suc (reads s)\<rparr>"

subsection \<open>The progress interval\<close>

text \<open>
  One firing of the interval callback: \<open>progress += 5\<close>, then a status update while the
  counter is at most 90, else \<open>clearInterval\<close>.
\<close>

definition fire :: "env \<Rightarrow> state \<Rightarrow> state" where
  "fire ev s =
     (case interval s of
        None \<Rightarrow> s
      | Some t \<Rightarrow>
          (if t_progress t + 5 \<le> 90
           then updateStatus ev (t_id t) ''processing'' JNull (t_progress t + 5) (t_info t)
                  (s\<lparr>interval := Some (t\<lparr>t_progress := t_progress t + 5\<rparr>)\<rparr>)
           else s\<lparr>interval := None\<rparr>))"

fun fire_n :: "env \<Rightarrow> nat \<Rightarrow> state \<Rightarrow> state" where
  "fire_n ev 0 s = s"
| "fire_n ev (Suc n) s = fire_n ev n (fire ev s)"

definition setInterval :: "string \<Rightarrow> jsval \<Rightarrow> state \<Rightarrow> state" where
  "setInterval fid info s =
     s\<lparr>interval := Some \<lparr>t_id = fid, t_progress = 0, t_info = info\<rparr>\<rparr>"

definition clearInterval :: "state \<Rightarrow> state" where
  "clearInterval s = s\<lparr>interval := None\<rparr>"

subsection \<open>Calling the OCR endpoints\<close>

text \<open>\<open>fs.createReadStream(path)\<close> followed by \<open>formData.append('file', stream)\<close>.\<close>

definition attach_stream :: "string \<Rightarrow> state \<Rightarrow> state" where
  "attach_stream fp s =
     (emit (CreateReadStream fp (streams s)) s)
       \<lparr>streams := Suc (streams s), form := form s @ [streams s]\<rparr>"

text \<open>
  \<open>formData.delete('file')\<close>, then a new stream is attached. The call of \<open>delete\<close> stands
  inside the \<open>try\<close> of the attempt; should the library throw there, the attempt ends in
  the \<open>catch\<close> before any request is sent.
\<close>

definition fresh_stream :: "string \<Rightarrow> state \<Rightarrow> state" where
  "fresh_stream fp s = attach_stream fp (s\<lparr>form := []\<rparr>)"

definition reset_stream :: "env \<Rightarrow> string \<Rightarrow> state \<Rightarrow> js_error + state" where
  "reset_stream ev fp s =
     (case form_delete_error ev of
        Some error \<Rightarrow> Inl error
      | None \<Rightarrow> Inr (fresh_stream fp s))"

text \<open>
  \<open>await axios.post(ep, formData, ...)\<close>: the request goes out, the interval fires while it
  is pending, and the outcome comes back.
\<close>

definition await_post :: "env \<Rightarrow> string \<Rightarrow> state \<Rightarrow> (js_error + jsval) \<times> state" where
  "await_post ev ep s =
     (post ev ep (posts s),
      fire_n ev (ticks ev (posts s)) ((emit (Post ep (form s)) s)\<lparr>posts := Suc (posts s)\<rparr>))"

text \<open>
  \<open>sendFailureNotification\<close> only logs, and catches what its own body throws.
\<close>

definition sendFailureNotification ::
  "string \<Rightarrow> jsval \<Rightarrow> js_error option \<Rightarrow> nat \<Rightarrow> state \<Rightarrow> state" where
  "sendFailureNotification fid filename error retryCount s =
     emit (Notify fid filename error retryCount) s"

text \<open>
  The logging after a successful response evaluates \<open>JSON.stringify(ocrData).substring(0, 300)\<close>
  inside the \<open>try\<close>; \<open>JSON.stringify(undefined)\<close> is \<open>undefined\<close>, so that response counts as
  a failed attempt.
\<close>

definition log_snippet :: "jsval \<Rightarrow> js_error option" where
  "log_snippet ocrData =
     (if ocrData = JUndefined
      then Some (TypeError (''Cannot read properties of undefined (reading '' @
                            quote ''substring'' @ '')''))
      else None)"

text \<open>
  The loop \<open>while (retryCount <= MAX_RETRIES && !successful)\<close>. It returns the response data,
  or \<open>lastError\<close> when it gives up.
\<close>

function retry_loop ::
  "env \<Rightarrow> config \<Rightarrow> string \<Rightarrow> nat \<Rightarrow> js_error option \<Rightarrow> state \<Rightarrow>
     (js_error option + jsval) \<times> state" where
  "retry_loop ev cfg fp retryCount lastError s =
     (if retryCount \<le> MAX_RETRIES
      then
        (case (if retryCount > 0 then reset_stream ev fp s else Inr s) of
           Inl error \<Rightarrow> retry_loop ev cfg fp (Suc retryCount) (Some error) s
         | Inr s0 \<Rightarrow>
             (case await_post ev (OCR_API_ENDPOINT cfg) s0 of
                (Inl error, s1) \<Rightarrow> retry_loop ev cfg fp (Suc retryCount) (Some error) s1
              | (Inr ocrData, s1) \<Rightarrow>
                  (case log_snippet ocrData of
                     Some error \<Rightarrow> retry_loop ev cfg fp (Suc retryCount) (Some error) s1
                   | None \<Rightarrow> (Inr ocrData, s1))))
      else (Inl lastError, s))"
  by pat_completeness auto
termination
  by (relation "measure (\<lambda>(ev, cfg, fp, retryCount, lastError, s). Suc MAX_RETRIES - retryCount)")
     auto

declare retry_loop.simps [simp del]

text \<open>
  The loop, the notification after it has given up, and the single call of the fallback
  endpoint when that differs from the primary one. \<open>Inl\<close> is the \<open>lastError\<close> with which
  the run reaches its last resort (mock data in development mode, the error otherwise).
\<close>

definition call_ocr ::
  "env \<Rightarrow> config \<Rightarrow> string \<Rightarrow> jsval \<Rightarrow> string \<Rightarrow> state \<Rightarrow>
     (js_error option + jsval) \<times> state" where
  "call_ocr ev cfg fid filename fp s =
     (case retry_loop ev cfg fp 0 None s of
        (Inr ocrData, s1) \<Rightarrow> (Inr ocrData, s1)
      | (Inl lastError, s1) \<Rightarrow>
          (let s2 = sendFailureNotification fid filename lastError (MAX_RETRIES + 1) s1 in
           if OCR_API_ENDPOINT cfg \<noteq> FALLBACK_OCR_API_ENDPOINT cfg
           then
             (case reset_stream ev fp s2 of
                Inl fallbackError \<Rightarrow>
                  (Inl (Some fallbackError),
                   sendFailureNotification fid filename (Some fallbackError)
                     (MAX_RETRIES + 2) s2)
              | Inr s2' \<Rightarrow>
                  (case await_post ev (FALLBACK_OCR_API_ENDPOINT cfg) s2' of
                     (Inr ocrData, s3) \<Rightarrow> (Inr ocrData, s3)
                   | (Inl fallbackError, s3) \<Rightarrow>
                       (Inl (Some fallbackError),
                        sendFailureNotification fid filename (Some fallbackError)
                          (MAX_RETRIES + 2) s3)))
           else (Inl lastError, s2)))"

text \<open>What reading \<open>lastError.message\<close> throws when \<open>lastError\<close> is still \<open>null\<close>.\<close>

definition null_message_error :: js_error where
  "null_message_error =
     TypeError (''Cannot read properties of null (reading '' @ quote ''message'' @ '')'')"

definition error_result :: "js_error \<Rightarrow> jsval" where
  "error_result e = JObj [(''message'', JStr (message e))]"

subsection \<open>Mock data\<close>

definition mock_item ::
  "string \<Rightarrow> string \<Rightarrow> int \<Rightarrow> int \<Rightarrow> int \<Rightarrow> int \<Rightarrow> bool \<Rightarrow> int \<Rightarrow> bool \<Rightarrow> jsval" where
  "mock_item kode nama harga bruto diskon_rp netto c1 qty c2 = JObj
     [(''kode_barang_invoice'', field (JStr kode) True),
      (''nama_barang_invoice'', field (JStr nama) True),
      (''qty'', field (JNum qty) True),
      (''satuan'', field (JStr ''CTN'') True),
      (''harga_satuan'', field (JNum harga) True),
      (''harga_bruto'', field (JNum bruto) True),
      (''diskon_persen'', field (JNum 3) True),
      (''diskon_rp'', field (JNum diskon_rp) c1),
      (''jumlah_netto'', field (JNum netto) c2)]"

definition mock_ocrData :: jsval where
  "mock_ocrData = JObj
     [(''nomor_referensi'', field (JStr ''SSP318905'') True),
      (''nama_supplier'', field (JStr ''PT SUKSES SEJATI PERKASA'') True),
      (''tgl_jatuh_tempo'', JObj [(''value'', JStr ''05-03-2025''), (''epoch'', JNum 1741150800),
                                   (''is_confident'', JBool True)]),
      (''tanggal_faktur'', JObj [(''value'', JStr ''26-02-2025''), (''epoch'', JNum 1740546000),
                                  (''is_confident'', JBool True)]),
      (''tipe_dokumen'', field (JStr ''Faktur'') True),
      (''tipe_pembayaran'', field (JStr ''Tunai'') True),
      (''salesman'', field (JStr ''ZUN'') True),
      (''include_vat'', field (JBool True) True),
      (''output'', JObj
         [(''item_keys'', JArr (map JStr
             [''kode_barang_invoice'', ''nama_barang_invoice'', ''qty'', ''satuan'',
              ''harga_satuan'', ''harga_bruto'', ''diskon_persen'', ''diskon_rp'',
              ''jumlah_netto'']) []),
          (''items'', JArr
             [mock_item ''12540202'' ''MILO ACTIV - GO UHT Cabk 110ml / 36''
                95570 477850 14336 463515 True 5 True,
              mock_item ''12540203'' ''MILO ACTIV - GO UHT Cabk 180ml / 36''
                163490 817450 24524 792926 False 5 False] []),
          (''total_items'', field (JNum 0) False)]),
      (''debug'', JArr
         [JObj [(''item'', JNum 1),
                (''issue'', JStr (''Diskon Rp pada item 2 (24.524) tidak sesuai dengan '' @
                   ''perhitungan (3% dari 817.450 adalah 24.523,5).''))]] []),
      (''debug_summary'', field (JStr (''Ada beberapa ketidaksesuaian dalam perhitungan '' @
          ''diskon dan jumlah netto pada beberapa item.'')) False)]"

definition createMockResult :: "clock_reading \<Rightarrow> string \<Rightarrow> jsval \<Rightarrow> jsval" where
  "createMockResult clk fid filename = JObj
     [(''id'', JStr fid),
      (''filename'', filename),
      (''processedAt'', JStr (iso clk)),
      (''ocrData'', mock_ocrData)]"

subsection \<open>The worker of \<open>processingQueue\<close>\<close>

definition tick_clock :: "state \<Rightarrow> state" where
  "tick_clock s = s\<lparr>reads := Suc (reads s)\<rparr>"

definition file_info :: "task \<Rightarrow> jsval" where
  "file_info t = JObj [(''id'', JStr (fileId t)), (''name'', JStr (originalname t)),
                       (''path'', JStr (filePath t))]"

text \<open>Up to the first request: the status goes to \<open>processing\<close> and the interval is armed.\<close>

definition worker_begin :: "env \<Rightarrow> task \<Rightarrow> state \<Rightarrow> state" where
  "worker_begin ev t s =
     (setInterval (fileId t) (file_info t)
        (updateStatus ev (fileId t) ''processing'' JNull 0 (file_info t) s))
       \<lparr>posts := 0, streams := 0, form := []\<rparr>"

text \<open>The mock result put in place of a result, in both places where the worker does so.\<close>

definition worker_mock :: "env \<Rightarrow> task \<Rightarrow> state \<Rightarrow> state \<times> outcome" where
  "worker_mock ev t s =
     (let mockResult = createMockResult (now ev s) (fileId t) (JStr (originalname t)) in
      (updateStatus ev (fileId t) ''completed'' mockResult 100 (file_info t)
         (clearInterval (tick_clock s)),
       Resolved mockResult))"

text \<open>The \<open>catch\<close> around the processing: the status goes to \<open>error\<close>; the interval stays armed.\<close>

definition caught :: "env \<Rightarrow> string \<Rightarrow> js_error \<Rightarrow> state \<Rightarrow> state \<times> outcome" where
  "caught ev fid error s =
     (updateStatus ev fid ''error'' (error_result error) 0 JNull s, Rejected error)"

definition worker_result :: "clock_reading \<Rightarrow> task \<Rightarrow> jsval \<Rightarrow> jsval" where
  "worker_result clk t processedOcrData = JObj
     [(''id'', JStr (fileId t)),
      (''filename'', JStr (originalname t)),
      (''filePath'', JStr (filePath t)),
      (''processedAt'', JStr (iso clk)),
      (''ocrData'', processedOcrData)]"

text \<open>
  The logging after the normalization evaluates \<open>processedOcrData.output.items.length\<close>,
  which throws when \<open>items\<close> is \<open>undefined\<close>: that is so when \<open>output\<close> is a primitive,
  on which the assignments of the normalizer were dropped. This statement stands in the
  worker only, not in \<open>processQueuedFile\<close>.
\<close>

definition log_structure :: "jsval \<Rightarrow> js_error + unit" where
  "log_structure processedOcrData =
     bindE (get_prop processedOcrData ''output'')
       (\<lambda>out. bindE (get_prop out ''items'')
          (\<lambda>its. if nullish its
                 then Inl (TypeError (''Cannot read properties of '' @ show_nullish its @
                                      '' (reading '' @ quote ''length'' @ '')''))
                 else Inr ()))"

text \<open>From the end of the calls on: last resort, or normalization and the final status.\<close>

definition worker_finish ::
  "env \<Rightarrow> config \<Rightarrow> task \<Rightarrow> (js_error option + jsval) \<times> state \<Rightarrow> state \<times> outcome" where
  "worker_finish ev cfg t r =
     (case r of
        (Inl lastError, s) \<Rightarrow>
          (if IS_DEV_MODE cfg then worker_mock ev t s
           else
             (case lastError of
                None \<Rightarrow> caught ev (fileId t) null_message_error (clearInterval s)
              | Some e \<Rightarrow>
                  (updateStatus ev (fileId t) ''error'' (error_result e) 0 JNull
                     (clearInterval s),
                   Rejected e)))
      | (Inr ocrData, s) \<Rightarrow>
          (case normalizeOcr InWorker (now ev s) ocrData of
             Inl error \<Rightarrow> caught ev (fileId t) error s
           | Inr processedOcrData \<Rightarrow>
               (case log_structure processedOcrData of
                  Inl error \<Rightarrow> caught ev (fileId t) error (tick_clock s)
                | Inr _ \<Rightarrow>
                    (let s1 = clearInterval (tick_clock s);
                         result = worker_result (now ev s1) t processedOcrData
                     in (updateStatus ev (fileId t) ''completed'' result 100 (file_info t)
                           (tick_clock s1),
                         Resolved result)))))"

definition worker :: "env \<Rightarrow> config \<Rightarrow> task \<Rightarrow> state \<Rightarrow> state \<times> outcome" where
  "worker ev cfg t s =
     (if USE_MOCK_DATA cfg
      then (case worker_mock ev t (worker_begin ev t s) of
              (s1, r) \<Rightarrow> (emit (Unlink (filePath t)) s1, r))
      else worker_finish ev cfg t
             (call_ocr ev cfg (fileId t) (JStr (originalname t)) (filePath t)
                (attach_stream (filePath t) (worker_begin ev t s))))"

subsection \<open>\<open>processQueuedFile\<close>\<close>

text \<open>
  \<open>path.join(tempDir, queuedItem.originalFilename)\<close>, which throws unless the name is a
  string. Of the message only the fixed part is kept.
\<close>

definition temp_path :: "env \<Rightarrow> config \<Rightarrow> jsval \<Rightarrow> js_error + string" where
  "temp_path ev cfg name =
     (case name of
        JStr n \<Rightarrow> Inr (join_path ev (TEMP_DIR cfg) n)
      | _ \<Rightarrow> Inl (TypeError (''The '' @ [CHR 0x22] @ ''path'' @ [CHR 0x22] @
                            '' argument must be of type string'')))"

definition failing :: "js_error option \<Rightarrow> js_error + unit" where
  "failing e = (case e of None \<Rightarrow> Inr () | Some x \<Rightarrow> Inl x)"

text \<open>
  The two guards: the job must be in the map, and its record must hold a buffer.
\<close>

definition queued_item :: "state \<Rightarrow> string \<Rightarrow> js_error + jsval" where
  "queued_item s fid =
     (let queuedItem = lookup s fid in
      if \<not> truthy queuedItem
      then Inl (Error (''No queued file found with ID: '' @ fid))
      else bindE (get_prop queuedItem ''buffer'')
             (\<lambda>buffer. if \<not> truthy buffer
                       then Inl (Error (''File buffer not found for ID: '' @ fid))
                       else Inr queuedItem))"

text \<open>The temporary file is written; \<open>Inl\<close> is what the file system calls throw.\<close>

definition materialize :: "env \<Rightarrow> config \<Rightarrow> jsval \<Rightarrow> state \<Rightarrow> js_error + (string \<times> state)" where
  "materialize ev cfg queuedItem s =
     bindE (failing (mkdir_error ev)) (\<lambda>_.
     bindE (temp_path ev cfg (fld queuedItem ''originalFilename'')) (\<lambda>tempFilePath.
     bindE (failing (write_error ev)) (\<lambda>_.
       Inr (tempFilePath,
            attach_stream tempFilePath
              (emit (WriteFile tempFilePath (fld queuedItem ''buffer'')) s)))))"

definition trigger_begin :: "env \<Rightarrow> string \<Rightarrow> jsval \<Rightarrow> state \<Rightarrow> state" where
  "trigger_begin ev fid queuedItem s =
     (setInterval fid JNull
        (updateStatus ev fid ''processing'' JNull 0
           (JObj [(''id'', JStr fid),
                  (''name'', fld queuedItem ''originalFilename''),
                  (''mimetype'', fld queuedItem ''mimetype'')]) s))
       \<lparr>posts := 0, streams := 0, form := []\<rparr>"

definition trigger_result :: "clock_reading \<Rightarrow> string \<Rightarrow> jsval \<Rightarrow> jsval \<Rightarrow> jsval" where
  "trigger_result clk fid filename processedOcrData = JObj
     [(''id'', JStr fid),
      (''filename'', filename),
      (''processedAt'', JStr (iso clk)),
      (''ocrData'', processedOcrData)]"

definition trigger_finish ::
  "env \<Rightarrow> config \<Rightarrow> string \<Rightarrow> jsval \<Rightarrow> string \<Rightarrow> (js_error option + jsval) \<times> state \<Rightarrow>
     state \<times> outcome" where
  "trigger_finish ev cfg fid filename tempFilePath r =
     (case r of
        (Inl lastError, s) \<Rightarrow>
          (if IS_DEV_MODE cfg
           then
             (let mockResult = createMockResult (now ev s) fid filename in
              (updateStatus ev fid ''completed'' mockResult 100 JNull
                 (emit (Unlink tempFilePath) (clearInterval (tick_clock s))),
               Resolved mockResult))
           else
             (case lastError of
                None \<Rightarrow>
                  caught ev fid null_message_error
                    (emit (Unlink tempFilePath) (clearInterval s))
              | Some e \<Rightarrow>
                  (updateStatus ev fid ''error'' (error_result e) 0 JNull
                     (emit (Unlink tempFilePath) (clearInterval s)),
                   Rejected e)))
      | (Inr ocrData, s) \<Rightarrow>
          (case normalizeOcr InTrigger (now ev s) ocrData of
             Inl error \<Rightarrow> caught ev fid error s
           | Inr processedOcrData \<Rightarrow>
               (let s1 = emit (Unlink tempFilePath) (clearInterval (tick_clock s));
                    result = trigger_result (now ev s1) fid filename processedOcrData
                in (updateStatus ev fid ''completed'' result 100 JNull (tick_clock s1),
                    Resolved result))))"

definition processQueuedFile :: "env \<Rightarrow> config \<Rightarrow> string \<Rightarrow> state \<Rightarrow> state \<times> outcome" where
  "processQueuedFile ev cfg fid s =
     (case queued_item s fid of
        Inl error \<Rightarrow> caught ev fid error s
      | Inr queuedItem \<Rightarrow>
          (let s1 = trigger_begin ev fid queuedItem s in
           case materialize ev cfg queuedItem s1 of
             Inl error \<Rightarrow> caught ev fid error s1
           | Inr (tempFilePath, s2) \<Rightarrow>
               trigger_finish ev cfg fid (fld queuedItem ''originalFilename'') tempFilePath
                 (call_ocr ev cfg fid (fld queuedItem ''originalFilename'') tempFilePath s2)))"

text \<open>
  After a run has returned, an interval that was not cleared goes on firing.
\<close>

definition settle :: "env \<Rightarrow> nat \<Rightarrow> state \<times> outcome \<Rightarrow> state \<times> outcome" where
  "settle ev n r = (fire_n ev n (fst r), snd r)"

section \<open>Notions used in the proofs\<close>

text \<open>
  A property of the status map that every write of a job's run keeps: the runs write
  through \<open>updateStatus\<close> only, with one of three statuses and a progress of at most 100.
\<close>

definition kept_by_updates :: "((string \<Rightarrow> jsval option) \<Rightarrow> bool) \<Rightarrow> bool" where
  "kept_by_updates Q =
     (\<forall>st fid status result progress fileInfo updatedAt.
        Q st \<and> status \<in> {''processing'', ''completed'', ''error''} \<and> progress \<le> 100 \<longrightarrow>
        Q (st(fid \<mapsto> status_record fid status result progress fileInfo updatedAt)))"

text \<open>The shapes a status lookup can have.\<close>

definition keys :: "jsval \<Rightarrow> string list" where
  "keys v = map fst (props v)"

definition progress_in_range :: "jsval \<Rightarrow> bool" where
  "progress_in_range v = (case v of JNum n \<Rightarrow> 0 \<le> n \<and> n \<le> 100 | _ \<Rightarrow> False)"

text \<open>
  The shape the interface description gives: the six fields, a status out of the five, a
  progress between 0 and 100.
\<close>

definition described_shape :: "string \<Rightarrow> jsval \<Rightarrow> bool" where
  "described_shape fid r =
     (keys r = [''id'', ''status'', ''result'', ''progress'', ''fileInfo'', ''updatedAt''] \<and>
      fld r ''id'' = JStr fid \<and>
      fld r ''status'' \<in> JStr ` {''queued'', ''processing'', ''completed'', ''error'', ''not_found''} \<and>
      progress_in_range (fld r ''progress''))"

text \<open>A record written by \<open>updateStatus\<close>.\<close>

definition status_shape :: "string \<Rightarrow> jsval \<Rightarrow> bool" where
  "status_shape fid r =
     (keys r = [''id'', ''status'', ''result'', ''progress'', ''fileInfo'', ''updatedAt''] \<and>
      fld r ''id'' = JStr fid \<and>
      fld r ''status'' \<in> JStr ` {''queued'', ''processing'', ''completed'', ''error''} \<and>
      progress_in_range (fld r ''progress''))"

text \<open>The record \<open>queueBuffer\<close> stores for a job that waits to be triggered.\<close>

definition buffer_shape :: "string \<Rightarrow> jsval \<Rightarrow> bool" where
  "buffer_shape fid r =
     (keys r = [''id'', ''originalFilename'', ''status'', ''mimetype'', ''queuedAt'', ''buffer'',
                ''dataSize'', ''results'', ''error''] \<and>
      fld r ''id'' = JStr fid \<and>
      fld r ''status'' = JStr ''queued'')"

text \<open>The record made up for a job that is not in the map.\<close>

definition not_found_stub :: "string \<Rightarrow> jsval" where
  "not_found_stub fid =
     JObj [(''id'', JStr fid), (''status'', JStr ''not_found''), (''progress'', JNum 0)]"

definition all_records_shaped :: "(string \<Rightarrow> jsval option) \<Rightarrow> bool" where
  "all_records_shaped st =
     (\<forall>fid r. st fid = Some r \<longrightarrow> status_shape fid r \<or> buffer_shape fid r)"

definition initial_state :: state where
  "initial_state =
     \<lparr>store = Map.empty, history = [], trace = [], reads = 0, interval = None,
      posts = 0, streams = 0, form = []\<rparr>"

text \<open>
  The states the service passes through, inside a run as well as between runs. The status
  map starts empty and is written in two places only: by \<open>queueBuffer\<close>, and by
  \<open>updateStatus\<close>, which the module calls with one of four statuses and a progress of at
  most 100. Every other step (a request sent or answered, a stream opened, a file written,
  the interval armed or cleared) leaves the map as it is.
\<close>

inductive reachable :: "state \<Rightarrow> bool" where
  start: "reachable initial_state"
| queued_buffer: "reachable s \<Longrightarrow> reachable (queueBuffer ev uuid buffer name mimetype s)"
| updated: "reachable s \<Longrightarrow> status \<in> {''queued'', ''processing'', ''completed'', ''error''} \<Longrightarrow>
            progress \<le> 100 \<Longrightarrow>
            reachable (updateStatus ev fid status result progress fileInfo s)"
| map_untouched: "reachable s \<Longrightarrow> store s' = store s \<Longrightarrow> reachable s'"

text \<open>The status maps of the reachable states.\<close>

definition reachable_map :: "(string \<Rightarrow> jsval option) \<Rightarrow> bool" where
  "reachable_map st = (\<exists>s. reachable s \<and> store s = st)"

text \<open>A record of the job that holds no buffer (any more).\<close>

definition spent :: "string \<Rightarrow> (string \<Rightarrow> jsval option) \<Rightarrow> bool" where
  "spent fid st = (case st fid of None \<Rightarrow> False
                   | Some r \<Rightarrow> truthy r \<and> \<not> truthy (fld r ''buffer''))"

subsection \<open>Sample surroundings for the worked examples\<close>

definition sample_clock :: "nat \<Rightarrow> clock_reading" where
  "sample_clock n = \<lparr>epoch_ms = 1000 + n, iso = ''2025-03-05T10:00:00.000Z''\<rparr>"

definition sample_config :: config where
  "sample_config =
     \<lparr>OCR_API_ENDPOINT = ''http://primary/ocr'',
      FALLBACK_OCR_API_ENDPOINT = ''http://fallback/ocr'',
      NODE_ENV_is_development = False, USE_MOCK_DATA_is_true = False,
      TEMP_DIR = ''/uploads/temp''\<rparr>"

text \<open>
  \<open>path.join\<close> on a normalized directory and a plain file name.
\<close>

definition plain_join :: "string \<Rightarrow> string \<Rightarrow> string" where
  "plain_join dir name = dir @ ''/'' @ name"

text \<open>What \<open>formData.delete\<close> throws on a form of the package \<open>form-data\<close>.\<close>

definition no_delete :: js_error where
  "no_delete = TypeError ''formData.delete is not a function''"

text \<open>Every request fails; the interval fires twice while each is pending.\<close>

definition failing_env :: env where
  "failing_env =
     \<lparr>post = (\<lambda>ep k. Inl (Error ''timeout of 600000ms exceeded'')),
      ticks = (\<lambda>k. 2), clock = sample_clock, form_delete_error = Some no_delete,
      mkdir_error = None, write_error = None, join_path = plain_join\<rparr>"

text \<open>Every request is answered with the given data.\<close>

definition answering_env :: "jsval \<Rightarrow> env" where
  "answering_env data =
     \<lparr>post = (\<lambda>ep k. Inr data),
      ticks = (\<lambda>k. 2), clock = sample_clock, form_delete_error = Some no_delete,
      mkdir_error = None, write_error = None, join_path = plain_join\<rparr>"

definition sample_task :: task where
  "sample_task = \<lparr>fileId = ''job-1'', filePath = ''/uploads/a.pdf'', originalname = ''a.pdf''\<rparr>"

text \<open>
  A buffered job triggered again and again: each call runs to its end, and an interval
  left armed fires \<open>n\<close> times before the next call.
\<close>

fun retrigger :: "(env \<times> nat) list \<Rightarrow> config \<Rightarrow> string \<Rightarrow> state \<Rightarrow> outcome list" where
  "retrigger [] cfg fid s = []"
| "retrigger ((ev, n) # calls) cfg fid s =
     (case settle ev n (processQueuedFile ev cfg fid s) of
        (s1, r) \<Rightarrow> r # retrigger calls cfg fid s1)"

text \<open>An endpoint that rejects every request sent to it.\<close>

definition always_fails :: "env \<Rightarrow> string \<Rightarrow> bool" where
  "always_fails ev ep = (\<forall>k. isl (post ev ep k))"

text \<open>What a run adds to the trace.\<close>

definition run_events :: "state \<Rightarrow> state \<Rightarrow> event list" where
  "run_events s s' = drop (length (trace s)) (trace s')"

text \<open>The reads of the file and the requests among the events.\<close>

fun io_events :: "event list \<Rightarrow> event list" where
  "io_events [] = []"
| "io_events (CreateReadStream fp n # es) = CreateReadStream fp n # io_events es"
| "io_events (Post ep fm # es) = Post ep fm # io_events es"
| "io_events (e # es) = io_events es"

text \<open>The endpoints the requests went to, in order.\<close>

fun endpoints_called :: "event list \<Rightarrow> string list" where
  "endpoints_called [] = []"
| "endpoints_called (Post ep fm # es) = ep # endpoints_called es"
| "endpoints_called (e # es) = endpoints_called es"

text \<open>The trace has grown from that of \<open>s0\<close> by events whose requests all went to \<open>A\<close>.\<close>

definition grown :: "state \<Rightarrow> string set \<Rightarrow> state \<Rightarrow> bool" where
  "grown s0 A s = (\<exists>es. trace s = trace s0 @ es \<and> set (endpoints_called es) \<subseteq> A)"

text \<open>A configuration whose fallback endpoint is the primary one.\<close>

definition single_endpoint_config :: config where
  "single_endpoint_config =
     \<lparr>OCR_API_ENDPOINT = ''http://primary/ocr'',
      FALLBACK_OCR_API_ENDPOINT = ''http://primary/ocr'',
      NODE_ENV_is_development = False, USE_MOCK_DATA_is_true = False,
      TEMP_DIR = ''/uploads/temp''\<rparr>"

definition sample_queued :: state where
  "sample_queued =
     queueBuffer failing_env ''job-2'' [37, 80, 68, 70] ''scan.pdf'' ''application/pdf''
       initial_state"

text \<open>
  What is asked of the progress reports of a job, read newest first: a \<open>processing\<close>
  report stays below 100, an \<open>error\<close> report carries 0, only a \<open>completed\<close> report carries
  100, and a \<open>processing\<close> report is never below an earlier \<open>processing\<close> report (so
  from one update to the next the progress does not go down while the job is processing).
\<close>

definition entry_ok :: "string \<times> nat \<Rightarrow> bool" where
  "entry_ok e =
     ((fst e = ''processing'' \<longrightarrow> snd e < 100) \<and>
      (fst e = ''error'' \<longrightarrow> snd e = 0) \<and>
      (snd e = 100 \<longrightarrow> fst e = ''completed''))"

fun progress_ok :: "(string \<times> nat) list \<Rightarrow> bool" where
  "progress_ok [] = True"
| "progress_ok (later # earlier) =
     (entry_ok later \<and>
      (fst later = ''processing'' \<longrightarrow>
         (\<forall>e \<in> set earlier. fst e = ''processing'' \<longrightarrow> snd e \<le> snd later)) \<and>
      progress_ok earlier)"

text \<open>The reports about one job among the status updates.\<close>

definition job_reports :: "string \<Rightarrow> (string \<times> string \<times> nat) list \<Rightarrow> (string \<times> nat) list" where
  "job_reports fid hs = map snd (filter (\<lambda>e. fst e = fid) hs)"

text \<open>The status updates a run adds to the history, newest first.\<close>

definition run_history :: "state \<Rightarrow> state \<Rightarrow> (string \<times> string \<times> nat) list" where
  "run_history s s' = take (length (history s') - length (history s)) (history s')"

text \<open>
  The reports added since \<open>s0\<close> are in order, and no \<open>processing\<close> report among them is
  ahead of the counter of the armed interval.
\<close>

definition tracked :: "state \<Rightarrow> state \<Rightarrow> bool" where
  "tracked s0 s =
     (\<exists>hs. history s = hs @ history s0 \<and> progress_ok (map snd hs) \<and>
           (\<forall>t. interval s = Some t \<longrightarrow>
              (\<forall>e \<in> set hs. fst (snd e) = ''processing'' \<longrightarrow> snd (snd e) \<le> t_progress t)))"

text \<open>The temporary file cannot be written.\<close>

definition disk_full_env :: env where
  "disk_full_env =
     failing_env\<lparr>write_error := Some (Error ''ENOSPC: no space left on device, write'')\<rparr>"

text \<open>
  The elements of an array can be inspected by \<open>find\<close> up to the first one with an
  \<open>output\<close>: none of them is \<open>null\<close> or \<open>undefined\<close>.
\<close>

fun scannable :: "jsval list \<Rightarrow> bool" where
  "scannable [] = True"
| "scannable (x # xs) = (\<not> nullish x \<and> (truthy (fld x ''output'') \<or> scannable xs))"

text \<open>The payloads the normalizer of the worker takes without throwing.\<close>

definition absorbable :: "jsval \<Rightarrow> bool" where
  "absorbable d = (case d of JArr xs ps \<Rightarrow> scannable xs | _ \<Rightarrow> \<not> nullish d)"

text \<open>The calls of the OCR endpoints as the worker makes them.\<close>

definition worker_calls :: "env \<Rightarrow> config \<Rightarrow> task \<Rightarrow> state \<Rightarrow> (js_error option + jsval) \<times> state" where
  "worker_calls ev cfg t s =
     call_ocr ev cfg (fileId t) (JStr (originalname t)) (filePath t)
       (attach_stream (filePath t) (worker_begin ev t s))"

section \<open>Facts about values and the normalizer\<close>

lemma bindE_Inr_iff: "bindE m f = Inr r \<longleftrightarrow> (\<exists>v. m = Inr v \<and> f v = Inr r)"
  by (cases m) (simp_all add: bindE_def)

lemma bindE_Inr [simp]: "bindE (Inr v) f = f v"
  by (simp add: bindE_def)

lemma bindE_Inl [simp]: "bindE (Inl e) f = Inl e"
  by (simp add: bindE_def)

lemma own_update: "own (AList.update k x ps) k' = (if k' = k then x else own ps k')"
  by (simp add: own_def update_conv')

lemma own_truthy_Some: "truthy (own ps k) \<Longrightarrow> map_of ps k = Some (own ps k)"
  by (cases "map_of ps k") (simp_all add: own_def)

lemma update_own_same: "truthy (own ps k) \<Longrightarrow> AList.update k (own ps k) ps = ps"
  by (rule update_triv) (rule own_truthy_Some)

lemma props_with_props: "props (with_props v ps) = (if is_object v then ps else [])"
  by (cases v) simp_all

lemma with_props_prim: "\<not> is_object v \<Longrightarrow> with_props v ps = v"
  by (cases v) simp_all

lemma with_props_same: "with_props v (props v) = v"
  by (cases v) simp_all

lemma is_object_with_props [simp]: "is_object (with_props v ps) = is_object v"
  by (cases v) simp_all

lemma isArray_with_props [simp]: "isArray (with_props v ps) = isArray v"
  by (cases v) simp_all

lemma truthy_with_props [simp]: "truthy (with_props v ps) = truthy v"
  by (cases v) simp_all

lemma nullish_not_truthy: "truthy v \<Longrightarrow> \<not> nullish v"
  by (cases v) simp_all

lemma truthy_fld_object: "truthy (fld v k) \<Longrightarrow> is_object v"
  by (cases v) (simp_all add: fld_def own_def)

lemma get_prop_fld: "\<not> nullish v \<Longrightarrow> get_prop v k = Inr (fld v k)"
  by (simp add: get_prop_def fld_def)

lemma assign_ok: "\<not> nullish v \<Longrightarrow> assign v k x = Inr (with_props v (AList.update k x (props v)))"
  by (simp add: assign_def)

lemma fld_with_props_update:
  "is_object v \<Longrightarrow> fld (with_props v (AList.update k x (props v))) k' = (if k' = k then x else fld v k')"
  by (simp add: fld_def props_with_props own_update)

lemma set_output_field_eq:
  assumes "truthy (out_of pd)"
  shows "set_output_field pd k x =
     Inr (with_props pd (AList.update ''output''
            (with_props (out_of pd) (AList.update k x (props (out_of pd)))) (props pd)))"
proof -
  have obj: "is_object pd" using assms unfolding out_of_def by (rule truthy_fld_object)
  then have nn: "\<not> nullish pd" by (cases pd) simp_all
  have nn2: "\<not> nullish (out_of pd)" using assms by (rule nullish_not_truthy)
  show ?thesis
    unfolding set_output_field_def
    by (simp add: get_prop_fld [OF nn] assign_ok [OF nn2] out_of_def [symmetric])
qed

lemma out_of_set_output_field:
  assumes "truthy (out_of pd)" and "set_output_field pd k x = Inr r"
  shows "out_of r = with_props (out_of pd) (AList.update k x (props (out_of pd)))"
proof -
  have obj: "is_object pd" using assms(1) unfolding out_of_def by (rule truthy_fld_object)
  from assms show ?thesis
    unfolding set_output_field_eq [OF assms(1)]
    by (auto simp: out_of_def fld_with_props_update [OF obj])
qed

lemma set_output_field_prim:
  assumes "truthy (out_of pd)" and "\<not> is_object (out_of pd)"
  shows "set_output_field pd k x = Inr pd"
proof -
  have "AList.update ''output'' (out_of pd) (props pd) = props pd"
    using assms(1) unfolding out_of_def fld_def by (rule update_own_same)
  then show ?thesis
    unfolding set_output_field_eq [OF assms(1)]
    by (simp add: with_props_prim [OF assms(2)] with_props_same)
qed

lemma ensure_field_eq:
  assumes "truthy (out_of pd)"
  shows "ensure_field pd k ph =
     (if truthy (fld (out_of pd) k) then Inr pd else set_output_field pd k ph)"
proof -
  have obj: "is_object pd" using assms unfolding out_of_def by (rule truthy_fld_object)
  then have nn: "\<not> nullish pd" by (cases pd) simp_all
  have nn2: "\<not> nullish (out_of pd)" using assms by (rule nullish_not_truthy)
  show ?thesis
    unfolding ensure_field_def
    by (simp add: get_prop_fld [OF nn] get_prop_fld [OF nn2] out_of_def [symmetric])
qed

lemma ensure_items_eq:
  assumes "truthy (out_of pd)"
  shows "ensure_items pd =
     (if isArray (fld (out_of pd) ''items'') then Inr pd
      else set_output_field pd ''items'' (JArr [] []))"
proof -
  have obj: "is_object pd" using assms unfolding out_of_def by (rule truthy_fld_object)
  then have nn: "\<not> nullish pd" by (cases pd) simp_all
  have nn2: "\<not> nullish (out_of pd)" using assms by (rule nullish_not_truthy)
  show ?thesis
    unfolding ensure_items_def
    by (simp add: get_prop_fld [OF nn] get_prop_fld [OF nn2] out_of_def [symmetric])
qed

lemma out_of_ensure_field:
  assumes "truthy (out_of pd)" and "ensure_field pd k ph = Inr r"
  shows "out_of r =
     (if truthy (fld (out_of pd) k) then out_of pd
      else with_props (out_of pd) (AList.update k ph (props (out_of pd))))"
  using assms(2) out_of_set_output_field [OF assms(1), of k ph r]
  unfolding ensure_field_eq [OF assms(1)]
  by (auto split: if_splits)

lemma isArray_set_output_field:
  assumes "truthy (out_of pd)" and "set_output_field pd k x = Inr r"
  shows "isArray r = isArray pd"
  using assms(2) unfolding set_output_field_eq [OF assms(1)] by auto

lemma isArray_ensure_field:
  assumes "truthy (out_of pd)" and "ensure_field pd k ph = Inr r"
  shows "isArray r = isArray pd"
  using assms(2) isArray_set_output_field [OF assms(1), of k ph r]
  unfolding ensure_field_eq [OF assms(1)]
  by (auto split: if_splits)

lemma fld_ensure_field:
  assumes "truthy (out_of pd)" and "ensure_field pd k ph = Inr r"
  shows "fld (out_of r) k' =
     (if k' = k \<and> is_object (out_of pd) \<and> \<not> truthy (fld (out_of pd) k) then ph
      else fld (out_of pd) k')"
proof (cases "is_object (out_of pd)")
  case True
  then show ?thesis
    unfolding out_of_ensure_field [OF assms]
    by (simp add: fld_with_props_update)
next
  case False
  then show ?thesis
    unfolding out_of_ensure_field [OF assms]
    by (simp add: with_props_prim)
qed

lemma truthy_out_ensure_field:
  assumes "truthy (out_of pd)" and "ensure_field pd k ph = Inr r"
  shows "truthy (out_of r)"
  unfolding out_of_ensure_field [OF assms] using assms(1) by simp

lemma is_object_out_ensure_field:
  assumes "truthy (out_of pd)" and "ensure_field pd k ph = Inr r"
  shows "is_object (out_of r) = is_object (out_of pd)"
  unfolding out_of_ensure_field [OF assms] by simp

lemma out_of_ensure_items:
  assumes "truthy (out_of pd)" and "ensure_items pd = Inr r"
  shows "out_of r =
     (if isArray (fld (out_of pd) ''items'') then out_of pd
      else with_props (out_of pd) (AList.update ''items'' (JArr [] []) (props (out_of pd))))"
  using assms(2) out_of_set_output_field [OF assms(1), of "''items''" "JArr [] []" r]
  unfolding ensure_items_eq [OF assms(1)]
  by (auto split: if_splits)

lemma fld_ensure_items:
  assumes "truthy (out_of pd)" and "ensure_items pd = Inr r"
  shows "fld (out_of r) k' =
     (if k' = ''items'' \<and> is_object (out_of pd) \<and> \<not> isArray (fld (out_of pd) ''items'')
      then JArr [] [] else fld (out_of pd) k')"
proof (cases "is_object (out_of pd)")
  case True
  then show ?thesis
    unfolding out_of_ensure_items [OF assms]
    by (simp add: fld_with_props_update)
next
  case False
  then show ?thesis
    unfolding out_of_ensure_items [OF assms]
    by (simp add: with_props_prim)
qed

lemma isArray_ensure_items:
  assumes "truthy (out_of pd)" and "ensure_items pd = Inr r"
  shows "isArray r = isArray pd"
  using assms(2) isArray_set_output_field [OF assms(1), of "''items''" "JArr [] []" r]
  unfolding ensure_items_eq [OF assms(1)]
  by (auto split: if_splits)

lemma truthy_out_ensure_output:
  assumes "ensure_output pd = Inr r"
  shows "truthy (out_of r)"
  using assms unfolding ensure_output_def
  by (cases "nullish pd")
     (auto simp: get_prop_def out_of_def fld_def own_def split: if_splits)

lemma isArray_ensure_output:
  assumes "ensure_output pd = Inr r" and "\<not> isArray pd"
  shows "\<not> isArray r"
  using assms unfolding ensure_output_def
  by (cases "nullish pd") (auto simp: get_prop_def split: if_splits)

lemma find_output_found:
  "find_output xs = Inr it \<Longrightarrow> truthy it \<Longrightarrow> it \<in> set xs \<and> truthy (out_of it)"
proof (induction xs)
  case Nil
  then show ?case by simp
next
  case (Cons a xs)
  show ?case
  proof (cases "nullish a")
    case True
    with Cons.prems show ?thesis by (simp add: get_prop_def)
  next
    case False
    show ?thesis
    proof (cases "truthy (fld a ''output'')")
      case True
      with False Cons.prems show ?thesis by (simp add: get_prop_fld out_of_def)
    next
      case no: False
      with False Cons.prems have "find_output xs = Inr it" by (simp add: get_prop_fld)
      with Cons.IH Cons.prems(2) show ?thesis by simp
    qed
  qed
qed

lemma merge_array_JObj:
  assumes "merge_array st clk xs = Inr pd"
  shows "out_of pd = JObj (props (out_of pd)) \<and> \<not> isArray pd"
  using assms unfolding merge_array_def
  by (auto simp: bindE_Inr_iff out_of_def fld_def own_def)

lemma truthy_out_adopt_array:
  assumes "adopt st clk (JArr xs ps) = Inr pd"
  shows "truthy (out_of pd)"
proof -
  from assms obtain it where f: "find_output xs = Inr it"
    and r: "(if truthy it then Inr it else merge_array st clk xs) = Inr pd"
    unfolding adopt_def by (auto simp: bindE_Inr_iff)
  show ?thesis
  proof (cases "truthy it")
    case True
    with r have "pd = it" by simp
    with find_output_found [OF f True] show ?thesis by simp
  next
    case False
    with r have "merge_array st clk xs = Inr pd" by simp
    from merge_array_JObj [OF this] have "out_of pd = JObj (props (out_of pd))" by simp
    then have "is_object (out_of pd)" by (metis is_object.simps(1))
    then show ?thesis by (cases "out_of pd") simp_all
  qed
qed

lemma json_truthy_out_not_array:
  assumes "json v" and "truthy (out_of v)"
  shows "\<not> isArray v"
  using assms by (cases v) (simp_all add: out_of_def fld_def own_def)

lemma adopt_json_not_array:
  assumes "json x" and "adopt st clk x = Inr pd"
  shows "\<not> isArray pd"
proof (cases x)
  case (JArr xs ps)
  from assms(2) obtain it where f: "find_output xs = Inr it"
    and r: "(if truthy it then Inr it else merge_array st clk xs) = Inr pd"
    unfolding adopt_def JArr by (auto simp: bindE_Inr_iff)
  show ?thesis
  proof (cases "truthy it")
    case True
    with r have eq: "pd = it" by simp
    from find_output_found [OF f True] have "it \<in> set xs" and t: "truthy (out_of it)"
      by simp_all
    with assms(1) JArr have "json it" by simp
    from json_truthy_out_not_array [OF this t] eq show ?thesis by simp
  next
    case False
    with r have "merge_array st clk xs = Inr pd" by simp
    from merge_array_JObj [OF this] show ?thesis by simp
  qed
next
  case JUndefined with assms(2) show ?thesis by (simp add: adopt_def)
next
  case JNull with assms(2) show ?thesis by (auto simp: adopt_def)
next
  case (JBool b) with assms(2) show ?thesis by (auto simp: adopt_def)
next
  case (JNum n) with assms(2) show ?thesis by (auto simp: adopt_def)
next
  case (JStr s) with assms(2) show ?thesis by (auto simp: adopt_def)
next
  case (JObj ps) with assms(2) show ?thesis by (auto simp: adopt_def)
next
  case (JBuf bs ps) with assms(2) show ?thesis by (auto simp: adopt_def)
qed

lemma adopt_not_array: "\<not> isArray r \<Longrightarrow> adopt st clk r = Inr r"
  by (cases r) (simp_all add: adopt_def)

lemma ensure_output_truthy:
  assumes "truthy (out_of r)"
  shows "ensure_output r = Inr r"
proof -
  have "is_object r" using assms unfolding out_of_def by (rule truthy_fld_object)
  then have "\<not> nullish r" by (cases r) simp_all
  then show ?thesis
    using assms unfolding ensure_output_def
    by (simp add: get_prop_fld out_of_def)
qed

lemma ensure_field_stable:
  assumes "truthy (out_of r)" and "is_object (out_of r) \<longrightarrow> truthy (fld (out_of r) k)"
  shows "ensure_field r k ph = Inr r"
  using assms set_output_field_prim [OF assms(1), of k ph]
  unfolding ensure_field_eq [OF assms(1)] by auto

lemma ensure_items_stable:
  assumes "truthy (out_of r)" and "is_object (out_of r) \<longrightarrow> isArray (fld (out_of r) ''items'')"
  shows "ensure_items r = Inr r"
  using assms set_output_field_prim [OF assms(1), of "''items''" "JArr [] []"]
  unfolding ensure_items_eq [OF assms(1)] by auto

text \<open>What the three backfilling steps and the items step leave behind.\<close>

lemma ensure_essentials_stages:
  assumes "truthy (out_of pd)" and "ensure_essentials clk pd = Inr r"
  obtains p1 p2 where
    "ensure_field pd ''nomor_referensi'' (field (JStr (inv_placeholder clk)) True) = Inr p1"
    "ensure_field p1 ''nama_supplier'' (field (JStr ''Unknown Supplier'') False) = Inr p2"
    "ensure_field p2 ''tanggal_faktur'' (field (JStr (today clk)) False) = Inr r"
    "truthy (out_of p1)" "truthy (out_of p2)" "truthy (out_of r)"
proof -
  from assms(2) obtain p1 p2 where
    s1: "ensure_field pd ''nomor_referensi'' (field (JStr (inv_placeholder clk)) True) = Inr p1"
    and s2: "ensure_field p1 ''nama_supplier'' (field (JStr ''Unknown Supplier'') False) = Inr p2"
    and s3: "ensure_field p2 ''tanggal_faktur'' (field (JStr (today clk)) False) = Inr r"
    unfolding ensure_essentials_def by (auto simp: bindE_Inr_iff)
  have t1: "truthy (out_of p1)" by (rule truthy_out_ensure_field [OF assms(1) s1])
  have t2: "truthy (out_of p2)" by (rule truthy_out_ensure_field [OF t1 s2])
  have t3: "truthy (out_of r)" by (rule truthy_out_ensure_field [OF t2 s3])
  from s1 s2 s3 t1 t2 t3 that show thesis by blast
qed

lemma truthy_field [simp]: "truthy (field v c)"
  by (simp add: field_def)

lemma ensure_essentials_fld:
  assumes "truthy (out_of pd)" and "ensure_essentials clk pd = Inr r"
  shows "fld (out_of r) k =
    (if is_object (out_of pd) \<and> \<not> truthy (fld (out_of pd) k) then
       (if k = ''nomor_referensi'' then field (JStr (inv_placeholder clk)) True
        else if k = ''nama_supplier'' then field (JStr ''Unknown Supplier'') False
        else if k = ''tanggal_faktur'' then field (JStr (today clk)) False
        else fld (out_of pd) k)
     else fld (out_of pd) k)"
proof -
  from ensure_essentials_stages [OF assms] obtain p1 p2 where
    s1: "ensure_field pd ''nomor_referensi'' (field (JStr (inv_placeholder clk)) True) = Inr p1"
    and s2: "ensure_field p1 ''nama_supplier'' (field (JStr ''Unknown Supplier'') False) = Inr p2"
    and s3: "ensure_field p2 ''tanggal_faktur'' (field (JStr (today clk)) False) = Inr r"
    and t1: "truthy (out_of p1)" and t2: "truthy (out_of p2)"
    by blast
  have o1: "is_object (out_of p1) = is_object (out_of pd)"
    by (rule is_object_out_ensure_field [OF assms(1) s1])
  have o2: "is_object (out_of p2) = is_object (out_of pd)"
    using is_object_out_ensure_field [OF t1 s2] o1 by simp
  show ?thesis
    unfolding fld_ensure_field [OF t2 s3] fld_ensure_field [OF t1 s2]
      fld_ensure_field [OF assms(1) s1] o1 o2
    by auto
qed

lemma ensure_essentials_misc:
  assumes "truthy (out_of pd)" and "ensure_essentials clk pd = Inr r"
  shows "truthy (out_of r)" and "is_object (out_of r) = is_object (out_of pd)"
    and "isArray r = isArray pd"
proof -
  from ensure_essentials_stages [OF assms] obtain p1 p2 where
    s1: "ensure_field pd ''nomor_referensi'' (field (JStr (inv_placeholder clk)) True) = Inr p1"
    and s2: "ensure_field p1 ''nama_supplier'' (field (JStr ''Unknown Supplier'') False) = Inr p2"
    and s3: "ensure_field p2 ''tanggal_faktur'' (field (JStr (today clk)) False) = Inr r"
    and t1: "truthy (out_of p1)" and t2: "truthy (out_of p2)" and t3: "truthy (out_of r)"
    by blast
  show "truthy (out_of r)" by (rule t3)
  show "is_object (out_of r) = is_object (out_of pd)"
    using is_object_out_ensure_field [OF assms(1) s1] is_object_out_ensure_field [OF t1 s2]
      is_object_out_ensure_field [OF t2 s3] by simp
  show "isArray r = isArray pd"
    using isArray_ensure_field [OF assms(1) s1] isArray_ensure_field [OF t1 s2]
      isArray_ensure_field [OF t2 s3] by simp
qed

lemma normalizeOcr_stages:
  assumes "normalizeOcr st clk x = Inr r"
  obtains pd p1 p2 where "adopt st clk x = Inr pd" "ensure_output pd = Inr p1"
    "ensure_essentials clk p1 = Inr p2" "ensure_items p2 = Inr r"
    "truthy (out_of p1)" "truthy (out_of p2)"
proof -
  from assms obtain pd p1 p2 where a: "adopt st clk x = Inr pd"
    and b: "ensure_output pd = Inr p1" and c: "ensure_essentials clk p1 = Inr p2"
    and d: "ensure_items p2 = Inr r"
    unfolding normalizeOcr_def by (auto simp: bindE_Inr_iff)
  have t1: "truthy (out_of p1)" by (rule truthy_out_ensure_output [OF b])
  have t2: "truthy (out_of p2)" by (rule ensure_essentials_misc(1) [OF t1 c])
  from a b c d t1 t2 that show thesis by blast
qed

lemma normalizeOcr_result_shape:
  assumes "normalizeOcr st clk x = Inr r"
  shows "truthy (out_of r) \<and>
    (is_object (out_of r) \<longrightarrow>
       truthy (fld (out_of r) ''nomor_referensi'') \<and>
       truthy (fld (out_of r) ''nama_supplier'') \<and>
       truthy (fld (out_of r) ''tanggal_faktur'') \<and>
       isArray (fld (out_of r) ''items''))"
proof -
  from normalizeOcr_stages [OF assms] obtain pd p1 p2 where
    c: "ensure_essentials clk p1 = Inr p2" and d: "ensure_items p2 = Inr r"
    and t1: "truthy (out_of p1)" and t2: "truthy (out_of p2)"
    by blast
  have o2: "is_object (out_of p2) = is_object (out_of p1)"
    by (rule ensure_essentials_misc(2) [OF t1 c])
  have tr: "truthy (out_of r)"
    unfolding out_of_ensure_items [OF t2 d] using t2 by simp
  have or: "is_object (out_of r) = is_object (out_of p1)"
    unfolding out_of_ensure_items [OF t2 d] using o2 by simp
  have f: "is_object (out_of p1) \<Longrightarrow> k \<in> {''nomor_referensi'', ''nama_supplier'', ''tanggal_faktur''}
      \<Longrightarrow> truthy (fld (out_of r) k)" for k
    unfolding fld_ensure_items [OF t2 d] ensure_essentials_fld [OF t1 c]
    by auto
  have i: "is_object (out_of p1) \<Longrightarrow> isArray (fld (out_of r) ''items'')"
    unfolding fld_ensure_items [OF t2 d] o2 by simp
  from tr or f i show ?thesis by simp
qed

section \<open>Facts about the state\<close>

lemma updateStatus_fields [simp]:
  "trace (updateStatus ev fid st res p info s) = trace s"
  "interval (updateStatus ev fid st res p info s) = interval s"
  "posts (updateStatus ev fid st res p info s) = posts s"
  "streams (updateStatus ev fid st res p info s) = streams s"
  "form (updateStatus ev fid st res p info s) = form s"
  "history (updateStatus ev fid st res p info s) = (fid, st, p) # history s"
  "reads (updateStatus ev fid st res p info s) = Suc (reads s)"
  by (simp_all add: updateStatus_def)

lemma emit_fields [simp]:
  "trace (emit e s) = trace s @ [e]"
  "store (emit e s) = store s"
  "interval (emit e s) = interval s"
  "posts (emit e s) = posts s"
  "streams (emit e s) = streams s"
  "form (emit e s) = form s"
  "history (emit e s) = history s"
  "reads (emit e s) = reads s"
  by (simp_all add: emit_def)

lemma clearInterval_fields [simp]:
  "trace (clearInterval s) = trace s"
  "store (clearInterval s) = store s"
  "interval (clearInterval s) = None"
  "posts (clearInterval s) = posts s"
  "streams (clearInterval s) = streams s"
  "form (clearInterval s) = form s"
  "history (clearInterval s) = history s"
  "reads (clearInterval s) = reads s"
  by (simp_all add: clearInterval_def)

lemma setInterval_fields [simp]:
  "trace (setInterval fid info s) = trace s"
  "store (setInterval fid info s) = store s"
  "interval (setInterval fid info s) = Some \<lparr>t_id = fid, t_progress = 0, t_info = info\<rparr>"
  "posts (setInterval fid info s) = posts s"
  "streams (setInterval fid info s) = streams s"
  "form (setInterval fid info s) = form s"
  "history (setInterval fid info s) = history s"
  "reads (setInterval fid info s) = reads s"
  by (simp_all add: setInterval_def)

lemma tick_clock_fields [simp]:
  "trace (tick_clock s) = trace s"
  "store (tick_clock s) = store s"
  "interval (tick_clock s) = interval s"
  "posts (tick_clock s) = posts s"
  "streams (tick_clock s) = streams s"
  "form (tick_clock s) = form s"
  "history (tick_clock s) = history s"
  by (simp_all add: tick_clock_def)

lemma attach_stream_fields [simp]:
  "trace (attach_stream fp s) = trace s @ [CreateReadStream fp (streams s)]"
  "store (attach_stream fp s) = store s"
  "interval (attach_stream fp s) = interval s"
  "posts (attach_stream fp s) = posts s"
  "streams (attach_stream fp s) = Suc (streams s)"
  "form (attach_stream fp s) = form s @ [streams s]"
  "history (attach_stream fp s) = history s"
  "reads (attach_stream fp s) = reads s"
  by (simp_all add: attach_stream_def)

lemma fresh_stream_fields [simp]:
  "trace (fresh_stream fp s) = trace s @ [CreateReadStream fp (streams s)]"
  "store (fresh_stream fp s) = store s"
  "interval (fresh_stream fp s) = interval s"
  "posts (fresh_stream fp s) = posts s"
  "streams (fresh_stream fp s) = Suc (streams s)"
  "form (fresh_stream fp s) = [streams s]"
  "history (fresh_stream fp s) = history s"
  "reads (fresh_stream fp s) = reads s"
  by (simp_all add: fresh_stream_def)

lemma sendFailureNotification_fields [simp]:
  "trace (sendFailureNotification fid fn e n s) = trace s @ [Notify fid fn e n]"
  "store (sendFailureNotification fid fn e n s) = store s"
  "interval (sendFailureNotification fid fn e n s) = interval s"
  "posts (sendFailureNotification fid fn e n s) = posts s"
  "streams (sendFailureNotification fid fn e n s) = streams s"
  "form (sendFailureNotification fid fn e n s) = form s"
  "history (sendFailureNotification fid fn e n s) = history s"
  "reads (sendFailureNotification fid fn e n s) = reads s"
  by (simp_all add: sendFailureNotification_def)

lemma fire_fields [simp]:
  "trace (fire ev s) = trace s"
  "posts (fire ev s) = posts s"
  "streams (fire ev s) = streams s"
  "form (fire ev s) = form s"
  by (simp_all add: fire_def split: option.splits)

lemma fire_n_fields [simp]:
  "trace (fire_n ev n s) = trace s"
  "posts (fire_n ev n s) = posts s"
  "streams (fire_n ev n s) = streams s"
  "form (fire_n ev n s) = form s"
  by (induction n arbitrary: s) simp_all

lemma await_post_fields [simp]:
  "fst (await_post ev ep s) = post ev ep (posts s)"
  "trace (snd (await_post ev ep s)) = trace s @ [Post ep (form s)]"
  "posts (snd (await_post ev ep s)) = Suc (posts s)"
  "streams (snd (await_post ev ep s)) = streams s"
  "form (snd (await_post ev ep s)) = form s"
  by (simp_all add: await_post_def)

lemma await_post_eq:
  "await_post ev ep s = (r, s1) \<longleftrightarrow> r = post ev ep (posts s) \<and> s1 = snd (await_post ev ep s)"
  by (auto simp: await_post_def)

lemma store_updateStatus [simp]:
  "store (updateStatus ev fid st res p info s) =
     (store s)(fid \<mapsto> status_record fid st res p info (iso (now ev s)))"
  by (simp add: updateStatus_def)

text \<open>What holds before the loop and is kept by its steps holds after it.\<close>

lemma reset_stream_cases:
  "reset_stream ev fp s = Inr s' \<longleftrightarrow> form_delete_error ev = None \<and> s' = fresh_stream fp s"
  by (auto simp: reset_stream_def split: option.splits)

lemma retry_loop_preserves_aux:
  "(\<And>s. P s \<Longrightarrow> P (snd (await_post ev (OCR_API_ENDPOINT cfg) s))) \<Longrightarrow>
   (\<And>s. P s \<Longrightarrow> P (fresh_stream fp s)) \<Longrightarrow>
   P s \<Longrightarrow> P (snd (retry_loop ev cfg fp retryCount lastError s))"
proof (induction ev cfg fp retryCount lastError s rule: retry_loop.induct)
  case (1 ev cfg fp retryCount lastError s)
  note step = "1.prems"(1) and reset = "1.prems"(2)
  show ?case
  proof (cases "retryCount \<le> MAX_RETRIES")
    case False
    with "1.prems"(3) show ?thesis by (simp add: retry_loop.simps [of ev cfg fp retryCount])
  next
    case True
    show ?thesis
    proof (cases "if retryCount > 0 then reset_stream ev fp s else Inr s")
      case (Inl error)
      have "P (snd (retry_loop ev cfg fp (Suc retryCount) (Some error) s))"
        by (rule "1.IH"(1) [OF True Inl step reset "1.prems"(3)])
      then show ?thesis
        using True Inl by (simp add: retry_loop.simps [of ev cfg fp retryCount])
    next
      case (Inr s0)
      have p0: "P s0"
        using Inr "1.prems"(3) reset by (auto simp: reset_stream_cases split: if_splits)
      define s1 where "s1 = snd (await_post ev (OCR_API_ENDPOINT cfg) s0)"
      have p1: "P s1" unfolding s1_def by (rule step [OF p0])
      have aw: "await_post ev (OCR_API_ENDPOINT cfg) s0 =
          (post ev (OCR_API_ENDPOINT cfg) (posts s0), s1)"
        unfolding s1_def by (simp add: await_post_def)
      show ?thesis
      proof (cases "post ev (OCR_API_ENDPOINT cfg) (posts s0)")
        case pl: (Inl error)
        have "P (snd (retry_loop ev cfg fp (Suc retryCount) (Some error) s1))"
          by (rule "1.IH"(2) [OF True Inr _ _ step reset p1]) (simp_all add: aw pl)
        then show ?thesis
          using True Inr aw pl by (simp add: retry_loop.simps [of ev cfg fp retryCount])
      next
        case pr: (Inr ocrData)
        show ?thesis
        proof (cases "log_snippet ocrData")
          case None
          then show ?thesis
            using True Inr aw pr p1 by (simp add: retry_loop.simps [of ev cfg fp retryCount])
        next
          case (Some error)
          have "P (snd (retry_loop ev cfg fp (Suc retryCount) (Some error) s1))"
            by (rule "1.IH"(3) [OF True Inr _ _ Some step reset p1]) (simp_all add: aw pr)
          then show ?thesis
            using True Inr aw pr Some by (simp add: retry_loop.simps [of ev cfg fp retryCount])
        qed
      qed
    qed
  qed
qed

lemma retry_loop_preserves:
  assumes step: "\<And>s. P s \<Longrightarrow> P (snd (await_post ev (OCR_API_ENDPOINT cfg) s))"
    and reset: "\<And>s. P s \<Longrightarrow> P (fresh_stream fp s)"
    and init: "P s"
  shows "P (snd (retry_loop ev cfg fp retryCount lastError s))"
  by (rule retry_loop_preserves_aux [OF step reset init])

lemma call_ocr_preserves:
  assumes step: "\<And>s ep. ep \<in> {OCR_API_ENDPOINT cfg, FALLBACK_OCR_API_ENDPOINT cfg} \<Longrightarrow>
                    P s \<Longrightarrow> P (snd (await_post ev ep s))"
    and reset: "\<And>s. P s \<Longrightarrow> P (fresh_stream fp s)"
    and notif: "\<And>s e n. P s \<Longrightarrow> P (sendFailureNotification fid filename e n s)"
    and init: "P s"
  shows "P (snd (call_ocr ev cfg fid filename fp s))"
proof -
  obtain x s1 where req: "retry_loop ev cfg fp 0 None s = (x, s1)"
    by (cases "retry_loop ev cfg fp 0 None s") simp
  have "P (snd (retry_loop ev cfg fp 0 None s))"
    by (rule retry_loop_preserves [OF step reset init]) simp
  then have p1: "P s1" by (simp add: req)
  show ?thesis
  proof (cases x)
    case (Inr ocrData)
    then show ?thesis using p1 by (simp add: call_ocr_def req)
  next
    case (Inl lastError)
    define s2 where "s2 = sendFailureNotification fid filename lastError (Suc MAX_RETRIES) s1"
    have p2: "P s2" unfolding s2_def by (rule notif [OF p1])
    show ?thesis
    proof (cases "reset_stream ev fp s2")
      case rl: (Inl fallbackError)
      then show ?thesis
        using p2 notif [OF p2]
        by (simp add: call_ocr_def req Inl Let_def s2_def [symmetric])
    next
      case rr: (Inr s2')
      then have "s2' = fresh_stream fp s2" by (simp add: reset_stream_cases)
      then have p2': "P s2'" using reset [OF p2] by simp
      define s3 where "s3 = snd (await_post ev (FALLBACK_OCR_API_ENDPOINT cfg) s2')"
      have p3: "P s3" unfolding s3_def by (rule step [OF _ p2']) simp
      have aw: "await_post ev (FALLBACK_OCR_API_ENDPOINT cfg) s2' =
          (post ev (FALLBACK_OCR_API_ENDPOINT cfg) (posts s2'), s3)"
        unfolding s3_def by (simp add: await_post_def)
      show ?thesis
        using p2 p3 notif [OF p3]
        by (simp add: call_ocr_def req Inl Let_def s2_def [symmetric] rr aw split: sum.split)
    qed
  qed
qed

lemma kept_updateStatus:
  assumes "kept_by_updates Q" and "Q (store s)"
    and "st \<in> {''processing'', ''completed'', ''error''}" and "p \<le> 100"
  shows "Q (store (updateStatus ev fid st res p info s))"
  using assms unfolding kept_by_updates_def store_updateStatus by blast

lemma kept_fire:
  assumes "kept_by_updates Q" and "Q (store s)"
  shows "Q (store (fire ev s))"
proof (cases "interval s")
  case None
  with assms(2) show ?thesis by (simp add: fire_def)
next
  case (Some t)
  show ?thesis
  proof (cases "t_progress t + 5 \<le> 90")
    case True
    have "Q (store (updateStatus ev (t_id t) ''processing'' JNull (t_progress t + 5) (t_info t)
        (s\<lparr>interval := Some (t\<lparr>t_progress := t_progress t + 5\<rparr>)\<rparr>)))"
      by (rule kept_updateStatus [OF assms(1)]) (use assms(2) True in simp_all)
    with Some True show ?thesis by (simp add: fire_def)
  next
    case False
    with Some assms(2) show ?thesis by (simp add: fire_def)
  qed
qed

lemma kept_fire_n:
  assumes "kept_by_updates Q"
  shows "Q (store s) \<Longrightarrow> Q (store (fire_n ev n s))"
  by (induction n arbitrary: s) (simp_all add: kept_fire [OF assms])

lemma kept_await_post:
  assumes "kept_by_updates Q" and "Q (store s)"
  shows "Q (store (snd (await_post ev ep s)))"
  unfolding await_post_def using assms(2) by (simp add: kept_fire_n [OF assms(1)])

lemma kept_call_ocr:
  assumes "kept_by_updates Q" and "Q (store s)"
  shows "Q (store (snd (call_ocr ev cfg fid filename fp s)))"
  by (rule call_ocr_preserves [where P = "\<lambda>s. Q (store s)"])
     (simp_all add: kept_await_post [OF assms(1)] assms(2))

lemma kept_caught:
  assumes "kept_by_updates Q" and "Q (store s)"
  shows "Q (store (fst (caught ev fid error s)))"
  unfolding caught_def using assms(2) by (simp add: kept_updateStatus [OF assms(1)] del: store_updateStatus)

lemma kept_worker_mock:
  assumes "kept_by_updates Q" and "Q (store s)"
  shows "Q (store (fst (worker_mock ev t s)))"
  unfolding worker_mock_def Let_def using assms(2)
  by (simp add: kept_updateStatus [OF assms(1)] del: store_updateStatus)

lemma kept_worker_finish:
  assumes "kept_by_updates Q" and "Q (store (snd r))"
  shows "Q (store (fst (worker_finish ev cfg t r)))"
  unfolding worker_finish_def using assms(2)
  by (auto simp: Let_def kept_updateStatus [OF assms(1)] kept_caught [OF assms(1)]
      kept_worker_mock [OF assms(1)] simp del: store_updateStatus
      split: prod.splits sum.splits option.splits)

lemma kept_worker_begin:
  assumes "kept_by_updates Q" and "Q (store s)"
  shows "Q (store (worker_begin ev t s))"
  unfolding worker_begin_def using assms(2)
  by (simp add: kept_updateStatus [OF assms(1)] del: store_updateStatus)

lemma kept_worker:
  assumes "kept_by_updates Q" and "Q (store s)"
  shows "Q (store (fst (worker ev cfg t s)))"
proof (cases "USE_MOCK_DATA cfg")
  case True
  obtain s1 r where m: "worker_mock ev t (worker_begin ev t s) = (s1, r)"
    by (cases "worker_mock ev t (worker_begin ev t s)") simp
  have "Q (store (fst (worker_mock ev t (worker_begin ev t s))))"
    by (rule kept_worker_mock [OF assms(1) kept_worker_begin [OF assms]])
  with True m show ?thesis by (simp add: worker_def)
next
  case False
  have "Q (store (attach_stream (filePath t) (worker_begin ev t s)))"
    using kept_worker_begin [OF assms] by simp
  from kept_worker_finish [OF assms(1) kept_call_ocr [OF assms(1) this]] False
  show ?thesis by (simp add: worker_def)
qed

lemma kept_trigger_finish:
  assumes "kept_by_updates Q" and "Q (store (snd r))"
  shows "Q (store (fst (trigger_finish ev cfg fid filename tp r)))"
  unfolding trigger_finish_def using assms(2)
  by (auto simp: Let_def kept_updateStatus [OF assms(1)] kept_caught [OF assms(1)]
      simp del: store_updateStatus
      split: prod.splits sum.splits option.splits)

lemma kept_trigger_begin:
  assumes "kept_by_updates Q" and "Q (store s)"
  shows "Q (store (trigger_begin ev fid item s))"
  unfolding trigger_begin_def using assms(2)
  by (simp add: kept_updateStatus [OF assms(1)] del: store_updateStatus)

lemma store_materialize:
  "materialize ev cfg item s = Inr (tp, s2) \<Longrightarrow> store s2 = store s"
  unfolding materialize_def by (auto simp: bindE_Inr_iff)

lemma kept_processQueuedFile:
  assumes "kept_by_updates Q" and "Q (store s)"
  shows "Q (store (fst (processQueuedFile ev cfg fid s)))"
proof (cases "queued_item s fid")
  case (Inl error)
  with kept_caught [OF assms, of ev fid error] show ?thesis by (simp add: processQueuedFile_def)
next
  case (Inr item)
  define s1 where "s1 = trigger_begin ev fid item s"
  have q1: "Q (store s1)" unfolding s1_def by (rule kept_trigger_begin [OF assms])
  show ?thesis
  proof (cases "materialize ev cfg item s1")
    case (Inl error)
    with kept_caught [OF assms(1) q1, of ev fid error] Inr show ?thesis
      by (simp add: processQueuedFile_def s1_def [symmetric])
  next
    case mat: (Inr p)
    obtain tp s2 where p: "p = (tp, s2)" by (cases p)
    have "Q (store s2)" using store_materialize [OF mat [unfolded p]] q1 by simp
    from kept_trigger_finish [OF assms(1) kept_call_ocr [OF assms(1) this]] Inr mat p
    show ?thesis by (simp add: processQueuedFile_def s1_def [symmetric])
  qed
qed

lemma fld_status_record:
  "fld (status_record fid st res p info at) k =
     (if k = ''id'' then JStr fid else if k = ''status'' then JStr st
      else if k = ''result'' then res else if k = ''progress'' then JNum (int p)
      else if k = ''fileInfo'' then info else if k = ''updatedAt'' then JStr at
      else JUndefined)"
  by (simp add: status_record_def fld_def own_def)

lemma keys_status_record:
  "keys (status_record fid st res p info at) =
     [''id'', ''status'', ''result'', ''progress'', ''fileInfo'', ''updatedAt'']"
  by (simp add: status_record_def keys_def)

lemma truthy_status_record [simp]: "truthy (status_record fid st res p info at)"
  by (simp add: status_record_def)

lemma status_shape_status_record:
  assumes "st \<in> {''queued'', ''processing'', ''completed'', ''error''}" and "p \<le> 100"
  shows "status_shape fid (status_record fid st res p info at)"
  using assms unfolding status_shape_def keys_status_record
  by (auto simp: fld_status_record progress_in_range_def)

lemma kept_all_records_shaped: "kept_by_updates all_records_shaped"
  unfolding kept_by_updates_def all_records_shaped_def
  by (auto simp: status_shape_status_record)

lemma kept_spent: "kept_by_updates (spent fid)"
  unfolding kept_by_updates_def spent_def
  by (auto simp: fld_status_record split: option.splits)

lemma reachable_shaped: "reachable s \<Longrightarrow> all_records_shaped (store s)"
proof (induction rule: reachable.induct)
  case start
  show ?case by (simp add: initial_state_def all_records_shaped_def)
next
  case (queued_buffer s ev uuid buffer name mimetype)
  then show ?case
    unfolding queueBuffer_def all_records_shaped_def
    by (auto simp: buffer_shape_def keys_def fld_def own_def)
next
  case (updated s status progress ev fid result fileInfo)
  then show ?case
    unfolding all_records_shaped_def
    by (auto simp: status_shape_status_record)
next
  case (map_untouched s s')
  then show ?case by simp
qed

lemma shaped_truthy: "status_shape fid r \<or> buffer_shape fid r \<Longrightarrow> truthy r"
  by (cases r) (auto simp: status_shape_def buffer_shape_def keys_def)

lemma getFileStatus_shapes_aux:
  assumes "reachable s"
  shows "(store s fid = None \<longrightarrow> getFileStatus s fid = not_found_stub fid) \<and>
         (\<forall>r. store s fid = Some r \<longrightarrow>
            getFileStatus s fid = r \<and> (status_shape fid r \<or> buffer_shape fid r))"
proof -
  have sh: "all_records_shaped (store s)" by (rule reachable_shaped [OF assms])
  have a: "store s fid = None \<longrightarrow> getFileStatus s fid = not_found_stub fid"
    by (simp add: getFileStatus_def lookup_def orElse_def not_found_stub_def)
  have b: "getFileStatus s fid = r \<and> (status_shape fid r \<or> buffer_shape fid r)"
    if "store s fid = Some r" for r
  proof -
    from sh that have d: "status_shape fid r \<or> buffer_shape fid r"
      unfolding all_records_shaped_def by blast
    from shaped_truthy [OF d] that d show ?thesis
      by (simp add: getFileStatus_def lookup_def orElse_def)
  qed
  from a b show ?thesis by blast
qed

text \<open>The guards of processQueuedFile\<close>

lemma queued_item_no_buffer:
  assumes "\<not> truthy (fld (lookup s fid) ''buffer'')"
  shows "queued_item s fid =
     Inl (Error ((if truthy (lookup s fid) then ''File buffer not found for ID: ''
                  else ''No queued file found with ID: '') @ fid))"
proof (cases "truthy (lookup s fid)")
  case True
  then have "\<not> nullish (lookup s fid)" by (rule nullish_not_truthy)
  with True assms show ?thesis
    by (simp add: queued_item_def Let_def get_prop_fld)
next
  case False
  then show ?thesis by (simp add: queued_item_def Let_def)
qed

lemma queued_item_buffer:
  assumes "truthy (fld (lookup s fid) ''buffer'')"
  shows "queued_item s fid = Inr (lookup s fid)"
proof -
  have "is_object (lookup s fid)" by (rule truthy_fld_object [OF assms])
  then have "truthy (lookup s fid)" and "\<not> nullish (lookup s fid)"
    by (cases "lookup s fid"; simp)+
  with assms show ?thesis by (simp add: queued_item_def Let_def get_prop_fld)
qed

lemma spent_no_buffer: "spent fid (store s) \<Longrightarrow> \<not> truthy (fld (lookup s fid) ''buffer'') \<and> truthy (lookup s fid)"
  by (auto simp: spent_def lookup_def split: option.splits)

lemma spent_updateStatus: "spent fid (store (updateStatus ev fid st res p info s))"
  by (simp add: spent_def fld_status_record)

lemma spent_after_trigger:
  assumes "truthy (fld (lookup s fid) ''buffer'')"
  shows "spent fid (store (fst (processQueuedFile ev cfg fid s)))"
proof -
  note k = kept_spent [of fid]
  define item where "item = lookup s fid"
  have qi: "queued_item s fid = Inr item" unfolding item_def by (rule queued_item_buffer [OF assms])
  define s1 where "s1 = trigger_begin ev fid item s"
  have q1: "spent fid (store s1)"
    unfolding s1_def trigger_begin_def by (simp add: spent_def fld_status_record)
  show ?thesis
  proof (cases "materialize ev cfg item s1")
    case (Inl error)
    with kept_caught [OF k q1, of ev fid error] qi show ?thesis
      by (simp add: processQueuedFile_def s1_def [symmetric])
  next
    case mat: (Inr p)
    obtain tp s2 where p: "p = (tp, s2)" by (cases p)
    have "spent fid (store s2)" using store_materialize [OF mat [unfolded p]] q1 by simp
    from kept_trigger_finish [OF k kept_call_ocr [OF k this]] qi mat p
    show ?thesis by (simp add: processQueuedFile_def s1_def [symmetric])
  qed
qed

lemma spent_rejects:
  assumes "spent fid (store s)"
  shows "processQueuedFile ev cfg fid s =
           caught ev fid (Error (''File buffer not found for ID: '' @ fid)) s"
  using queued_item_no_buffer [of s fid] spent_no_buffer [OF assms]
  by (simp add: processQueuedFile_def)

lemma snd_caught: "snd (caught ev fid e s) = Rejected e"
  by (simp add: caught_def)

lemma retrigger_spent:
  "spent fid (store s) \<Longrightarrow>
   retrigger calls cfg fid s =
     replicate (length calls) (Rejected (Error (''File buffer not found for ID: '' @ fid)))"
proof (induction calls arbitrary: s)
  case Nil
  show ?case by simp
next
  case (Cons c calls)
  obtain ev n where c: "c = (ev, n)" by (cases c)
  define e where "e = Error (''File buffer not found for ID: '' @ fid)"
  have r: "processQueuedFile ev cfg fid s = caught ev fid e s"
    unfolding e_def by (rule spent_rejects [OF Cons.prems])
  have "spent fid (store (fst (caught ev fid e s)))"
    by (rule kept_caught [OF kept_spent Cons.prems])
  then have "spent fid (store (fire_n ev n (fst (caught ev fid e s))))"
    by (rule kept_fire_n [OF kept_spent])
  then have ih: "retrigger calls cfg fid (fire_n ev n (fst (caught ev fid e s))) =
      replicate (length calls) (Rejected e)"
    unfolding e_def by (rule Cons.IH)
  have "retrigger (c # calls) cfg fid s = replicate (length (c # calls)) (Rejected e)"
    by (simp add: c r settle_def ih snd_caught)
  then show ?case unfolding e_def .
qed


section \<open>Facts about the calls\<close>

lemma io_events_append [simp]: "io_events (xs @ ys) = io_events xs @ io_events ys"
  by (induction xs rule: io_events.induct) simp_all

lemma endpoints_called_append [simp]:
  "endpoints_called (xs @ ys) = endpoints_called xs @ endpoints_called ys"
  by (induction xs rule: endpoints_called.induct) simp_all

lemma run_events_append: "trace s' = trace s @ es \<Longrightarrow> run_events s s' = es"
  by (simp add: run_events_def)

lemma retry_loop_exit:
  "\<not> retryCount \<le> MAX_RETRIES \<Longrightarrow> retry_loop ev cfg fp retryCount lastError s = (Inl lastError, s)"
  by (simp add: retry_loop.simps [of ev cfg fp retryCount])

lemma retry_loop_fail_step:
  assumes "retryCount \<le> MAX_RETRIES" and "form_delete_error ev = None"
    and "post ev (OCR_API_ENDPOINT cfg) (posts s) = Inl e"
  shows "retry_loop ev cfg fp retryCount lastError s =
     retry_loop ev cfg fp (Suc retryCount) (Some e)
       (snd (await_post ev (OCR_API_ENDPOINT cfg)
          (if retryCount > 0 then fresh_stream fp s else s)))"
  using assms
  by (subst retry_loop.simps) (simp add: await_post_def reset_stream_def)

text \<open>
  With a form object that has \<open>delete\<close>, the loop makes three attempts: the first with the
  stream attached before, two with a new one.\<close>

lemma retry_loop_all_fail:
  assumes "always_fails ev (OCR_API_ENDPOINT cfg)" and nd: "form_delete_error ev = None"
  obtains e where
    "retry_loop ev cfg fp 0 None s =
       (Inl (Some e),
        snd (await_post ev (OCR_API_ENDPOINT cfg) (fresh_stream fp
          (snd (await_post ev (OCR_API_ENDPOINT cfg) (fresh_stream fp
            (snd (await_post ev (OCR_API_ENDPOINT cfg) s))))))))"
proof -
  let ?P = "OCR_API_ENDPOINT cfg"
  define s1 where "s1 = snd (await_post ev ?P s)"
  define s2 where "s2 = snd (await_post ev ?P (fresh_stream fp s1))"
  define s3 where "s3 = snd (await_post ev ?P (fresh_stream fp s2))"
  from assms obtain e1 where e1: "post ev ?P (posts s) = Inl e1"
    unfolding always_fails_def by (metis isl_def)
  from assms obtain e2 where e2: "post ev ?P (posts s1) = Inl e2"
    unfolding always_fails_def by (metis isl_def)
  from assms obtain e3 where e3: "post ev ?P (posts s2) = Inl e3"
    unfolding always_fails_def by (metis isl_def)
  have a: "retry_loop ev cfg fp 0 None s = retry_loop ev cfg fp (Suc 0) (Some e1) s1"
    using retry_loop_fail_step [where retryCount = 0 and ev = ev and cfg = cfg and fp = fp
        and s = s and e = e1 and lastError = None] e1 nd
    by (simp add: MAX_RETRIES_def s1_def)
  have b: "retry_loop ev cfg fp (Suc 0) (Some e1) s1 =
           retry_loop ev cfg fp (Suc (Suc 0)) (Some e2) s2"
    using retry_loop_fail_step [where retryCount = "Suc 0" and ev = ev and cfg = cfg and fp = fp
        and s = s1 and e = e2 and lastError = "Some e1"] e2 nd
    by (simp add: MAX_RETRIES_def s2_def)
  have c: "retry_loop ev cfg fp (Suc (Suc 0)) (Some e2) s2 =
           retry_loop ev cfg fp (Suc (Suc (Suc 0))) (Some e3) s3"
    using retry_loop_fail_step [where retryCount = "Suc (Suc 0)" and ev = ev and cfg = cfg and fp = fp
        and s = s2 and e = e3 and lastError = "Some e2"] e3 nd
    by (simp add: MAX_RETRIES_def s3_def)
  have d: "retry_loop ev cfg fp (Suc (Suc (Suc 0))) (Some e3) s3 = (Inl (Some e3), s3)"
    by (rule retry_loop_exit) (simp add: MAX_RETRIES_def)
  from a b c d have "retry_loop ev cfg fp 0 None s = (Inl (Some e3), s3)" by simp
  then show thesis unfolding s3_def s2_def s1_def by (rule that)
qed

lemma call_ocr_all_fail_io:
  assumes "always_fails ev (OCR_API_ENDPOINT cfg)" and "form_delete_error ev = None"
  shows "io_events (trace (snd (call_ocr ev cfg fid filename fp s))) =
     io_events (trace s) @
     [Post (OCR_API_ENDPOINT cfg) (form s),
      CreateReadStream fp (streams s), Post (OCR_API_ENDPOINT cfg) [streams s],
      CreateReadStream fp (Suc (streams s)), Post (OCR_API_ENDPOINT cfg) [Suc (streams s)]] @
     (if OCR_API_ENDPOINT cfg = FALLBACK_OCR_API_ENDPOINT cfg then []
      else [CreateReadStream fp (Suc (Suc (streams s))),
            Post (FALLBACK_OCR_API_ENDPOINT cfg) [Suc (Suc (streams s))]])"
proof -
  from retry_loop_all_fail [OF assms, of fp s] obtain e where
    r: "retry_loop ev cfg fp 0 None s =
       (Inl (Some e),
        snd (await_post ev (OCR_API_ENDPOINT cfg) (fresh_stream fp
          (snd (await_post ev (OCR_API_ENDPOINT cfg) (fresh_stream fp
            (snd (await_post ev (OCR_API_ENDPOINT cfg) s))))))))"
    by blast
  show ?thesis
    unfolding call_ocr_def r
    using assms(2)
    by (simp add: Let_def reset_stream_def split: prod.split sum.split)
       (auto simp: await_post_eq)
qed

lemma endpoints_called_io_events [simp]: "endpoints_called (io_events es) = endpoints_called es"
  by (induction es rule: io_events.induct) simp_all

lemma grown_refl: "grown s A s"
  by (simp add: grown_def)

lemma grown_same_trace: "grown s0 A s \<Longrightarrow> trace s' = trace s \<Longrightarrow> grown s0 A s'"
  by (simp add: grown_def)

lemma grown_event:
  assumes "grown s0 A s" and "trace s' = trace s @ [e]" and "set (endpoints_called [e]) \<subseteq> A"
  shows "grown s0 A s'"
proof -
  from assms(1) obtain es where "trace s = trace s0 @ es" "set (endpoints_called es) \<subseteq> A"
    unfolding grown_def by blast
  with assms(2,3) have "trace s' = trace s0 @ (es @ [e]) \<and> set (endpoints_called (es @ [e])) \<subseteq> A"
    by simp
  then show ?thesis unfolding grown_def by blast
qed

lemma grown_run_events:
  assumes "grown s0 A s"
  shows "trace s = trace s0 @ run_events s0 s" and "set (endpoints_called (run_events s0 s)) \<subseteq> A"
  using assms unfolding grown_def run_events_def by auto

lemma io_run_events:
  assumes "grown s0 A s" and "io_events (trace s) = io_events (trace s0) @ xs"
  shows "io_events (run_events s0 s) = xs"
  using assms(2) grown_run_events(1) [OF assms(1)]
  by (metis io_events_append same_append_eq)

lemma grown_await_post:
  assumes "grown s0 A s" and "ep \<in> A"
  shows "grown s0 A (snd (await_post ev ep s))"
  by (rule grown_event [OF assms(1), where e = "Post ep (form s)"]) (simp_all add: assms(2))

lemma grown_fresh_stream: "grown s0 A s \<Longrightarrow> grown s0 A (fresh_stream fp s)"
  by (rule grown_event [where s = s and e = "CreateReadStream fp (streams s)"]) simp_all

lemma grown_attach_stream: "grown s0 A s \<Longrightarrow> grown s0 A (attach_stream fp s)"
  by (rule grown_event [where s = s and e = "CreateReadStream fp (streams s)"]) simp_all

lemma grown_emit: "grown s0 A s \<Longrightarrow> set (endpoints_called [e]) \<subseteq> A \<Longrightarrow> grown s0 A (emit e s)"
  by (rule grown_event [where s = s and e = e]) simp_all

lemma grown_notify: "grown s0 A s \<Longrightarrow> grown s0 A (sendFailureNotification fid fn e n s)"
  by (rule grown_event [where s = s and e = "Notify fid fn e n"]) simp_all

lemma grown_call_ocr:
  assumes "grown s0 A s" and "OCR_API_ENDPOINT cfg \<in> A" and "FALLBACK_OCR_API_ENDPOINT cfg \<in> A"
  shows "grown s0 A (snd (call_ocr ev cfg fid filename fp s))"
proof (rule call_ocr_preserves [where P = "grown s0 A"])
  show "grown s0 A (snd (await_post ev ep s))"
    if "ep \<in> {OCR_API_ENDPOINT cfg, FALLBACK_OCR_API_ENDPOINT cfg}" and "grown s0 A s" for s ep
    using that assms(2,3) by (auto intro: grown_await_post)
qed (simp_all add: grown_fresh_stream grown_notify assms(1))

lemma trace_caught [simp]: "trace (fst (caught ev fid e s)) = trace s"
  by (simp add: caught_def)

lemma trace_worker_mock [simp]: "trace (fst (worker_mock ev t s)) = trace s"
  by (simp add: worker_mock_def Let_def)

lemma trace_worker_finish: "trace (fst (worker_finish ev cfg t r)) = trace (snd r)"
  by (auto simp: worker_finish_def Let_def split: prod.splits sum.splits option.splits)

lemma trace_worker_begin [simp]: "trace (worker_begin ev t s) = trace s"
  by (simp add: worker_begin_def)

lemma worker_begin_run [simp]:
  "streams (worker_begin ev t s) = 0" "form (worker_begin ev t s) = []"
  "posts (worker_begin ev t s) = 0"
  by (simp_all add: worker_begin_def)

lemma trace_trigger_begin [simp]: "trace (trigger_begin ev fid item s) = trace s"
  by (simp add: trigger_begin_def)

lemma trigger_begin_run [simp]:
  "streams (trigger_begin ev fid item s) = 0" "form (trigger_begin ev fid item s) = []"
  "posts (trigger_begin ev fid item s) = 0"
  by (simp_all add: trigger_begin_def)

lemma trace_trigger_finish:
  "trace (fst (trigger_finish ev cfg fid fn tp r)) = trace (snd r) \<or>
   trace (fst (trigger_finish ev cfg fid fn tp r)) = trace (snd r) @ [Unlink tp]"
  by (auto simp: trigger_finish_def Let_def split: prod.splits sum.splits option.splits)

lemma grown_trigger_finish:
  assumes "grown s0 A (snd r)"
  shows "grown s0 A (fst (trigger_finish ev cfg fid fn tp r))"
proof -
  from trace_trigger_finish [of ev cfg fid fn tp r] show ?thesis
  proof
    assume "trace (fst (trigger_finish ev cfg fid fn tp r)) = trace (snd r)"
    with assms show ?thesis by (rule grown_same_trace)
  next
    assume "trace (fst (trigger_finish ev cfg fid fn tp r)) = trace (snd r) @ [Unlink tp]"
    with assms show ?thesis by (rule grown_event) simp
  qed
qed

lemma io_trigger_finish:
  "io_events (trace (fst (trigger_finish ev cfg fid fn tp r))) = io_events (trace (snd r))"
  using trace_trigger_finish [of ev cfg fid fn tp r] by auto

lemma grown_worker:
  assumes "OCR_API_ENDPOINT cfg \<in> A" and "FALLBACK_OCR_API_ENDPOINT cfg \<in> A"
  shows "grown s A (fst (worker ev cfg t s))"
proof (cases "USE_MOCK_DATA cfg")
  case True
  obtain s1 r where m: "worker_mock ev t (worker_begin ev t s) = (s1, r)"
    by (cases "worker_mock ev t (worker_begin ev t s)") simp
  then have "trace s1 = trace s" using trace_worker_mock [of ev t "worker_begin ev t s"] by simp
  then have "grown s A s1" by (rule grown_same_trace [OF grown_refl])
  then have "grown s A (emit (Unlink (filePath t)) s1)" by (rule grown_emit) simp
  with True m show ?thesis by (simp add: worker_def)
next
  case False
  have "grown s A (worker_begin ev t s)" by (rule grown_same_trace [OF grown_refl]) simp
  then have "grown s A (attach_stream (filePath t) (worker_begin ev t s))"
    by (rule grown_attach_stream)
  then have "grown s A (snd (call_ocr ev cfg (fileId t) (JStr (originalname t)) (filePath t)
      (attach_stream (filePath t) (worker_begin ev t s))))"
    using assms by (rule grown_call_ocr)
  then have "grown s A (fst (worker ev cfg t s))"
    by (rule grown_same_trace) (simp add: worker_def False trace_worker_finish)
  then show ?thesis .
qed

lemma materialize_ok:
  assumes "mkdir_error ev = None" and "write_error ev = None"
    and "fld item ''originalFilename'' = JStr name"
  shows "materialize ev cfg item s =
     Inr (join_path ev (TEMP_DIR cfg) name,
          attach_stream (join_path ev (TEMP_DIR cfg) name)
            (emit (WriteFile (join_path ev (TEMP_DIR cfg) name) (fld item ''buffer'')) s))"
  using assms by (simp add: materialize_def failing_def temp_path_def)

lemma trace_materialize:
  assumes "materialize ev cfg item s = Inr (tp, s2)"
  shows "trace s2 = trace s @ [WriteFile tp (fld item ''buffer''), CreateReadStream tp (streams s)]"
    and "streams s2 = Suc (streams s)" and "form s2 = form s @ [streams s]"
    and "posts s2 = posts s"
  using assms unfolding materialize_def by (auto simp: bindE_Inr_iff)

lemma materialize_Inr:
  assumes "materialize ev cfg item s = Inr (tp, s2)"
  shows "s2 = attach_stream tp (emit (WriteFile tp (fld item ''buffer'')) s)"
  using assms unfolding materialize_def by (auto simp: bindE_Inr_iff)

lemma grown_processQueuedFile:
  assumes "OCR_API_ENDPOINT cfg \<in> A" and "FALLBACK_OCR_API_ENDPOINT cfg \<in> A"
  shows "grown s A (fst (processQueuedFile ev cfg fid s))"
proof (cases "queued_item s fid")
  case (Inl error)
  have "grown s A (fst (caught ev fid error s))" by (rule grown_same_trace [OF grown_refl]) simp
  with Inl show ?thesis by (simp add: processQueuedFile_def)
next
  case (Inr item)
  define s1 where "s1 = trigger_begin ev fid item s"
  have g1: "grown s A s1" unfolding s1_def by (rule grown_same_trace [OF grown_refl]) simp
  show ?thesis
  proof (cases "materialize ev cfg item s1")
    case (Inl error)
    have "grown s A (fst (caught ev fid error s1))" by (rule grown_same_trace [OF g1]) simp
    with Inl Inr show ?thesis by (simp add: processQueuedFile_def s1_def [symmetric])
  next
    case mat: (Inr p)
    obtain tp s2 where p: "p = (tp, s2)" by (cases p)
    have "s2 = attach_stream tp (emit (WriteFile tp (fld item ''buffer'')) s1)"
      by (rule materialize_Inr [OF mat [unfolded p]])
    moreover have "grown s A (emit (WriteFile tp (fld item ''buffer'')) s1)"
      using g1 by (rule grown_emit) simp
    ultimately have "grown s A s2" by (simp add: grown_attach_stream)
    then have "grown s A (snd (call_ocr ev cfg fid (fld item ''originalFilename'') tp s2))"
      using assms by (rule grown_call_ocr)
    then have "grown s A (fst (trigger_finish ev cfg fid (fld item ''originalFilename'') tp
        (call_ocr ev cfg fid (fld item ''originalFilename'') tp s2)))"
      by (rule grown_trigger_finish)
    with Inr mat p show ?thesis by (simp add: processQueuedFile_def s1_def [symmetric])
  qed
qed

lemma worker_all_fail_io:
  assumes "always_fails ev (OCR_API_ENDPOINT cfg)" and "\<not> USE_MOCK_DATA cfg"
    and "form_delete_error ev = None"
  shows "io_events (run_events s (fst (worker ev cfg t s))) =
     [CreateReadStream (filePath t) 0, Post (OCR_API_ENDPOINT cfg) [0],
      CreateReadStream (filePath t) 1, Post (OCR_API_ENDPOINT cfg) [1],
      CreateReadStream (filePath t) 2, Post (OCR_API_ENDPOINT cfg) [2]] @
     (if OCR_API_ENDPOINT cfg = FALLBACK_OCR_API_ENDPOINT cfg then []
      else [CreateReadStream (filePath t) 3, Post (FALLBACK_OCR_API_ENDPOINT cfg) [3]])"
proof -
  define s2 where "s2 = attach_stream (filePath t) (worker_begin ev t s)"
  have tr: "trace (fst (worker ev cfg t s)) =
      trace (snd (call_ocr ev cfg (fileId t) (JStr (originalname t)) (filePath t) s2))"
    using assms(2) by (simp add: worker_def trace_worker_finish s2_def)
  have g: "grown s UNIV (fst (worker ev cfg t s))" by (rule grown_worker) simp_all
  show ?thesis
    by (rule io_run_events [OF g])
       (simp add: tr call_ocr_all_fail_io [OF assms(1,3)] s2_def numeral_2_eq_2 numeral_3_eq_3)
qed

lemma worker_same_endpoint:
  assumes "FALLBACK_OCR_API_ENDPOINT cfg = OCR_API_ENDPOINT cfg"
  shows "set (endpoints_called (run_events s (fst (worker ev cfg t s)))) \<subseteq> {OCR_API_ENDPOINT cfg}"
  by (rule grown_run_events(2) [OF grown_worker]) (simp_all add: assms)

lemma trigger_same_endpoint:
  assumes "FALLBACK_OCR_API_ENDPOINT cfg = OCR_API_ENDPOINT cfg"
  shows "set (endpoints_called (run_events s (fst (processQueuedFile ev cfg fid s))))
           \<subseteq> {OCR_API_ENDPOINT cfg}"
  by (rule grown_run_events(2) [OF grown_processQueuedFile]) (simp_all add: assms)

lemma endpoints_of_io: "io_events es = xs \<Longrightarrow> endpoints_called es = endpoints_called xs"
  using endpoints_called_io_events [of es] by simp


section \<open>Facts about the progress reports\<close>

lemma tracked_refl: "tracked s s"
  by (simp add: tracked_def)

lemma tracked_same:
  assumes "tracked s0 s" and "history s' = history s" and "interval s' = interval s"
  shows "tracked s0 s'"
  using assms unfolding tracked_def by simp

lemma tracked_cleared:
  assumes "tracked s0 s" and "history s' = history s" and "interval s' = None"
  shows "tracked s0 s'"
  using assms unfolding tracked_def by auto

lemma tracked_run_history:
  assumes "tracked s0 s"
  shows "progress_ok (map snd (run_history s0 s))"
  using assms unfolding tracked_def run_history_def by auto

text \<open>A final report: \<open>completed\<close> with 100 or \<open>error\<close> with 0.\<close>

lemma tracked_final:
  assumes "tracked s0 s" and "(st, p) \<in> {(''completed'', 100), (''error'', 0)}"
  shows "tracked s0 (updateStatus ev fid st res p info s)"
proof -
  from assms(1) obtain hs where h: "history s = hs @ history s0"
    and ok: "progress_ok (map snd hs)"
    and b: "\<forall>t. interval s = Some t \<longrightarrow>
              (\<forall>e \<in> set hs. fst (snd e) = ''processing'' \<longrightarrow> snd (snd e) \<le> t_progress t)"
    unfolding tracked_def by blast
  have e: "entry_ok (st, p)" and np: "st \<noteq> ''processing''"
    using assms(2) by (auto simp: entry_ok_def)
  let ?hs = "(fid, st, p) # hs"
  have "history (updateStatus ev fid st res p info s) = ?hs @ history s0"
    by (simp add: h)
  moreover have "progress_ok (map snd ?hs)"
    using ok e np by simp
  moreover have "\<forall>t. interval (updateStatus ev fid st res p info s) = Some t \<longrightarrow>
      (\<forall>e \<in> set ?hs. fst (snd e) = ''processing'' \<longrightarrow> snd (snd e) \<le> t_progress t)"
    using b np by simp
  ultimately show ?thesis unfolding tracked_def by blast
qed

lemma tracked_fire:
  assumes "tracked s0 s"
  shows "tracked s0 (fire ev s)"
proof (cases "interval s")
  case None
  then show ?thesis using assms by (simp add: fire_def)
next
  case (Some t)
  show ?thesis
  proof (cases "t_progress t + 5 \<le> 90")
    case False
    have "tracked s0 (s\<lparr>interval := None\<rparr>)"
      by (rule tracked_cleared [OF assms]) simp_all
    with Some False show ?thesis by (simp add: fire_def)
  next
    case True
    from assms obtain hs where h: "history s = hs @ history s0"
      and ok: "progress_ok (map snd hs)"
      and b: "\<forall>e \<in> set hs. fst (snd e) = ''processing'' \<longrightarrow> snd (snd e) \<le> t_progress t"
      unfolding tracked_def using Some by blast
    define p where "p = t_progress t + 5"
    define s' where "s' = updateStatus ev (t_id t) ''processing'' JNull p (t_info t)
        (s\<lparr>interval := Some (t\<lparr>t_progress := p\<rparr>)\<rparr>)"
    let ?hs = "(t_id t, ''processing'', p) # hs"
    have f: "fire ev s = s'" using Some True by (simp add: fire_def s'_def p_def)
    have e: "entry_ok (''processing'', p)" using True by (simp add: entry_ok_def p_def)
    have h': "history s' = ?hs @ history s0" by (simp add: s'_def h)
    have ok': "progress_ok (map snd ?hs)"
      using ok e b by (auto simp: p_def)
    have i': "interval s' = Some (t\<lparr>t_progress := p\<rparr>)" by (simp add: s'_def)
    have b': "\<forall>e \<in> set ?hs. fst (snd e) = ''processing'' \<longrightarrow> snd (snd e) \<le> p"
      using b by (auto simp: p_def)
    have "tracked s0 s'"
      unfolding tracked_def using h' ok' b' i' by auto
    then show ?thesis by (simp add: f)
  qed
qed

lemma tracked_fire_n: "tracked s0 s \<Longrightarrow> tracked s0 (fire_n ev n s)"
  by (induction n arbitrary: s) (simp_all add: tracked_fire)

lemma history_fields [simp]:
  "history (s\<lparr>posts := a\<rparr>) = history s" "interval (s\<lparr>posts := a\<rparr>) = interval s"
  by simp_all

lemma tracked_await_post:
  assumes "tracked s0 s"
  shows "tracked s0 (snd (await_post ev ep s))"
proof -
  have "tracked s0 ((emit (Post ep (form s)) s)\<lparr>posts := Suc (posts s)\<rparr>)"
    by (rule tracked_same [OF assms]) simp_all
  then show ?thesis by (simp add: await_post_def tracked_fire_n)
qed

lemma tracked_call_ocr:
  assumes "tracked s0 s"
  shows "tracked s0 (snd (call_ocr ev cfg fid filename fp s))"
proof (rule call_ocr_preserves [where P = "tracked s0"])
  show "tracked s0 (fresh_stream fp s)" if "tracked s0 s" for s
    by (rule tracked_same [OF that]) simp_all
  show "tracked s0 (sendFailureNotification fid filename e n s)" if "tracked s0 s" for s e n
    by (rule tracked_same [OF that]) simp_all
qed (simp_all add: tracked_await_post assms)

lemma tracked_begin:
  assumes "history s1 = (fid, ''processing'', 0) # history s"
    and "interval s1 = Some \<lparr>t_id = fid, t_progress = 0, t_info = info\<rparr>"
  shows "tracked s s1"
  unfolding tracked_def
  by (rule exI [where x = "[(fid, ''processing'', 0)]"])
     (simp add: assms entry_ok_def)

lemma tracked_caught:
  assumes "tracked s0 s"
  shows "tracked s0 (fst (caught ev fid e s))"
  unfolding caught_def using tracked_final [OF assms, of "''error''" 0] by simp

lemma progress_ok_filter: "progress_ok (map snd hs) \<Longrightarrow> progress_ok (job_reports fid hs)"
  unfolding job_reports_def by (induction hs) auto

lemma tracked_clearInterval: "tracked s0 s \<Longrightarrow> tracked s0 (clearInterval s)"
  by (rule tracked_cleared) simp_all

lemma tracked_tick_clock: "tracked s0 s \<Longrightarrow> tracked s0 (tick_clock s)"
  by (rule tracked_same) simp_all

lemma tracked_emit: "tracked s0 s \<Longrightarrow> tracked s0 (emit e s)"
  by (rule tracked_same) simp_all

lemma tracked_completed:
  "tracked s0 s \<Longrightarrow> tracked s0 (updateStatus ev fid ''completed'' res 100 info s)"
  by (rule tracked_final) simp_all

lemma tracked_error:
  "tracked s0 s \<Longrightarrow> tracked s0 (updateStatus ev fid ''error'' res 0 info s)"
  by (rule tracked_final) simp_all

lemma tracked_worker_mock:
  assumes "tracked s0 s"
  shows "tracked s0 (fst (worker_mock ev t s))"
  unfolding worker_mock_def Let_def
  by (simp add: tracked_completed tracked_clearInterval tracked_tick_clock assms)

lemma tracked_worker_finish:
  assumes "tracked s0 (snd r)"
  shows "tracked s0 (fst (worker_finish ev cfg t r))"
proof (cases r)
  case (Pair x s)
  with assms have ts: "tracked s0 s" by simp
  show ?thesis
  proof (cases x)
    case (Inl lastError)
    show ?thesis
    proof (cases "IS_DEV_MODE cfg")
      case True
      with Pair Inl tracked_worker_mock [OF ts] show ?thesis by (simp add: worker_finish_def)
    next
      case False
      show ?thesis
      proof (cases lastError)
        case None
        with Pair Inl False tracked_caught [OF tracked_clearInterval [OF ts]] show ?thesis
          by (simp add: worker_finish_def)
      next
        case (Some e)
        with Pair Inl False tracked_error [OF tracked_clearInterval [OF ts]] show ?thesis
          by (simp add: worker_finish_def)
      qed
    qed
  next
    case (Inr ocrData)
    show ?thesis
    proof (cases "normalizeOcr InWorker (now ev s) ocrData")
      case (Inl error)
      with Pair Inr tracked_caught [OF ts] show ?thesis by (simp add: worker_finish_def)
    next
      case nr: (Inr pd)
      show ?thesis
      proof (cases "log_structure pd")
        case (Inl error)
        with Pair Inr nr tracked_caught [OF tracked_tick_clock [OF ts]] show ?thesis
          by (simp add: worker_finish_def)
      next
        case lg: (Inr u)
        have "tracked s0 (tick_clock (clearInterval (tick_clock s)))"
          by (intro tracked_tick_clock tracked_clearInterval ts)
        from tracked_completed [OF this] Pair Inr nr lg show ?thesis
          by (simp add: worker_finish_def Let_def)
      qed
    qed
  qed
qed

lemma tracked_worker_begin: "tracked s (worker_begin ev t s)"
  by (rule tracked_begin [where fid = "fileId t" and info = "file_info t"])
     (simp_all add: worker_begin_def)

lemma tracked_worker: "tracked s (fst (worker ev cfg t s))"
proof (cases "USE_MOCK_DATA cfg")
  case True
  obtain s1 r where m: "worker_mock ev t (worker_begin ev t s) = (s1, r)"
    by (cases "worker_mock ev t (worker_begin ev t s)") simp
  have "tracked s (fst (worker_mock ev t (worker_begin ev t s)))"
    by (rule tracked_worker_mock [OF tracked_worker_begin])
  with m have "tracked s s1" by simp
  then have "tracked s (emit (Unlink (filePath t)) s1)" by (rule tracked_emit)
  with True m show ?thesis by (simp add: worker_def)
next
  case False
  have "tracked s (attach_stream (filePath t) (worker_begin ev t s))"
    by (rule tracked_same [OF tracked_worker_begin]) simp_all
  from tracked_worker_finish [OF tracked_call_ocr [OF this]] False
  show ?thesis by (simp add: worker_def)
qed

lemma tracked_trigger_finish:
  assumes "tracked s0 (snd r)"
  shows "tracked s0 (fst (trigger_finish ev cfg fid fn tp r))"
proof (cases r)
  case (Pair x s)
  with assms have ts: "tracked s0 s" by simp
  show ?thesis
  proof (cases x)
    case (Inl lastError)
    show ?thesis
    proof (cases "IS_DEV_MODE cfg")
      case True
      have "tracked s0 (emit (Unlink tp) (clearInterval (tick_clock s)))"
        by (intro tracked_emit tracked_clearInterval tracked_tick_clock ts)
      from tracked_completed [OF this] Pair Inl True show ?thesis
        by (simp add: trigger_finish_def Let_def)
    next
      case False
      have c: "tracked s0 (emit (Unlink tp) (clearInterval s))"
        by (intro tracked_emit tracked_clearInterval ts)
      show ?thesis
      proof (cases lastError)
        case None
        with Pair Inl False tracked_caught [OF c] show ?thesis
          by (simp add: trigger_finish_def)
      next
        case (Some e)
        with Pair Inl False tracked_error [OF c] show ?thesis
          by (simp add: trigger_finish_def)
      qed
    qed
  next
    case (Inr ocrData)
    show ?thesis
    proof (cases "normalizeOcr InTrigger (now ev s) ocrData")
      case (Inl error)
      with Pair Inr tracked_caught [OF ts] show ?thesis by (simp add: trigger_finish_def)
    next
      case nr: (Inr pd)
      have "tracked s0 (tick_clock (emit (Unlink tp) (clearInterval (tick_clock s))))"
        by (intro tracked_tick_clock tracked_emit tracked_clearInterval ts)
      from tracked_completed [OF this] Pair Inr nr show ?thesis
        by (simp add: trigger_finish_def Let_def)
    qed
  qed
qed

lemma tracked_trigger_begin: "tracked s (trigger_begin ev fid item s)"
  by (rule tracked_begin [where fid = fid and info = JNull])
     (simp_all add: trigger_begin_def)

lemma tracked_processQueuedFile: "tracked s (fst (processQueuedFile ev cfg fid s))"
proof (cases "queued_item s fid")
  case (Inl error)
  have "tracked s (fst (caught ev fid error s))" by (rule tracked_caught [OF tracked_refl])
  with Inl show ?thesis by (simp add: processQueuedFile_def)
next
  case (Inr item)
  define s1 where "s1 = trigger_begin ev fid item s"
  have t1: "tracked s s1" unfolding s1_def by (rule tracked_trigger_begin)
  show ?thesis
  proof (cases "materialize ev cfg item s1")
    case (Inl error)
    have "tracked s (fst (caught ev fid error s1))" by (rule tracked_caught [OF t1])
    with Inl Inr show ?thesis by (simp add: processQueuedFile_def s1_def [symmetric])
  next
    case mat: (Inr p)
    obtain tp s2 where p: "p = (tp, s2)" by (cases p)
    have "s2 = attach_stream tp (emit (WriteFile tp (fld item ''buffer'')) s1)"
      by (rule materialize_Inr [OF mat [unfolded p]])
    then have "tracked s s2" using tracked_same [OF t1, of s2] by simp
    from tracked_trigger_finish [OF tracked_call_ocr [OF this]] Inr mat p
    show ?thesis by (simp add: processQueuedFile_def s1_def [symmetric])
  qed
qed

lemma run_history_append: "history s' = hs @ history s \<Longrightarrow> run_history s s' = hs"
  by (simp add: run_history_def)

lemma history_queueBuffer [simp]:
  "history (queueBuffer ev uuid buffer name mimetype s) = history s"
  by (simp add: queueBuffer_def)

lemma history_disk_full:
  "history (fst (settle disk_full_env 3
      (processQueuedFile disk_full_env sample_config ''job-2'' sample_queued))) =
   [(''job-2'', ''processing'', 15), (''job-2'', ''processing'', 10),
    (''job-2'', ''processing'', 5), (''job-2'', ''error'', 0),
    (''job-2'', ''processing'', 0)] @ history sample_queued"
proof -
  have b: "truthy (fld (lookup sample_queued ''job-2'') ''buffer'')"
    by (simp add: sample_queued_def queueBuffer_def lookup_def fld_def own_def)
  have n: "fld (lookup sample_queued ''job-2'') ''originalFilename'' = JStr ''scan.pdf''"
    by (simp add: sample_queued_def queueBuffer_def lookup_def fld_def own_def)
  have m: "materialize disk_full_env sample_config (lookup sample_queued ''job-2'') s1 =
      Inl (Error ''ENOSPC: no space left on device, write'')" for s1
    by (simp add: materialize_def failing_def disk_full_env_def failing_env_def temp_path_def n)
  show ?thesis
    by (simp add: settle_def processQueuedFile_def queued_item_buffer [OF b] m Let_def
        caught_def trigger_begin_def numeral_3_eq_3 fire_def)
qed

section \<open>Facts about what the normalizer takes\<close>

lemma ensure_field_returns:
  assumes "truthy (out_of pd)"
  shows "\<exists>r. ensure_field pd k ph = Inr r"
  unfolding ensure_field_eq [OF assms] set_output_field_eq [OF assms] by simp

lemma ensure_essentials_returns:
  assumes "truthy (out_of pd)"
  shows "\<exists>r. ensure_essentials clk pd = Inr r"
proof -
  obtain p1 where s1: "ensure_field pd ''nomor_referensi'' (field (JStr (inv_placeholder clk)) True) = Inr p1"
    using ensure_field_returns [OF assms] by blast
  have t1: "truthy (out_of p1)" by (rule truthy_out_ensure_field [OF assms s1])
  obtain p2 where s2: "ensure_field p1 ''nama_supplier'' (field (JStr ''Unknown Supplier'') False) = Inr p2"
    using ensure_field_returns [OF t1] by blast
  have t2: "truthy (out_of p2)" by (rule truthy_out_ensure_field [OF t1 s2])
  obtain r where s3: "ensure_field p2 ''tanggal_faktur'' (field (JStr (today clk)) False) = Inr r"
    using ensure_field_returns [OF t2] by blast
  show ?thesis unfolding ensure_essentials_def by (simp add: s1 s2 s3)
qed

lemma ensure_items_returns:
  assumes "truthy (out_of pd)"
  shows "\<exists>r. ensure_items pd = Inr r"
  unfolding ensure_items_eq [OF assms] set_output_field_eq [OF assms] by simp

lemma after_ensure_output_returns:
  assumes "ensure_output pd = Inr p1"
  shows "\<exists>r. bindE (ensure_essentials clk p1) ensure_items = Inr r"
proof -
  have t1: "truthy (out_of p1)" by (rule truthy_out_ensure_output [OF assms])
  obtain p2 where c: "ensure_essentials clk p1 = Inr p2"
    using ensure_essentials_returns [OF t1] by blast
  have t2: "truthy (out_of p2)" by (rule ensure_essentials_misc(1) [OF t1 c])
  from ensure_items_returns [OF t2] c show ?thesis by simp
qed

lemma ensure_output_returns:
  assumes "\<not> nullish pd"
  shows "\<exists>r. ensure_output pd = Inr r"
  unfolding ensure_output_def by (simp add: get_prop_fld [OF assms])

lemma ensure_output_nullish:
  assumes "nullish pd"
  shows "\<exists>e. ensure_output pd = Inl e"
  unfolding ensure_output_def using assms by (simp add: get_prop_def)

lemma adopted_returns:
  assumes "adopt st clk d = Inr pd" and "\<not> nullish pd"
  shows "\<exists>r. normalizeOcr st clk d = Inr r"
proof -
  obtain p1 where o: "ensure_output pd = Inr p1" using ensure_output_returns [OF assms(2)] by blast
  from after_ensure_output_returns [OF o] assms(1) o show ?thesis
    by (simp add: normalizeOcr_def)
qed

text \<open>The scan of \<open>find\<close>\<close>

lemma find_output_scannable:
  "scannable xs \<Longrightarrow> \<exists>it. find_output xs = Inr it"
proof (induction xs)
  case Nil
  show ?case by simp
next
  case (Cons x xs)
  then have nn: "\<not> nullish x" by simp
  show ?case
  proof (cases "truthy (fld x ''output'')")
    case True
    then show ?thesis by (simp add: get_prop_fld [OF nn])
  next
    case False
    with Cons show ?thesis by (simp add: get_prop_fld [OF nn])
  qed
qed

lemma find_output_not_scannable:
  "\<not> scannable xs \<Longrightarrow> \<exists>e. find_output xs = Inl e"
proof (induction xs)
  case Nil
  then show ?case by simp
next
  case (Cons x xs)
  show ?case
  proof (cases "nullish x")
    case True
    then show ?thesis by (simp add: get_prop_def)
  next
    case False
    with Cons show ?thesis by (auto simp: get_prop_fld)
  qed
qed

lemma find_output_none:
  "find_output xs = Inr it \<Longrightarrow> \<not> truthy it \<Longrightarrow>
   (\<forall>x \<in> set xs. \<not> nullish x \<and> \<not> truthy (fld x ''output''))"
proof (induction xs)
  case Nil
  then show ?case by simp
next
  case (Cons x xs)
  show ?case
  proof (cases "nullish x")
    case True
    with Cons.prems show ?thesis by (simp add: get_prop_def)
  next
    case False
    show ?thesis
    proof (cases "truthy (fld x ''output'')")
      case True
      with False Cons.prems have "it = x" by (simp add: get_prop_fld)
      with True Cons.prems(2) have False by (cases x) (simp_all add: fld_def own_def)
      then show ?thesis ..
    next
      case no: False
      with False Cons.prems have "find_output xs = Inr it" by (simp add: get_prop_fld)
      from Cons.IH [OF this Cons.prems(2)] False no show ?thesis by simp
    qed
  qed
qed

lemma findPropertyInArray_returns:
  "(\<forall>x \<in> set xs. \<not> nullish x \<and> \<not> truthy (fld x ''output'')) \<Longrightarrow>
   \<exists>v. findPropertyInArray xs k = Inr v"
  by (induction xs) (auto simp: get_prop_fld)

lemma third_items_returns:
  assumes "\<forall>x \<in> set xs. \<not> nullish x \<and> \<not> truthy (fld x ''output'')"
  shows "third_items xs = Inr None"
proof (cases "2 < length xs")
  case True
  then have "xs ! 2 \<in> set xs" by simp
  with assms have "\<not> nullish (xs ! 2)" "\<not> truthy (fld (xs ! 2) ''output'')" by simp_all
  with True show ?thesis by (simp add: third_items_def elem_def get_prop_fld)
next
  case False
  then show ?thesis by (simp add: third_items_def elem_def)
qed

lemma merge_array_returns:
  assumes "\<forall>x \<in> set xs. \<not> nullish x \<and> \<not> truthy (fld x ''output'')"
  shows "\<exists>ps. merge_array InWorker clk xs = Inr (JObj ps)"
proof -
  obtain a b c d where
    "findPropertyInArray xs ''nomor_referensi'' = Inr a"
    "findPropertyInArray xs ''nama_supplier'' = Inr b"
    "findPropertyInArray xs ''tanggal_faktur'' = Inr c"
    "findPropertyInArray xs ''tgl_jatuh_tempo'' = Inr d"
    using findPropertyInArray_returns [OF assms] by metis
  then show ?thesis
    by (simp add: merge_array_def lookup_helper_def third_items_returns [OF assms])
qed

lemma normalizeOcr_absorbs:
  assumes "absorbable d"
  shows "\<exists>r. normalizeOcr InWorker clk d = Inr r"
proof (cases "isArray d")
  case False
  with assms have nn: "\<not> nullish d" by (cases d) (simp_all add: absorbable_def)
  show ?thesis by (rule adopted_returns [OF adopt_not_array [OF False] nn])
next
  case True
  then obtain xs ps where d: "d = JArr xs ps" by (cases d) simp_all
  with assms have sc: "scannable xs" by (simp add: absorbable_def)
  obtain it where f: "find_output xs = Inr it" using find_output_scannable [OF sc] by blast
  show ?thesis
  proof (cases "truthy it")
    case True
    then have "\<not> nullish it" by (rule nullish_not_truthy)
    moreover have "adopt InWorker clk d = Inr it" using f True by (simp add: adopt_def d)
    ultimately show ?thesis by (rule adopted_returns [rotated])
  next
    case False
    obtain qs where m: "merge_array InWorker clk xs = Inr (JObj qs)"
      using merge_array_returns [OF find_output_none [OF f False]] by blast
    have "adopt InWorker clk d = Inr (JObj qs)" using f False m by (simp add: adopt_def d)
    then show ?thesis by (rule adopted_returns) simp
  qed
qed

lemma normalizeOcr_throws:
  assumes "\<not> absorbable d"
  shows "\<exists>e. normalizeOcr st clk d = Inl e"
proof (cases "isArray d")
  case False
  with assms have n: "nullish d" by (cases d) (simp_all add: absorbable_def)
  from ensure_output_nullish [OF n] show ?thesis
    by (auto simp: normalizeOcr_def adopt_not_array [OF False])
next
  case True
  then obtain xs ps where d: "d = JArr xs ps" by (cases d) simp_all
  with assms have "\<not> scannable xs" by (simp add: absorbable_def)
  from find_output_not_scannable [OF this] show ?thesis
    by (auto simp: normalizeOcr_def adopt_def d)
qed

section \<open>Facts about the end of the worker\<close>

lemma worker_unfold:
  "\<not> USE_MOCK_DATA cfg \<Longrightarrow> worker ev cfg t s = worker_finish ev cfg t (worker_calls ev cfg t s)"
  by (simp add: worker_def worker_calls_def)

lemma fire_n_idle: "interval s = None \<Longrightarrow> fire_n ev n s = s"
  by (induction n) (simp_all add: fire_def)

lemma getFileStatus_updateStatus:
  "getFileStatus (updateStatus ev fid st res p info s) fid =
     status_record fid st res p info (iso (now ev s))"
  by (simp add: getFileStatus_def lookup_def orElse_def)

lemma worker_finish_completed:
  assumes "normalizeOcr InWorker (now ev s1) data = Inr pd" and "log_structure pd = Inr u"
  shows "\<exists>r. snd (worker_finish ev cfg t (Inr data, s1)) = Resolved r"
    and "fld (getFileStatus (fst (settle ev n (worker_finish ev cfg t (Inr data, s1)))) (fileId t))
           ''status'' = JStr ''completed''"
    and "fld (getFileStatus (fst (settle ev n (worker_finish ev cfg t (Inr data, s1)))) (fileId t))
           ''progress'' = JNum 100"
proof -
  define s2 where "s2 = tick_clock (clearInterval (tick_clock s1))"
  define r where "r = worker_result (now ev (clearInterval (tick_clock s1))) t pd"
  have w: "worker_finish ev cfg t (Inr data, s1) =
      (updateStatus ev (fileId t) ''completed'' r 100 (file_info t) s2, Resolved r)"
    using assms by (simp add: worker_finish_def Let_def s2_def r_def)
  have i: "interval (updateStatus ev (fileId t) ''completed'' r 100 (file_info t) s2) = None"
    by (simp add: s2_def)
  show "\<exists>r. snd (worker_finish ev cfg t (Inr data, s1)) = Resolved r" by (simp add: w)
  show "fld (getFileStatus (fst (settle ev n (worker_finish ev cfg t (Inr data, s1)))) (fileId t))
           ''status'' = JStr ''completed''"
    by (simp add: w settle_def fire_n_idle [OF i] getFileStatus_updateStatus fld_status_record)
  show "fld (getFileStatus (fst (settle ev n (worker_finish ev cfg t (Inr data, s1)))) (fileId t))
           ''progress'' = JNum 100"
    by (simp add: w settle_def fire_n_idle [OF i] getFileStatus_updateStatus fld_status_record)
qed

lemma worker_finish_error:
  assumes "normalizeOcr InWorker (now ev s1) data = Inl e"
  shows "snd (worker_finish ev cfg t (Inr data, s1)) = Rejected e"
    and "fld (getFileStatus (fst (worker_finish ev cfg t (Inr data, s1))) (fileId t))
           ''status'' = JStr ''error''"
  using assms
  by (simp_all add: worker_finish_def caught_def getFileStatus_updateStatus fld_status_record)

text \<open>A first request that is answered ends the calls.\<close>

lemma call_ocr_first_success:
  assumes "post ev (OCR_API_ENDPOINT cfg) (posts s) = Inr d" and "d \<noteq> JUndefined"
  shows "call_ocr ev cfg fid fn fp s = (Inr d, snd (await_post ev (OCR_API_ENDPOINT cfg) s))"
proof -
  have "retry_loop ev cfg fp 0 None s = (Inr d, snd (await_post ev (OCR_API_ENDPOINT cfg) s))"
    using assms
    by (subst retry_loop.simps) (simp add: await_post_def log_snippet_def)
  then show ?thesis by (simp add: call_ocr_def)
qed

lemma normalizeOcr_null:
  "normalizeOcr st clk JNull =
     Inl (TypeError (''Cannot read properties of null (reading '' @ quote ''output'' @ '')''))"
  by (simp add: normalizeOcr_def adopt_def ensure_output_def get_prop_def show_nullish_def)

lemma worker_calls_answered:
  assumes "d \<noteq> JUndefined"
  shows "fst (worker_calls (answering_env d) cfg t s) = Inr d"
  unfolding worker_calls_def
  by (subst call_ocr_first_success [where d = d]) (simp_all add: answering_env_def assms)

lemma normalizeOcr_null_element:
  "normalizeOcr st clk (JArr [JNull] []) =
     Inl (TypeError (''Cannot read properties of null (reading '' @ quote ''output'' @ '')''))"
  by (simp add: normalizeOcr_def adopt_def get_prop_def show_nullish_def)

lemma worker_rejects:
  assumes "\<not> USE_MOCK_DATA cfg" and "fst (worker_calls ev cfg t s) = Inr data"
    and "\<And>clk. normalizeOcr InWorker clk data = Inl e"
  shows "snd (worker ev cfg t s) = Rejected e"
    and "fld (getFileStatus (fst (worker ev cfg t s)) (fileId t)) ''status'' = JStr ''error''"
proof -
  obtain s1 where c: "worker_calls ev cfg t s = (Inr data, s1)"
    using assms(2) by (cases "worker_calls ev cfg t s") simp
  show "snd (worker ev cfg t s) = Rejected e"
    using worker_finish_error(1) [OF assms(3), where cfg = cfg and t = t and ev = ev and ?s1.0 = s1]
    by (simp add: worker_unfold [OF assms(1)] c)
  show "fld (getFileStatus (fst (worker ev cfg t s)) (fileId t)) ''status'' = JStr ''error''"
    using worker_finish_error(2) [OF assms(3), where cfg = cfg and t = t and ev = ev and ?s1.0 = s1]
    by (simp add: worker_unfold [OF assms(1)] c)
qed


text \<open>
  The calls as they run with the package \<open>form-data\<close>: a retry throws at
  \<open>formData.delete\<close> before it opens a stream or sends a request, and so does the attempt
  on the fallback endpoint.
\<close>

lemma retry_loop_first_fail:
  assumes "post ev (OCR_API_ENDPOINT cfg) (posts s) = Inl e1"
  shows "retry_loop ev cfg fp 0 lastError s =
     retry_loop ev cfg fp (Suc 0) (Some e1) (snd (await_post ev (OCR_API_ENDPOINT cfg) s))"
  using assms
  by (subst retry_loop.simps) (simp add: await_post_def)

lemma retry_loop_delete_throws_step:
  assumes "0 < retryCount" and "retryCount \<le> MAX_RETRIES" and "form_delete_error ev = Some e"
  shows "retry_loop ev cfg fp retryCount lastError s =
     retry_loop ev cfg fp (Suc retryCount) (Some e) s"
  using assms
  by (subst retry_loop.simps) (simp add: reset_stream_def)

lemma retry_loop_delete_throws:
  assumes "always_fails ev (OCR_API_ENDPOINT cfg)" and d: "form_delete_error ev = Some e"
  shows "retry_loop ev cfg fp 0 None s =
     (Inl (Some e), snd (await_post ev (OCR_API_ENDPOINT cfg) s))"
proof -
  let ?P = "OCR_API_ENDPOINT cfg"
  define s1 where "s1 = snd (await_post ev ?P s)"
  from assms(1) obtain e1 where e1: "post ev ?P (posts s) = Inl e1"
    unfolding always_fails_def by (metis isl_def)
  have a: "retry_loop ev cfg fp 0 None s = retry_loop ev cfg fp (Suc 0) (Some e1) s1"
    unfolding s1_def by (rule retry_loop_first_fail [OF e1])
  have b: "retry_loop ev cfg fp (Suc 0) (Some e1) s1 =
           retry_loop ev cfg fp (Suc (Suc 0)) (Some e) s1"
    by (rule retry_loop_delete_throws_step [OF _ _ d]) (simp_all add: MAX_RETRIES_def)
  have c: "retry_loop ev cfg fp (Suc (Suc 0)) (Some e) s1 =
           retry_loop ev cfg fp (Suc (Suc (Suc 0))) (Some e) s1"
    by (rule retry_loop_delete_throws_step [OF _ _ d]) (simp_all add: MAX_RETRIES_def)
  have x: "retry_loop ev cfg fp (Suc (Suc (Suc 0))) (Some e) s1 = (Inl (Some e), s1)"
    by (rule retry_loop_exit) (simp add: MAX_RETRIES_def)
  from a b c x show ?thesis by (simp add: s1_def)
qed

lemma call_ocr_delete_throws:
  assumes "always_fails ev (OCR_API_ENDPOINT cfg)" and d: "form_delete_error ev = Some e"
  shows "fst (call_ocr ev cfg fid filename fp s) = Inl (Some e)"
    and "trace (snd (call_ocr ev cfg fid filename fp s)) =
      trace s @ [Post (OCR_API_ENDPOINT cfg) (form s), Notify fid filename (Some e) 3] @
      (if OCR_API_ENDPOINT cfg = FALLBACK_OCR_API_ENDPOINT cfg then []
       else [Notify fid filename (Some e) 4])"
    and "interval (snd (call_ocr ev cfg fid filename fp s)) =
      interval (snd (await_post ev (OCR_API_ENDPOINT cfg) s))"
  unfolding call_ocr_def retry_loop_delete_throws [OF assms]
  by (simp_all add: Let_def reset_stream_def d MAX_RETRIES_def)

lemma worker_delete_throws:
  assumes "always_fails ev (OCR_API_ENDPOINT cfg)" and d: "form_delete_error ev = Some e"
    and "\<not> USE_MOCK_DATA cfg"
  shows "run_events s (fst (worker ev cfg t s)) =
     [CreateReadStream (filePath t) 0, Post (OCR_API_ENDPOINT cfg) [0],
      Notify (fileId t) (JStr (originalname t)) (Some e) 3] @
     (if OCR_API_ENDPOINT cfg = FALLBACK_OCR_API_ENDPOINT cfg then []
      else [Notify (fileId t) (JStr (originalname t)) (Some e) 4])"
proof -
  define s2 where "s2 = attach_stream (filePath t) (worker_begin ev t s)"
  have tr: "trace (fst (worker ev cfg t s)) =
      trace (snd (call_ocr ev cfg (fileId t) (JStr (originalname t)) (filePath t) s2))"
    using assms(3) by (simp add: worker_def trace_worker_finish s2_def)
  show ?thesis
    by (rule run_events_append)
       (simp add: tr call_ocr_delete_throws(2) [OF assms(1,2)] s2_def)
qed

lemma trigger_delete_throws:
  assumes "always_fails ev (OCR_API_ENDPOINT cfg)" and d: "form_delete_error ev = Some e"
    and "truthy (fld (lookup s fid) ''buffer'')"
    and "fld (lookup s fid) ''originalFilename'' = JStr name"
    and "mkdir_error ev = None" and "write_error ev = None"
  shows "run_events s (fst (processQueuedFile ev cfg fid s)) =
     [WriteFile (join_path ev (TEMP_DIR cfg) name) (fld (lookup s fid) ''buffer''),
      CreateReadStream (join_path ev (TEMP_DIR cfg) name) 0, Post (OCR_API_ENDPOINT cfg) [0],
      Notify fid (JStr name) (Some e) 3] @
     (if OCR_API_ENDPOINT cfg = FALLBACK_OCR_API_ENDPOINT cfg then []
      else [Notify fid (JStr name) (Some e) 4]) @
     [Unlink (join_path ev (TEMP_DIR cfg) name)]"
proof -
  define item where "item = lookup s fid"
  define tp where "tp = join_path ev (TEMP_DIR cfg) name"
  define s1 where "s1 = trigger_begin ev fid item s"
  define s2 where "s2 = attach_stream tp (emit (WriteFile tp (fld item ''buffer'')) s1)"
  define c where "c = call_ocr ev cfg fid (JStr name) tp s2"
  have qi: "queued_item s fid = Inr item"
    unfolding item_def by (rule queued_item_buffer [OF assms(3)])
  have mat: "materialize ev cfg item s1 = Inr (tp, s2)"
    unfolding tp_def s2_def
    by (rule materialize_ok [OF assms(5,6)]) (simp add: item_def assms(4))
  have run: "processQueuedFile ev cfg fid s = trigger_finish ev cfg fid (JStr name) tp c"
    using qi mat assms(4) unfolding s1_def item_def c_def
    by (simp add: processQueuedFile_def Let_def)
  have f: "fst c = Inl (Some e)" unfolding c_def by (rule call_ocr_delete_throws(1) [OF assms(1,2)])
  then have ceq: "c = (Inl (Some e), snd c)" by (cases c) simp
  have fin: "trace (fst (trigger_finish ev cfg fid (JStr name) tp c)) = trace (snd c) @ [Unlink tp]"
    by (subst ceq) (simp add: trigger_finish_def Let_def)
  have tc: "trace (snd c) =
      trace s @ [WriteFile tp (fld item ''buffer''), CreateReadStream tp 0,
                 Post (OCR_API_ENDPOINT cfg) [0], Notify fid (JStr name) (Some e) 3] @
      (if OCR_API_ENDPOINT cfg = FALLBACK_OCR_API_ENDPOINT cfg then []
       else [Notify fid (JStr name) (Some e) 4])"
    unfolding c_def by (simp add: call_ocr_delete_throws(2) [OF assms(1,2)] s2_def s1_def)
  show ?thesis
    unfolding tp_def [symmetric] item_def [symmetric]
    by (rule run_events_append) (simp add: run fin tc)
qed

lemma worker_delete_throws_outcome:
  assumes "always_fails ev (OCR_API_ENDPOINT cfg)" and d: "form_delete_error ev = Some e"
    and "\<not> USE_MOCK_DATA cfg" and "\<not> IS_DEV_MODE cfg"
  shows "snd (worker ev cfg t s) = Rejected e"
proof -
  define c where "c = call_ocr ev cfg (fileId t) (JStr (originalname t)) (filePath t)
      (attach_stream (filePath t) (worker_begin ev t s))"
  have "fst c = Inl (Some e)" unfolding c_def by (rule call_ocr_delete_throws(1) [OF assms(1,2)])
  then have ceq: "c = (Inl (Some e), snd c)" by (cases c) simp
  have "snd (worker_finish ev cfg t c) = Rejected e"
    by (subst ceq) (simp add: worker_finish_def assms(4))
  then show ?thesis using assms(3) by (simp add: worker_def c_def)
qed

lemma sample_facts:
  "always_fails failing_env ep"
  "form_delete_error failing_env = Some no_delete"
  "mkdir_error failing_env = None" "write_error failing_env = None"
  "join_path failing_env = plain_join"
  "\<not> USE_MOCK_DATA sample_config" "\<not> IS_DEV_MODE sample_config"
  "OCR_API_ENDPOINT sample_config = ''http://primary/ocr''"
  "FALLBACK_OCR_API_ENDPOINT sample_config = ''http://fallback/ocr''"
  "TEMP_DIR sample_config = ''/uploads/temp''"
  "truthy (fld (lookup sample_queued ''job-2'') ''buffer'')"
  "fld (lookup sample_queued ''job-2'') ''buffer'' = JBuf [37, 80, 68, 70] []"
  "fld (lookup sample_queued ''job-2'') ''originalFilename'' = JStr ''scan.pdf''"
  by (simp_all add: always_fails_def failing_env_def sample_config_def USE_MOCK_DATA_def
      IS_DEV_MODE_def sample_queued_def queueBuffer_def lookup_def fld_def own_def)

text \<open>
  The states of a run are reachable: what a run does to the map, it does through
  \<open>updateStatus\<close>.
\<close>

lemma reachable_map_iff: "reachable_map (store s) = reachable s"
  unfolding reachable_map_def by (auto intro: reachable.map_untouched)

lemma kept_reachable_map: "kept_by_updates reachable_map"
  unfolding kept_by_updates_def
proof (intro allI impI)
  fix st fid status result and progress :: nat and fileInfo updatedAt
  assume a: "reachable_map st \<and> status \<in> {''processing'', ''completed'', ''error''} \<and> progress \<le> 100"
  then obtain s where s: "reachable s" "store s = st" unfolding reachable_map_def by blast
  let ?ev = "failing_env\<lparr>clock := \<lambda>_. \<lparr>epoch_ms = 0, iso = updatedAt\<rparr>\<rparr>"
  have "reachable (updateStatus ?ev fid status result progress fileInfo s)"
    using a by (intro reachable.updated [OF s(1)]) auto
  moreover have "store (updateStatus ?ev fid status result progress fileInfo s) =
      st(fid \<mapsto> status_record fid status result progress fileInfo updatedAt)"
    using s(2) by (simp add: updateStatus_def now_def)
  ultimately show "reachable_map (st(fid \<mapsto> status_record fid status result progress fileInfo updatedAt))"
    unfolding reachable_map_def by blast
qed

lemma reachable_queueFile: "reachable s \<Longrightarrow> reachable (fst (queueFile ev uuid fp name s))"
  unfolding queueFile_def by (simp add: reachable.updated)

lemma reachable_fire: "reachable s \<Longrightarrow> reachable (fire ev s)"
  using kept_fire [OF kept_reachable_map, of s ev] by (simp add: reachable_map_iff)

lemma reachable_fire_n: "reachable s \<Longrightarrow> reachable (fire_n ev n s)"
  using kept_fire_n [OF kept_reachable_map, of s ev n] by (simp add: reachable_map_iff)

lemma reachable_worker_begin: "reachable s \<Longrightarrow> reachable (worker_begin ev t s)"
  using kept_worker_begin [OF kept_reachable_map, of s ev t] by (simp add: reachable_map_iff)

lemma reachable_trigger_begin: "reachable s \<Longrightarrow> reachable (trigger_begin ev fid item s)"
  using kept_trigger_begin [OF kept_reachable_map, of s ev fid item] by (simp add: reachable_map_iff)

lemma reachable_await_post: "reachable s \<Longrightarrow> reachable (snd (await_post ev ep s))"
  using kept_await_post [OF kept_reachable_map, of s ev ep] by (simp add: reachable_map_iff)

lemma reachable_call_ocr:
  "reachable s \<Longrightarrow> reachable (snd (call_ocr ev cfg fid filename fp s))"
  using kept_call_ocr [OF kept_reachable_map, of s ev cfg fid filename fp]
  by (simp add: reachable_map_iff)

lemma reachable_worker: "reachable s \<Longrightarrow> reachable (fst (worker ev cfg t s))"
  using kept_worker [OF kept_reachable_map, of s ev cfg t] by (simp add: reachable_map_iff)

lemma reachable_processQueuedFile:
  "reachable s \<Longrightarrow> reachable (fst (processQueuedFile ev cfg fid s))"
  using kept_processQueuedFile [OF kept_reachable_map, of s ev cfg fid]
  by (simp add: reachable_map_iff)

text \<open>The result in terms of the object the backfill starts from.\<close>

lemma set_output_field_assign:
  assumes "truthy (out_of pd)" and "set_output_field pd k x = Inr r"
  shows "assign pd ''output'' (out_of r) = Inr r"
proof -
  have obj: "is_object pd" using assms(1) unfolding out_of_def by (rule truthy_fld_object)
  then have nn: "\<not> nullish pd" by (cases pd) simp_all
  from assms(2) show ?thesis
    unfolding out_of_set_output_field [OF assms] set_output_field_eq [OF assms(1)]
    by (simp add: assign_ok [OF nn])
qed

lemma assign_output_same:
  assumes "truthy (out_of pd)"
  shows "assign pd ''output'' (out_of pd) = Inr pd"
proof -
  have obj: "is_object pd" using assms(1) unfolding out_of_def by (rule truthy_fld_object)
  then have nn: "\<not> nullish pd" by (cases pd) simp_all
  have "AList.update ''output'' (out_of pd) (props pd) = props pd"
    using assms unfolding out_of_def fld_def by (rule update_own_same)
  then show ?thesis by (simp add: assign_ok [OF nn] with_props_same)
qed

lemma with_props_twice: "with_props (with_props v ps) qs = with_props v qs"
  by (cases v) simp_all

lemma nullish_with_props [simp]: "nullish (with_props v ps) = nullish v"
  by (cases v) simp_all

lemma assign_output_twice:
  assumes "assign pd ''output'' a = Inr p1" and "assign p1 ''output'' b = Inr r"
  shows "assign pd ''output'' b = Inr r"
proof -
  have nn: "\<not> nullish pd" using assms(1) by (auto simp: assign_def split: if_splits)
  have p1: "p1 = with_props pd (AList.update ''output'' a (props pd))"
    using assms(1) nn by (simp add: assign_def)
  show ?thesis
  proof (cases "is_object pd")
    case True
    from assms(2) nn show ?thesis
      unfolding p1 by (simp add: assign_def props_with_props True with_props_twice)
  next
    case False
    then have "p1 = pd" unfolding p1 by (simp add: with_props_prim)
    with assms(2) show ?thesis by simp
  qed
qed

lemma ensure_field_assign:
  assumes "truthy (out_of pd)" and "ensure_field pd k ph = Inr r"
  shows "assign pd ''output'' (out_of r) = Inr r"
  using assms(2) set_output_field_assign [OF assms(1), of k ph r] assign_output_same [OF assms(1)]
  unfolding ensure_field_eq [OF assms(1)]
  by (auto split: if_splits)

lemma ensure_items_assign:
  assumes "truthy (out_of pd)" and "ensure_items pd = Inr r"
  shows "assign pd ''output'' (out_of r) = Inr r"
  using assms(2) set_output_field_assign [OF assms(1), of "''items''" "JArr [] []" r]
    assign_output_same [OF assms(1)]
  unfolding ensure_items_eq [OF assms(1)]
  by (auto split: if_splits)

lemma ensure_essentials_assign:
  assumes "truthy (out_of pd)" and "ensure_essentials clk pd = Inr r"
  shows "assign pd ''output'' (out_of r) = Inr r"
proof -
  from ensure_essentials_stages [OF assms] obtain p1 p2 where
    s1: "ensure_field pd ''nomor_referensi'' (field (JStr (inv_placeholder clk)) True) = Inr p1"
    and s2: "ensure_field p1 ''nama_supplier'' (field (JStr ''Unknown Supplier'') False) = Inr p2"
    and s3: "ensure_field p2 ''tanggal_faktur'' (field (JStr (today clk)) False) = Inr r"
    and t1: "truthy (out_of p1)" and t2: "truthy (out_of p2)"
    by blast
  from assign_output_twice [OF ensure_field_assign [OF assms(1) s1]
      assign_output_twice [OF ensure_field_assign [OF t1 s2] ensure_field_assign [OF t2 s3]]]
  show ?thesis .
qed

lemma ensure_output_falsy:
  assumes "ensure_output x = Inr b" and "\<not> truthy (out_of x)"
  shows "b = JObj [(''output'', JObj (AList.update ''items'' (JArr [] [])
                      (if typeof_is_object x then spread x else [])))]"
proof -
  have nn: "\<not> nullish x" using assms(1)
    by (auto simp: ensure_output_def get_prop_def split: if_splits)
  from assms show ?thesis
    unfolding ensure_output_def by (simp add: get_prop_fld [OF nn] out_of_def)
qed

lemma normalizeOcr_result_fields:
  assumes "normalizeOcr st clk x = Inr r"
  shows "\<exists>b. base_object st clk x = Inr b \<and> truthy (out_of b) \<and>
    (\<not> isArray x \<and> truthy (out_of x) \<longrightarrow> b = x) \<and>
    (\<not> isArray x \<and> \<not> truthy (out_of x) \<longrightarrow>
       b = JObj [(''output'', JObj (AList.update ''items'' (JArr [] [])
                    (if typeof_is_object x then spread x else [])))]) \<and>
    (isArray x \<longrightarrow> adopt st clk x = Inr b) \<and>
    assign b ''output'' (out_of r) = Inr r \<and>
    truthy (out_of r) \<and>
    is_object (out_of r) = is_object (out_of b) \<and>
    (\<not> is_object (out_of b) \<longrightarrow> r = b) \<and>
    (is_object (out_of b) \<longrightarrow>
       (\<forall>k. fld (out_of r) k =
          (if k = ''nomor_referensi'' \<and> \<not> truthy (fld (out_of b) k)
             then field (JStr (inv_placeholder clk)) True
           else if k = ''nama_supplier'' \<and> \<not> truthy (fld (out_of b) k)
             then field (JStr ''Unknown Supplier'') False
           else if k = ''tanggal_faktur'' \<and> \<not> truthy (fld (out_of b) k)
             then field (JStr (today clk)) False
           else if k = ''items'' \<and> \<not> isArray (fld (out_of b) k) then JArr [] []
           else fld (out_of b) k)))"
proof -
  from normalizeOcr_stages [OF assms] obtain pd p1 p2 where
    a: "adopt st clk x = Inr pd" and b: "ensure_output pd = Inr p1"
    and c: "ensure_essentials clk p1 = Inr p2" and d: "ensure_items p2 = Inr r"
    and t1: "truthy (out_of p1)" and t2: "truthy (out_of p2)"
    by blast
  have base: "base_object st clk x = Inr p1" by (simp add: base_object_def a b)
  have k1: "b' = x" if "\<not> isArray x" "truthy (out_of x)" "ensure_output pd = Inr b'" for b'
    using that a by (simp add: adopt_not_array ensure_output_truthy)
  have k2: "p1 = JObj [(''output'', JObj (AList.update ''items'' (JArr [] [])
                    (if typeof_is_object x then spread x else [])))]"
    if "\<not> isArray x" "\<not> truthy (out_of x)"
  proof -
    from that(1) a have "pd = x" by (simp add: adopt_not_array)
    with b that(2) show ?thesis by (simp add: ensure_output_falsy)
  qed
  have k3: "adopt st clk x = Inr p1" if "isArray x"
  proof -
    from that obtain xs ps where x: "x = JArr xs ps" by (cases x) simp_all
    from a have "truthy (out_of pd)" unfolding x by (rule truthy_out_adopt_array)
    with b have "p1 = pd" by (simp add: ensure_output_truthy)
    with a show ?thesis by simp
  qed
  have asg: "assign p1 ''output'' (out_of r) = Inr r"
    by (rule assign_output_twice [OF ensure_essentials_assign [OF t1 c] ensure_items_assign [OF t2 d]])
  have o2: "is_object (out_of p2) = is_object (out_of p1)"
    by (rule ensure_essentials_misc(2) [OF t1 c])
  have tr: "truthy (out_of r)"
    unfolding out_of_ensure_items [OF t2 d] using t2 by simp
  have or: "is_object (out_of r) = is_object (out_of p1)"
    unfolding out_of_ensure_items [OF t2 d] using o2 by simp
  have prim: "r = p1" if "\<not> is_object (out_of p1)"
  proof -
    from that have e: "ensure_field p1 k ph = Inr p1" for k ph
      by (simp add: ensure_field_stable [OF t1])
    from c have "p2 = p1" by (simp add: ensure_essentials_def e)
    with d that show ?thesis by (simp add: ensure_items_stable [OF t1])
  qed
  have f: "fld (out_of r) k =
          (if k = ''nomor_referensi'' \<and> \<not> truthy (fld (out_of p1) k)
             then field (JStr (inv_placeholder clk)) True
           else if k = ''nama_supplier'' \<and> \<not> truthy (fld (out_of p1) k)
             then field (JStr ''Unknown Supplier'') False
           else if k = ''tanggal_faktur'' \<and> \<not> truthy (fld (out_of p1) k)
             then field (JStr (today clk)) False
           else if k = ''items'' \<and> \<not> isArray (fld (out_of p1) k) then JArr [] []
           else fld (out_of p1) k)" if "is_object (out_of p1)" for k
    unfolding fld_ensure_items [OF t2 d] ensure_essentials_fld [OF t1 c] o2
    using that by auto
  from base t1 k1 [OF _ _ b] k2 k3 asg tr or prim f show ?thesis by blast
qed

text \<open>
  A payload whose \<open>output\<close> is a truthy primitive passes the normalizer unchanged; in the
  worker the statement that logs the structure then reads \<open>.items.length\<close> on it and
  throws, and the job ends in \<open>error\<close>.
\<close>

lemma worker_finish_log_error:
  assumes "normalizeOcr InWorker (now ev s1) data = Inr pd" and "log_structure pd = Inl e"
  shows "snd (worker_finish ev cfg t (Inr data, s1)) = Rejected e"
    and "fld (getFileStatus (fst (worker_finish ev cfg t (Inr data, s1))) (fileId t))
           ''status'' = JStr ''error''"
  using assms
  by (simp_all add: worker_finish_def caught_def getFileStatus_updateStatus fld_status_record)

lemma worker_log_rejects:
  assumes "\<not> USE_MOCK_DATA cfg" and "fst (worker_calls ev cfg t s) = Inr data"
    and "\<And>clk. normalizeOcr InWorker clk data = Inr pd" and "log_structure pd = Inl e"
  shows "snd (worker ev cfg t s) = Rejected e"
    and "fld (getFileStatus (fst (worker ev cfg t s)) (fileId t)) ''status'' = JStr ''error''"
proof -
  obtain s1 where c: "worker_calls ev cfg t s = (Inr data, s1)"
    using assms(2) by (cases "worker_calls ev cfg t s") simp
  show "snd (worker ev cfg t s) = Rejected e"
    using worker_finish_log_error(1) [OF assms(3) assms(4), where cfg = cfg and t = t and ev = ev and ?s1.0 = s1]
    by (simp add: worker_unfold [OF assms(1)] c)
  show "fld (getFileStatus (fst (worker ev cfg t s)) (fileId t)) ''status'' = JStr ''error''"
    using worker_finish_log_error(2) [OF assms(3) assms(4), where cfg = cfg and t = t and ev = ev and ?s1.0 = s1]
    by (simp add: worker_unfold [OF assms(1)] c)
qed

lemma normalizeOcr_primitive_output:
  "normalizeOcr st clk (JObj [(''output'', JNum 5)]) = Inr (JObj [(''output'', JNum 5)])"
proof -
  have t: "truthy (out_of (JObj [(''output'', JNum 5)]))"
    by (simp add: out_of_def fld_def own_def)
  have p: "\<not> is_object (out_of (JObj [(''output'', JNum 5)]))"
    by (simp add: out_of_def fld_def own_def)
  have e: "ensure_field (JObj [(''output'', JNum 5)]) k ph = Inr (JObj [(''output'', JNum 5)])" for k ph
    using p by (simp add: ensure_field_stable [OF t])
  have i: "ensure_items (JObj [(''output'', JNum 5)]) = Inr (JObj [(''output'', JNum 5)])"
    using p by (simp add: ensure_items_stable [OF t])
  show ?thesis
    by (simp add: normalizeOcr_def adopt_def ensure_output_truthy [OF t] ensure_essentials_def e i)
qed

lemma payload_primitive_output_ends_in_error:
  "snd (worker (answering_env (JObj [(''output'', JNum 5)])) sample_config sample_task initial_state) =
     Rejected (TypeError (''Cannot read properties of undefined (reading '' @ quote ''length'' @ '')'')) \<and>
   fld (getFileStatus (fst (worker (answering_env (JObj [(''output'', JNum 5)])) sample_config
          sample_task initial_state)) ''job-1'') ''status'' = JStr ''error''"
proof -
  have m: "\<not> USE_MOCK_DATA sample_config"
    by (simp add: USE_MOCK_DATA_def IS_DEV_MODE_def sample_config_def)
  have i: "fileId sample_task = ''job-1''" by (simp add: sample_task_def)
  have c: "fst (worker_calls (answering_env (JObj [(''output'', JNum 5)])) sample_config sample_task
      initial_state) = Inr (JObj [(''output'', JNum 5)])"
    by (rule worker_calls_answered) simp
  have l: "log_structure (JObj [(''output'', JNum 5)]) =
      Inl (TypeError (''Cannot read properties of undefined (reading '' @ quote ''length'' @ '')''))"
    by (simp add: log_structure_def get_prop_def own_def show_nullish_def)
  from worker_log_rejects [OF m c normalizeOcr_primitive_output l] i show ?thesis by simp
qed
section \<open>The claims\<close>

text \<open>
  C1 (amended). Whenever normalization returns, the result is the base object with its
  \<open>output\<close> backfilled, and that \<open>output\<close> is truthy. The base object is, for a payload
  that is not an array, the payload itself when its \<open>output\<close> is truthy and otherwise
  \<open>{output: {...payload, items: []}}\<close> (the fields of the payload copied when it is an
  object, a top-level \<open>items\<close> of the payload replaced by the empty array); for an array
  payload it is the object the rules for arrays pick, the first element with a truthy
  \<open>output\<close> or else the object merged from the elements. When the \<open>output\<close> of the
  base is an object, the \<open>output\<close> of the result is an object with truthy \<open>nomor_referensi\<close>,
  \<open>nama_supplier\<close> and \<open>tanggal_faktur\<close> and an array \<open>items\<close>, and field by field it is
  this: each of the three fields is the one of the base when that is truthy, whether or not
  it is a \<open>{value, is_confident}\<close> pair, and otherwise (absent, \<open>null\<close>, \<open>0\<close>, the empty
  string, \<open>false\<close>) the placeholder \<open>{value: 'INV-<ms>', is_confident: true}\<close>, \<open>{value:
  'Unknown Supplier', is_confident: false}\<close>, \<open>{value: <today>, is_confident: false}\<close>;
  \<open>items\<close> is the one of the base when that is an array and otherwise the empty array;
  every other field, the due date \<open>tgl_jatuh_tempo\<close> among them, is as on the base, absent
  where the base has none. When the \<open>output\<close> of the base is a truthy primitive, the result
  is the base unchanged, with no field in its \<open>output\<close>.
\<close>

theorem normalizeOcr_output_shape:
  assumes "normalizeOcr st clk x = Inr r"
  shows "truthy (out_of r) \<and>
    (is_object (out_of r) \<longrightarrow>
       truthy (fld (out_of r) ''nomor_referensi'') \<and>
       truthy (fld (out_of r) ''nama_supplier'') \<and>
       truthy (fld (out_of r) ''tanggal_faktur'') \<and>
       isArray (fld (out_of r) ''items'')) \<and>
    (\<exists>b. base_object st clk x = Inr b \<and> truthy (out_of b) \<and>
       (\<not> isArray x \<and> truthy (out_of x) \<longrightarrow> b = x) \<and>
       (\<not> isArray x \<and> \<not> truthy (out_of x) \<longrightarrow>
          b = JObj [(''output'', JObj (AList.update ''items'' (JArr [] [])
                       (if typeof_is_object x then spread x else [])))]) \<and>
       (isArray x \<longrightarrow> adopt st clk x = Inr b) \<and>
       assign b ''output'' (out_of r) = Inr r \<and>
       truthy (out_of r) \<and>
       is_object (out_of r) = is_object (out_of b) \<and>
       (\<not> is_object (out_of b) \<longrightarrow> r = b) \<and>
       (is_object (out_of b) \<longrightarrow>
          (\<forall>k. fld (out_of r) k =
             (if k = ''nomor_referensi'' \<and> \<not> truthy (fld (out_of b) k)
                then field (JStr (inv_placeholder clk)) True
              else if k = ''nama_supplier'' \<and> \<not> truthy (fld (out_of b) k)
                then field (JStr ''Unknown Supplier'') False
              else if k = ''tanggal_faktur'' \<and> \<not> truthy (fld (out_of b) k)
                then field (JStr (today clk)) False
              else if k = ''items'' \<and> \<not> isArray (fld (out_of b) k) then JArr [] []
              else fld (out_of b) k))))"
proof -
  have s: "truthy (out_of r) \<and>
    (is_object (out_of r) \<longrightarrow>
       truthy (fld (out_of r) ''nomor_referensi'') \<and>
       truthy (fld (out_of r) ''nama_supplier'') \<and>
       truthy (fld (out_of r) ''tanggal_faktur'') \<and>
       isArray (fld (out_of r) ''items''))"
    by (rule normalizeOcr_result_shape [OF assms])
  show ?thesis
    by (intro conjI conjunct1 [OF s] conjunct2 [OF s] normalizeOcr_result_fields [OF assms])
qed

text \<open>
  The theorem at a payload whose \<open>output\<close> has a reference number that is a plain string,
  an empty supplier name, a number for \<open>items\<close>, a field of its own and no dates: the string
  and the extra field are kept, the supplier name and the invoice date are placeholders,
  \<open>items\<close> is the empty array, and there is no due date.
\<close>

theorem normalizeOcr_output_shape_witness:
  "normalizeOcr InTrigger \<lparr>epoch_ms = 1234, iso = ''2025-03-05T10:00:00.000Z''\<rparr>
      (JObj [(''output'', JObj [(''nomor_referensi'', JStr ''A-1''), (''nama_supplier'', JStr []),
                                (''items'', JNum 5), (''note'', JNum 7)]),
             (''status'', JStr ''ok'')]) =
     Inr (JObj [(''output'', JObj
               [(''nomor_referensi'', JStr ''A-1''),
                (''nama_supplier'', JObj [(''value'', JStr ''Unknown Supplier''), (''is_confident'', JBool False)]),
                (''items'', JArr [] []), (''note'', JNum 7),
                (''tanggal_faktur'', JObj [(''value'', JStr ''2025-03-05''), (''is_confident'', JBool False)])]),
             (''status'', JStr ''ok'')]) \<and>
   base_object InTrigger \<lparr>epoch_ms = 1234, iso = ''2025-03-05T10:00:00.000Z''\<rparr>
      (JObj [(''output'', JObj [(''nomor_referensi'', JStr ''A-1''), (''nama_supplier'', JStr []),
                                (''items'', JNum 5), (''note'', JNum 7)]),
             (''status'', JStr ''ok'')]) =
     Inr (JObj [(''output'', JObj [(''nomor_referensi'', JStr ''A-1''), (''nama_supplier'', JStr []),
                                (''items'', JNum 5), (''note'', JNum 7)]),
             (''status'', JStr ''ok'')]) \<and>
   fld (out_of (JObj [(''output'', JObj
               [(''nomor_referensi'', JStr ''A-1''),
                (''nama_supplier'', JObj [(''value'', JStr ''Unknown Supplier''), (''is_confident'', JBool False)]),
                (''items'', JArr [] []), (''note'', JNum 7),
                (''tanggal_faktur'', JObj [(''value'', JStr ''2025-03-05''), (''is_confident'', JBool False)])]),
             (''status'', JStr ''ok'')])) ''nomor_referensi'' = JStr ''A-1'' \<and>
   fld (out_of (JObj [(''output'', JObj
               [(''nomor_referensi'', JStr ''A-1''),
                (''nama_supplier'', JObj [(''value'', JStr ''Unknown Supplier''), (''is_confident'', JBool False)]),
                (''items'', JArr [] []), (''note'', JNum 7),
                (''tanggal_faktur'', JObj [(''value'', JStr ''2025-03-05''), (''is_confident'', JBool False)])]),
             (''status'', JStr ''ok'')])) ''nama_supplier'' = field (JStr ''Unknown Supplier'') False \<and>
   fld (out_of (JObj [(''output'', JObj
               [(''nomor_referensi'', JStr ''A-1''),
                (''nama_supplier'', JObj [(''value'', JStr ''Unknown Supplier''), (''is_confident'', JBool False)]),
                (''items'', JArr [] []), (''note'', JNum 7),
                (''tanggal_faktur'', JObj [(''value'', JStr ''2025-03-05''), (''is_confident'', JBool False)])]),
             (''status'', JStr ''ok'')])) ''tanggal_faktur'' = field (JStr ''2025-03-05'') False \<and>
   fld (out_of (JObj [(''output'', JObj
               [(''nomor_referensi'', JStr ''A-1''),
                (''nama_supplier'', JObj [(''value'', JStr ''Unknown Supplier''), (''is_confident'', JBool False)]),
                (''items'', JArr [] []), (''note'', JNum 7),
                (''tanggal_faktur'', JObj [(''value'', JStr ''2025-03-05''), (''is_confident'', JBool False)])]),
             (''status'', JStr ''ok'')])) ''items'' = JArr [] [] \<and>
   fld (out_of (JObj [(''output'', JObj
               [(''nomor_referensi'', JStr ''A-1''),
                (''nama_supplier'', JObj [(''value'', JStr ''Unknown Supplier''), (''is_confident'', JBool False)]),
                (''items'', JArr [] []), (''note'', JNum 7),
                (''tanggal_faktur'', JObj [(''value'', JStr ''2025-03-05''), (''is_confident'', JBool False)])]),
             (''status'', JStr ''ok'')])) ''note'' = JNum 7 \<and>
   fld (out_of (JObj [(''output'', JObj
               [(''nomor_referensi'', JStr ''A-1''),
                (''nama_supplier'', JObj [(''value'', JStr ''Unknown Supplier''), (''is_confident'', JBool False)]),
                (''items'', JArr [] []), (''note'', JNum 7),
                (''tanggal_faktur'', JObj [(''value'', JStr ''2025-03-05''), (''is_confident'', JBool False)])]),
             (''status'', JStr ''ok'')])) ''tgl_jatuh_tempo'' = JUndefined \<and>
   fld (JObj [(''output'', JObj
               [(''nomor_referensi'', JStr ''A-1''),
                (''nama_supplier'', JObj [(''value'', JStr ''Unknown Supplier''), (''is_confident'', JBool False)]),
                (''items'', JArr [] []), (''note'', JNum 7),
                (''tanggal_faktur'', JObj [(''value'', JStr ''2025-03-05''), (''is_confident'', JBool False)])]),
             (''status'', JStr ''ok'')]) ''status'' = JStr ''ok''"
proof -
  have e: "normalizeOcr InTrigger \<lparr>epoch_ms = 1234, iso = ''2025-03-05T10:00:00.000Z''\<rparr>
      (JObj [(''output'', JObj [(''nomor_referensi'', JStr ''A-1''), (''nama_supplier'', JStr []),
                                (''items'', JNum 5), (''note'', JNum 7)]),
             (''status'', JStr ''ok'')]) =
     Inr (JObj [(''output'', JObj
               [(''nomor_referensi'', JStr ''A-1''),
                (''nama_supplier'', JObj [(''value'', JStr ''Unknown Supplier''), (''is_confident'', JBool False)]),
                (''items'', JArr [] []), (''note'', JNum 7),
                (''tanggal_faktur'', JObj [(''value'', JStr ''2025-03-05''), (''is_confident'', JBool False)])]),
             (''status'', JStr ''ok'')])"
    by code_simp
  have b: "base_object InTrigger \<lparr>epoch_ms = 1234, iso = ''2025-03-05T10:00:00.000Z''\<rparr>
      (JObj [(''output'', JObj [(''nomor_referensi'', JStr ''A-1''), (''nama_supplier'', JStr []),
                                (''items'', JNum 5), (''note'', JNum 7)]),
             (''status'', JStr ''ok'')]) =
     Inr (JObj [(''output'', JObj [(''nomor_referensi'', JStr ''A-1''), (''nama_supplier'', JStr []),
                                (''items'', JNum 5), (''note'', JNum 7)]),
             (''status'', JStr ''ok'')])"
    by code_simp
  have c: "fld (out_of (JObj [(''output'', JObj
               [(''nomor_referensi'', JStr ''A-1''),
                (''nama_supplier'', JObj [(''value'', JStr ''Unknown Supplier''), (''is_confident'', JBool False)]),
                (''items'', JArr [] []), (''note'', JNum 7),
                (''tanggal_faktur'', JObj [(''value'', JStr ''2025-03-05''), (''is_confident'', JBool False)])]),
             (''status'', JStr ''ok'')])) ''nomor_referensi'' = JStr ''A-1'' \<and>
   fld (out_of (JObj [(''output'', JObj
               [(''nomor_referensi'', JStr ''A-1''),
                (''nama_supplier'', JObj [(''value'', JStr ''Unknown Supplier''), (''is_confident'', JBool False)]),
                (''items'', JArr [] []), (''note'', JNum 7),
                (''tanggal_faktur'', JObj [(''value'', JStr ''2025-03-05''), (''is_confident'', JBool False)])]),
             (''status'', JStr ''ok'')])) ''nama_supplier'' = field (JStr ''Unknown Supplier'') False \<and>
   fld (out_of (JObj [(''output'', JObj
               [(''nomor_referensi'', JStr ''A-1''),
                (''nama_supplier'', JObj [(''value'', JStr ''Unknown Supplier''), (''is_confident'', JBool False)]),
                (''items'', JArr [] []), (''note'', JNum 7),
                (''tanggal_faktur'', JObj [(''value'', JStr ''2025-03-05''), (''is_confident'', JBool False)])]),
             (''status'', JStr ''ok'')])) ''tanggal_faktur'' = field (JStr ''2025-03-05'') False \<and>
   fld (out_of (JObj [(''output'', JObj
               [(''nomor_referensi'', JStr ''A-1''),
                (''nama_supplier'', JObj [(''value'', JStr ''Unknown Supplier''), (''is_confident'', JBool False)]),
                (''items'', JArr [] []), (''note'', JNum 7),
                (''tanggal_faktur'', JObj [(''value'', JStr ''2025-03-05''), (''is_confident'', JBool False)])]),
             (''status'', JStr ''ok'')])) ''items'' = JArr [] [] \<and>
   fld (out_of (JObj [(''output'', JObj
               [(''nomor_referensi'', JStr ''A-1''),
                (''nama_supplier'', JObj [(''value'', JStr ''Unknown Supplier''), (''is_confident'', JBool False)]),
                (''items'', JArr [] []), (''note'', JNum 7),
                (''tanggal_faktur'', JObj [(''value'', JStr ''2025-03-05''), (''is_confident'', JBool False)])]),
             (''status'', JStr ''ok'')])) ''note'' = JNum 7 \<and>
   fld (out_of (JObj [(''output'', JObj
               [(''nomor_referensi'', JStr ''A-1''),
                (''nama_supplier'', JObj [(''value'', JStr ''Unknown Supplier''), (''is_confident'', JBool False)]),
                (''items'', JArr [] []), (''note'', JNum 7),
                (''tanggal_faktur'', JObj [(''value'', JStr ''2025-03-05''), (''is_confident'', JBool False)])]),
             (''status'', JStr ''ok'')])) ''tgl_jatuh_tempo'' = JUndefined \<and>
   fld (JObj [(''output'', JObj
               [(''nomor_referensi'', JStr ''A-1''),
                (''nama_supplier'', JObj [(''value'', JStr ''Unknown Supplier''), (''is_confident'', JBool False)]),
                (''items'', JArr [] []), (''note'', JNum 7),
                (''tanggal_faktur'', JObj [(''value'', JStr ''2025-03-05''), (''is_confident'', JBool False)])]),
             (''status'', JStr ''ok'')]) ''status'' = JStr ''ok''"
    by code_simp
  from normalizeOcr_output_shape [OF e] e b c show ?thesis by simp
qed

text \<open>
  C1 as stated fails: the empty object comes back without \<open>tgl_jatuh_tempo\<close> (in both
  copies of the normalizer), and a payload whose \<open>output\<close> is the number 5 comes back from
  the copy in \<open>processQueuedFile\<close> unchanged, with no field at all.
\<close>

theorem normalizeOcr_four_fields_counterexample:
  "normalizeOcr InWorker \<lparr>epoch_ms = 1234, iso = ''2025-03-05T10:00:00.000Z''\<rparr> (JObj []) =
     Inr (JObj [(''output'', JObj
       [(''items'', JArr [] []),
        (''nomor_referensi'', JObj [(''value'', JStr ''INV-1234''), (''is_confident'', JBool True)]),
        (''nama_supplier'', JObj [(''value'', JStr ''Unknown Supplier''), (''is_confident'', JBool False)]),
        (''tanggal_faktur'', JObj [(''value'', JStr ''2025-03-05''), (''is_confident'', JBool False)])])])
   \<and> normalizeOcr InTrigger \<lparr>epoch_ms = 1234, iso = ''2025-03-05T10:00:00.000Z''\<rparr> (JObj []) =
     Inr (JObj [(''output'', JObj
       [(''items'', JArr [] []),
        (''nomor_referensi'', JObj [(''value'', JStr ''INV-1234''), (''is_confident'', JBool True)]),
        (''nama_supplier'', JObj [(''value'', JStr ''Unknown Supplier''), (''is_confident'', JBool False)]),
        (''tanggal_faktur'', JObj [(''value'', JStr ''2025-03-05''), (''is_confident'', JBool False)])])])
   \<and> normalizeOcr InTrigger \<lparr>epoch_ms = 1234, iso = ''2025-03-05T10:00:00.000Z''\<rparr>
        (JObj [(''output'', JNum 5)]) = Inr (JObj [(''output'', JNum 5)])
   \<and> fld (out_of (JObj [(''output'', JObj
       [(''items'', JArr [] []),
        (''nomor_referensi'', JObj [(''value'', JStr ''INV-1234''), (''is_confident'', JBool True)]),
        (''nama_supplier'', JObj [(''value'', JStr ''Unknown Supplier''), (''is_confident'', JBool False)]),
        (''tanggal_faktur'', JObj [(''value'', JStr ''2025-03-05''), (''is_confident'', JBool False)])])]))
       ''tgl_jatuh_tempo'' = JUndefined
   \<and> fld (out_of (JObj [(''output'', JNum 5)])) ''nomor_referensi'' = JUndefined"
  by code_simp

text \<open>
  C2 (amended). When the job is not in the status map, or its record holds no buffer,
  \<open>processQueuedFile\<close> rejects with the not-found error, sends no request and touches no
  file; but the \<open>catch\<close> that rejects also calls \<open>updateStatus\<close>, so the record of that job
  is overwritten (or created) with an \<open>error\<close> record carrying the message. The records of
  all other jobs stay as they are.
\<close>

theorem trigger_not_found:
  assumes "\<not> truthy (fld (lookup s fid) ''buffer'')"
  shows "snd (processQueuedFile ev cfg fid s) =
           Rejected (Error ((if truthy (lookup s fid) then ''File buffer not found for ID: ''
                             else ''No queued file found with ID: '') @ fid)) \<and>
         store (fst (processQueuedFile ev cfg fid s)) =
           (store s)(fid \<mapsto> status_record fid ''error''
              (JObj [(''message'',
                 JStr ((if truthy (lookup s fid) then ''File buffer not found for ID: ''
                        else ''No queued file found with ID: '') @ fid))]) 0 JNull
              (iso (now ev s))) \<and>
         trace (fst (processQueuedFile ev cfg fid s)) = trace s \<and>
         interval (fst (processQueuedFile ev cfg fid s)) = interval s"
  using queued_item_no_buffer [OF assms]
  by (simp add: processQueuedFile_def caught_def error_result_def)

text \<open>The theorem at a job that was never queued.\<close>

theorem trigger_not_found_witness:
  "\<not> truthy (fld (lookup initial_state ''job-9'') ''buffer'') \<and>
   snd (processQueuedFile failing_env sample_config ''job-9'' initial_state) =
     Rejected (Error ''No queued file found with ID: job-9'') \<and>
   trace (fst (processQueuedFile failing_env sample_config ''job-9'' initial_state)) = []"
proof -
  have h: "\<not> truthy (fld (lookup initial_state ''job-9'') ''buffer'')"
    by (simp add: lookup_def initial_state_def fld_def own_def)
  have l: "\<not> truthy (lookup initial_state ''job-9'')"
    by (simp add: lookup_def initial_state_def)
  have t: "trace initial_state = []" by (simp add: initial_state_def)
  from trigger_not_found [OF h, of failing_env sample_config] h l t show ?thesis by simp
qed

text \<open>
  C2 as stated fails: the map has no record for the job before the call and an \<open>error\<close>
  record for it after the call.
\<close>

theorem trigger_not_found_counterexample:
  "store initial_state ''job-9'' = None \<and>
   store (fst (processQueuedFile failing_env sample_config ''job-9'' initial_state)) ''job-9'' =
     Some (JObj [(''id'', JStr ''job-9''),
                 (''status'', JStr ''error''),
                 (''result'', JObj [(''message'', JStr ''No queued file found with ID: job-9'')]),
                 (''progress'', JNum 0),
                 (''fileInfo'', JNull),
                 (''updatedAt'', JStr ''2025-03-05T10:00:00.000Z'')])"
  by (simp add: initial_state_def processQueuedFile_def queued_item_def lookup_def caught_def
      updateStatus_def status_record_def error_result_def now_def failing_env_def
      sample_clock_def)

text \<open>
  C3. A primary endpoint that fails on every call should be tried three times, the file
  read anew for each attempt, before the fallback is consulted. The code does not do
  that: the retries call \<open>formData.delete('file')\<close>, which the forms of the package
  \<open>form-data\<close> do not have, so each retry throws inside its \<open>try\<close> before a stream is
  opened or a request is sent. A run sends one request to the primary endpoint, notifies
  the failure, and is rejected with the \<open>TypeError\<close> of the library call. This is so in the
  worker of the queue and in \<open>processQueuedFile\<close>.
\<close>

theorem primary_tried_once:
  "always_fails failing_env (OCR_API_ENDPOINT sample_config) \<and>
   run_events initial_state
      (fst (worker failing_env sample_config sample_task initial_state)) =
     [CreateReadStream ''/uploads/a.pdf'' 0, Post ''http://primary/ocr'' [0],
      Notify ''job-1'' (JStr ''a.pdf'') (Some no_delete) 3,
      Notify ''job-1'' (JStr ''a.pdf'') (Some no_delete) 4] \<and>
   snd (worker failing_env sample_config sample_task initial_state) = Rejected no_delete \<and>
   run_events sample_queued
      (fst (processQueuedFile failing_env sample_config ''job-2'' sample_queued)) =
     [WriteFile ''/uploads/temp/scan.pdf'' (JBuf [37, 80, 68, 70] []),
      CreateReadStream ''/uploads/temp/scan.pdf'' 0, Post ''http://primary/ocr'' [0],
      Notify ''job-2'' (JStr ''scan.pdf'') (Some no_delete) 3,
      Notify ''job-2'' (JStr ''scan.pdf'') (Some no_delete) 4,
      Unlink ''/uploads/temp/scan.pdf'']"
proof -
  have w: "run_events initial_state
      (fst (worker failing_env sample_config sample_task initial_state)) =
     [CreateReadStream ''/uploads/a.pdf'' 0, Post ''http://primary/ocr'' [0],
      Notify ''job-1'' (JStr ''a.pdf'') (Some no_delete) 3,
      Notify ''job-1'' (JStr ''a.pdf'') (Some no_delete) 4]"
    using worker_delete_throws [OF sample_facts(1,2,6), where s = initial_state
        and t = sample_task]
    by (simp add: sample_facts sample_task_def)
  have o: "snd (worker failing_env sample_config sample_task initial_state) = Rejected no_delete"
    by (rule worker_delete_throws_outcome [OF sample_facts(1,2,6,7)])
  have q: "run_events sample_queued
      (fst (processQueuedFile failing_env sample_config ''job-2'' sample_queued)) =
     [WriteFile ''/uploads/temp/scan.pdf'' (JBuf [37, 80, 68, 70] []),
      CreateReadStream ''/uploads/temp/scan.pdf'' 0, Post ''http://primary/ocr'' [0],
      Notify ''job-2'' (JStr ''scan.pdf'') (Some no_delete) 3,
      Notify ''job-2'' (JStr ''scan.pdf'') (Some no_delete) 4,
      Unlink ''/uploads/temp/scan.pdf'']"
    using trigger_delete_throws [OF sample_facts(1,2,11,13,3,4), where cfg = sample_config]
    by (simp add: sample_facts plain_join_def)
  from sample_facts(1) w o q show ?thesis by simp
qed

text \<open>
  C4. A fallback endpoint that differs from the primary one should be attempted exactly
  once when the primary attempts are exhausted. The code does not do that: the attempt on
  the fallback calls \<open>formData.delete('file')\<close> first, inside its \<open>try\<close>, and with the
  package \<open>form-data\<close> that call throws, so no request reaches the fallback endpoint. With
  two endpoints configured and the primary one failing, the only request of a run is the
  first one to the primary endpoint.
\<close>

theorem fallback_never_called:
  "OCR_API_ENDPOINT sample_config = ''http://primary/ocr'' \<and>
   FALLBACK_OCR_API_ENDPOINT sample_config = ''http://fallback/ocr'' \<and>
   always_fails failing_env (OCR_API_ENDPOINT sample_config) \<and>
   endpoints_called (run_events initial_state
      (fst (worker failing_env sample_config sample_task initial_state))) =
     [''http://primary/ocr''] \<and>
   endpoints_called (run_events sample_queued
      (fst (processQueuedFile failing_env sample_config ''job-2'' sample_queued))) =
     [''http://primary/ocr'']"
proof -
  have w: "endpoints_called (run_events initial_state
      (fst (worker failing_env sample_config sample_task initial_state))) =
     [''http://primary/ocr'']"
    using worker_delete_throws [OF sample_facts(1,2,6), where s = initial_state
        and t = sample_task]
    by (simp add: sample_facts)
  have q: "endpoints_called (run_events sample_queued
      (fst (processQueuedFile failing_env sample_config ''job-2'' sample_queued))) =
     [''http://primary/ocr'']"
    using trigger_delete_throws [OF sample_facts(1,2,11,13,3,4), where cfg = sample_config]
    by (simp add: sample_facts)
  from sample_facts(1,8,9) w q show ?thesis by simp
qed

text \<open>
  C5. No shape of a successful response should make the job end in \<open>error\<close>; the
  defaulting rules should absorb it. The code misses the case of \<open>null\<close>: when the endpoint
  answers with \<open>null\<close>, or with an array holding \<open>null\<close>, reading \<open>.output\<close> throws, the
  worker rejects with that \<open>TypeError\<close> and the job is left in the \<open>error\<close> status.
\<close>

theorem payload_null_ends_in_error:
  "snd (worker (answering_env JNull) sample_config sample_task initial_state) =
     Rejected (TypeError (''Cannot read properties of null (reading '' @ quote ''output'' @ '')'')) \<and>
   fld (getFileStatus (fst (worker (answering_env JNull) sample_config sample_task initial_state))
        ''job-1'') ''status'' = JStr ''error'' \<and>
   snd (worker (answering_env (JArr [JNull] [])) sample_config sample_task initial_state) =
     Rejected (TypeError (''Cannot read properties of null (reading '' @ quote ''output'' @ '')'')) \<and>
   fld (getFileStatus (fst (worker (answering_env (JArr [JNull] [])) sample_config sample_task
          initial_state)) ''job-1'') ''status'' = JStr ''error''"
proof -
  have m: "\<not> USE_MOCK_DATA sample_config"
    by (simp add: USE_MOCK_DATA_def IS_DEV_MODE_def sample_config_def)
  have i: "fileId sample_task = ''job-1''" by (simp add: sample_task_def)
  have c1: "fst (worker_calls (answering_env JNull) sample_config sample_task initial_state) =
      Inr JNull"
    by (rule worker_calls_answered) simp
  have c2: "fst (worker_calls (answering_env (JArr [JNull] [])) sample_config sample_task
      initial_state) = Inr (JArr [JNull] [])"
    by (rule worker_calls_answered) simp
  from worker_rejects [OF m c1 normalizeOcr_null] worker_rejects [OF m c2 normalizeOcr_null_element]
    i show ?thesis by simp
qed

text \<open>
  C6. Normalization is idempotent: for a parsed JSON payload on which normalization returns
  a result, normalizing that result again, at either site and at any later clock reading,
  returns it unchanged.
\<close>

theorem normalizeOcr_idempotent:
  assumes "json x" and "normalizeOcr st clk x = Inr r"
  shows "normalizeOcr st' clk' r = Inr r"
proof -
  from normalizeOcr_stages [OF assms(2)] obtain pd p1 p2 where
    a: "adopt st clk x = Inr pd" and b: "ensure_output pd = Inr p1"
    and c: "ensure_essentials clk p1 = Inr p2" and d: "ensure_items p2 = Inr r"
    and t1: "truthy (out_of p1)" and t2: "truthy (out_of p2)"
    by blast
  have "\<not> isArray pd" by (rule adopt_json_not_array [OF assms(1) a])
  then have "\<not> isArray p1" by (rule isArray_ensure_output [OF b])
  then have "\<not> isArray p2" using ensure_essentials_misc(3) [OF t1 c] by simp
  then have na: "\<not> isArray r" using isArray_ensure_items [OF t2 d] by simp
  from normalizeOcr_result_shape [OF assms(2)]
  have tr: "truthy (out_of r)"
    and f1: "is_object (out_of r) \<longrightarrow> truthy (fld (out_of r) ''nomor_referensi'')"
    and f2: "is_object (out_of r) \<longrightarrow> truthy (fld (out_of r) ''nama_supplier'')"
    and f3: "is_object (out_of r) \<longrightarrow> truthy (fld (out_of r) ''tanggal_faktur'')"
    and f4: "is_object (out_of r) \<longrightarrow> isArray (fld (out_of r) ''items'')"
    by simp_all
  have e: "ensure_essentials clk' r = Inr r"
    unfolding ensure_essentials_def
    by (simp add: ensure_field_stable [OF tr f1] ensure_field_stable [OF tr f2]
        ensure_field_stable [OF tr f3])
  show ?thesis
    unfolding normalizeOcr_def
    by (simp add: adopt_not_array [OF na] ensure_output_truthy [OF tr] e
        ensure_items_stable [OF tr f4])
qed

text \<open>The theorem at the empty object, renormalized in \<open>processQueuedFile\<close> later on.\<close>

theorem normalizeOcr_idempotent_witness:
  "json (JObj []) \<and>
   normalizeOcr InWorker \<lparr>epoch_ms = 1234, iso = ''2025-03-05T10:00:00.000Z''\<rparr> (JObj []) =
     Inr (JObj [(''output'', JObj
       [(''items'', JArr [] []),
        (''nomor_referensi'', JObj [(''value'', JStr ''INV-1234''), (''is_confident'', JBool True)]),
        (''nama_supplier'', JObj [(''value'', JStr ''Unknown Supplier''), (''is_confident'', JBool False)]),
        (''tanggal_faktur'', JObj [(''value'', JStr ''2025-03-05''), (''is_confident'', JBool False)])])])
   \<and> normalizeOcr InTrigger \<lparr>epoch_ms = 99999, iso = ''2026-01-01T00:00:00.000Z''\<rparr>
     (JObj [(''output'', JObj
       [(''items'', JArr [] []),
        (''nomor_referensi'', JObj [(''value'', JStr ''INV-1234''), (''is_confident'', JBool True)]),
        (''nama_supplier'', JObj [(''value'', JStr ''Unknown Supplier''), (''is_confident'', JBool False)]),
        (''tanggal_faktur'', JObj [(''value'', JStr ''2025-03-05''), (''is_confident'', JBool False)])])]) =
     Inr (JObj [(''output'', JObj
       [(''items'', JArr [] []),
        (''nomor_referensi'', JObj [(''value'', JStr ''INV-1234''), (''is_confident'', JBool True)]),
        (''nama_supplier'', JObj [(''value'', JStr ''Unknown Supplier''), (''is_confident'', JBool False)]),
        (''tanggal_faktur'', JObj [(''value'', JStr ''2025-03-05''), (''is_confident'', JBool False)])])])"
proof -
  have j: "json (JObj [])" by simp
  have e: "normalizeOcr InWorker \<lparr>epoch_ms = 1234, iso = ''2025-03-05T10:00:00.000Z''\<rparr> (JObj []) =
     Inr (JObj [(''output'', JObj
       [(''items'', JArr [] []),
        (''nomor_referensi'', JObj [(''value'', JStr ''INV-1234''), (''is_confident'', JBool True)]),
        (''nama_supplier'', JObj [(''value'', JStr ''Unknown Supplier''), (''is_confident'', JBool False)]),
        (''tanggal_faktur'', JObj [(''value'', JStr ''2025-03-05''), (''is_confident'', JBool False)])])])"
    by code_simp
  from normalizeOcr_idempotent [OF j e, of InTrigger
      "\<lparr>epoch_ms = 99999, iso = ''2026-01-01T00:00:00.000Z''\<rparr>"] j e
  show ?thesis by simp
qed




text \<open>
  C8 (amended). At every moment, inside a run as well as between runs, \<open>getFileStatus\<close>
  returns one of three shapes: for a job that is not in the map the three fields \<open>{id,
  status: 'not_found', progress: 0}\<close>; for a record written by \<open>updateStatus\<close> the six
  fields \<open>id\<close>, \<open>status\<close>, \<open>result\<close>, \<open>progress\<close>, \<open>fileInfo\<close>, \<open>updatedAt\<close> with a status
  out of \<open>queued\<close>, \<open>processing\<close>, \<open>completed\<close>, \<open>error\<close> and a progress between 0 and
  100; for a buffered job that was not triggered yet the record \<open>queueBuffer\<close> stored, with
  the fields \<open>id\<close>, \<open>originalFilename\<close>, \<open>status\<close>, \<open>mimetype\<close>, \<open>queuedAt\<close>, \<open>buffer\<close>,
  \<open>dataSize\<close>, \<open>results\<close>, \<open>error\<close>.
\<close>

theorem getFileStatus_shapes:
  assumes "reachable s"
  shows "(store s fid = None \<longrightarrow> getFileStatus s fid = not_found_stub fid) \<and>
         (\<forall>r. store s fid = Some r \<longrightarrow>
            getFileStatus s fid = r \<and> (status_shape fid r \<or> buffer_shape fid r))"
  using assms by (rule getFileStatus_shapes_aux)

text \<open>
  The theorem in the middle of a run: a buffer is queued, the worker has started on another
  job and the interval has fired once while the first request is pending. The lookups are
  those of a job that was never submitted, of the buffered job and of the job in work.
\<close>

theorem getFileStatus_shapes_witness:
  "reachable (fire failing_env (worker_begin failing_env sample_task sample_queued)) \<and>
   getFileStatus (fire failing_env (worker_begin failing_env sample_task sample_queued)) ''job-0'' =
     not_found_stub ''job-0'' \<and>
   buffer_shape ''job-2''
     (getFileStatus (fire failing_env (worker_begin failing_env sample_task sample_queued)) ''job-2'') \<and>
   status_shape ''job-1''
     (getFileStatus (fire failing_env (worker_begin failing_env sample_task sample_queued)) ''job-1'') \<and>
   fld (getFileStatus (fire failing_env (worker_begin failing_env sample_task sample_queued)) ''job-1'')
     ''status'' = JStr ''processing'' \<and>
   fld (getFileStatus (fire failing_env (worker_begin failing_env sample_task sample_queued)) ''job-1'')
     ''progress'' = JNum 5"
proof -
  let ?s = "fire failing_env (worker_begin failing_env sample_task sample_queued)"
  have q: "reachable sample_queued"
    unfolding sample_queued_def by (rule reachable.queued_buffer [OF reachable.start])
  have r: "reachable ?s" by (rule reachable_fire [OF reachable_worker_begin [OF q]])
  have st: "store ?s = (store sample_queued)
      (''job-1'' \<mapsto> status_record ''job-1'' ''processing'' JNull 5 (file_info sample_task)
                      ''2025-03-05T10:00:00.000Z'')"
    by (simp add: fire_def worker_begin_def setInterval_def sample_task_def now_def
        failing_env_def sample_clock_def)
  have n: "store ?s ''job-0'' = None"
    unfolding st by (simp add: sample_queued_def queueBuffer_def initial_state_def)
  obtain rec where b: "store ?s ''job-2'' = Some rec"
    unfolding st by (simp add: sample_queued_def queueBuffer_def)
  have nb: "\<not> status_shape ''job-2'' rec"
    using b unfolding st
    by (auto simp: sample_queued_def queueBuffer_def status_shape_def keys_def)
  have w: "store ?s ''job-1'' = Some (status_record ''job-1'' ''processing'' JNull 5
      (file_info sample_task) ''2025-03-05T10:00:00.000Z'')"
    unfolding st by simp
  have nw: "\<not> buffer_shape ''job-1'' (status_record ''job-1'' ''processing'' JNull 5
      (file_info sample_task) ''2025-03-05T10:00:00.000Z'')"
    by (simp add: buffer_shape_def keys_status_record)
  from getFileStatus_shapes [OF r, of "''job-0''"] n
  have c1: "getFileStatus ?s ''job-0'' = not_found_stub ''job-0''" by simp
  from getFileStatus_shapes [OF r, of "''job-2''"] b nb
  have c2: "buffer_shape ''job-2'' (getFileStatus ?s ''job-2'')" by auto
  from getFileStatus_shapes [OF r, of "''job-1''"] w nw
  have c3: "getFileStatus ?s ''job-1'' = status_record ''job-1'' ''processing'' JNull 5
      (file_info sample_task) ''2025-03-05T10:00:00.000Z''"
    and c4: "status_shape ''job-1'' (getFileStatus ?s ''job-1'')" by auto
  from r c1 c2 c4 show ?thesis unfolding c3 by (simp add: fld_status_record)
qed

text \<open>
  C8 as stated fails for a job that was never submitted and for a buffered job that was
  not triggered: neither lookup has the six fields.
\<close>

theorem getFileStatus_shape_counterexample:
  "\<not> described_shape ''job-0'' (getFileStatus initial_state ''job-0'') \<and>
   keys (getFileStatus initial_state ''job-0'') = [''id'', ''status'', ''progress''] \<and>
   \<not> described_shape ''job-2''
       (getFileStatus (queueBuffer failing_env ''job-2'' [37, 80, 68, 70] ''scan.pdf''
                         ''application/pdf'' initial_state) ''job-2'') \<and>
   keys (getFileStatus (queueBuffer failing_env ''job-2'' [37, 80, 68, 70] ''scan.pdf''
                          ''application/pdf'' initial_state) ''job-2'') =
     [''id'', ''originalFilename'', ''status'', ''mimetype'', ''queuedAt'', ''buffer'',
      ''dataSize'', ''results'', ''error'']"
  by (simp add: described_shape_def getFileStatus_def lookup_def initial_state_def orElse_def
      keys_def queueBuffer_def)

text \<open>
  C9. In the status updates that a run adds for a job (those of the interval included, also
  the ones it makes after the run has returned with the interval still armed), a
  \<open>processing\<close> update never carries less progress than an earlier \<open>processing\<close> update
  and always carries less than 100; 100 comes with \<open>completed\<close> only, and an \<open>error\<close>
  update carries 0. This holds for the worker of the queue and for \<open>processQueuedFile\<close>.
\<close>

theorem progress_reports_in_order:
  "progress_ok (job_reports jid
      (run_history s (fst (settle ev n (worker ev cfg t s))))) \<and>
   progress_ok (job_reports jid
      (run_history s (fst (settle ev n (processQueuedFile ev cfg fid s)))))"
proof
  have "tracked s (fire_n ev n (fst (worker ev cfg t s)))"
    by (rule tracked_fire_n [OF tracked_worker])
  then show "progress_ok (job_reports jid
      (run_history s (fst (settle ev n (worker ev cfg t s)))))"
    unfolding settle_def fst_conv by (intro progress_ok_filter tracked_run_history)
  have "tracked s (fire_n ev n (fst (processQueuedFile ev cfg fid s)))"
    by (rule tracked_fire_n [OF tracked_processQueuedFile])
  then show "progress_ok (job_reports jid
      (run_history s (fst (settle ev n (processQueuedFile ev cfg fid s)))))"
    unfolding settle_def fst_conv by (intro progress_ok_filter tracked_run_history)
qed

text \<open>
  The theorem at a triggered buffer whose temporary file cannot be written: the run ends in
  \<open>error\<close> with the interval still armed, which then fires three times.
\<close>

theorem progress_reports_in_order_witness:
  "job_reports ''job-2'' (run_history sample_queued (fst (settle disk_full_env 3
      (processQueuedFile disk_full_env sample_config ''job-2'' sample_queued)))) =
     [(''processing'', 15), (''processing'', 10), (''processing'', 5), (''error'', 0),
      (''processing'', 0)] \<and>
   progress_ok [(''processing'', 15), (''processing'', 10), (''processing'', 5), (''error'', 0),
      (''processing'', 0)]"
proof -
  have e: "job_reports ''job-2'' (run_history sample_queued (fst (settle disk_full_env 3
      (processQueuedFile disk_full_env sample_config ''job-2'' sample_queued)))) =
     [(''processing'', 15), (''processing'', 10), (''processing'', 5), (''error'', 0),
      (''processing'', 0)]"
    by (simp add: run_history_append [OF history_disk_full] job_reports_def)
  have "progress_ok (job_reports ''job-2'' (run_history sample_queued (fst (settle disk_full_env 3
      (processQueuedFile disk_full_env sample_config ''job-2'' sample_queued)))))"
    by (rule conjunct2 [OF progress_reports_in_order])
  with e show ?thesis by simp
qed

text \<open>
  C10. Triggering a buffered job consumes its buffer. The first status update of the run
  replaces the record by one written by \<open>updateStatus\<close>, which has no \<open>buffer\<close> field; when
  the run is over the record still has none, however the run ended, and every later call of
  \<open>processQueuedFile\<close> for the job rejects with the buffer-not-found error.
\<close>

theorem trigger_consumes_buffer:
  assumes "truthy (fld (lookup s fid) ''buffer'')"
  shows "keys (lookup (trigger_begin ev fid (lookup s fid) s) fid) =
           [''id'', ''status'', ''result'', ''progress'', ''fileInfo'', ''updatedAt''] \<and>
         \<not> truthy (fld (lookup (fst (settle ev n (processQueuedFile ev cfg fid s))) fid)
                     ''buffer'') \<and>
         retrigger calls cfg2 fid (fst (settle ev n (processQueuedFile ev cfg fid s))) =
           replicate (length calls)
             (Rejected (Error (''File buffer not found for ID: '' @ fid)))"
proof -
  have a: "keys (lookup (trigger_begin ev fid (lookup s fid) s) fid) =
      [''id'', ''status'', ''result'', ''progress'', ''fileInfo'', ''updatedAt'']"
    by (simp add: trigger_begin_def lookup_def keys_status_record)
  have "spent fid (store (fst (processQueuedFile ev cfg fid s)))"
    by (rule spent_after_trigger [OF assms])
  then have sp: "spent fid (store (fst (settle ev n (processQueuedFile ev cfg fid s))))"
    unfolding settle_def by (simp add: kept_fire_n [OF kept_spent])
  from a spent_no_buffer [OF sp] retrigger_spent [OF sp] show ?thesis by simp
qed

text \<open>
  The theorem at a queued buffer that is triggered once and then twice more, with the
  interval firing three times before the last call.
\<close>

theorem trigger_consumes_buffer_witness:
  "truthy (fld (lookup (queueBuffer failing_env ''job-2'' [37, 80, 68, 70] ''scan.pdf''
                          ''application/pdf'' initial_state) ''job-2'') ''buffer'') \<and>
   retrigger [(failing_env, 3), (answering_env (JObj []), 0)] sample_config ''job-2''
     (fst (settle (answering_env (JObj [])) 0
        (processQueuedFile (answering_env (JObj [])) sample_config ''job-2''
           (queueBuffer failing_env ''job-2'' [37, 80, 68, 70] ''scan.pdf''
              ''application/pdf'' initial_state)))) =
     [Rejected (Error ''File buffer not found for ID: job-2''),
      Rejected (Error ''File buffer not found for ID: job-2'')]"
proof -
  have h: "truthy (fld (lookup (queueBuffer failing_env ''job-2'' [37, 80, 68, 70] ''scan.pdf''
                          ''application/pdf'' initial_state) ''job-2'') ''buffer'')"
    by (simp add: queueBuffer_def lookup_def fld_def own_def)
  from trigger_consumes_buffer [OF h, of "answering_env (JObj [])" 0 sample_config
      "[(failing_env, 3), (answering_env (JObj []), 0)]" sample_config] h
  show ?thesis by simp
qed


end
